theory Spec2Isabelle
  imports Main "HOL-Library.Word"
begin

section \<open>APR types used by the bucket beam\<close>

text \<open>
  The beam of \<^verbatim>\<open>modules/http2/h2_bucket_beam.c\<close> is embedded for an LP64 build:
  \<^verbatim>\<open>apr_size_t\<close>, \<^verbatim>\<open>apr_off_t\<close> and \<^verbatim>\<open>apr_interval_time_t\<close> are 64-bit words.
  Arithmetic wraps as in C; where the source compares a signed quantity
  (\<^verbatim>\<open>remain\<close>, \<^verbatim>\<open>readbytes\<close>, \<^verbatim>\<open>timeout\<close>) the signed orders \<open><s\<close> and \<open>\<le>s\<close> are used.
\<close>

type_synonym apr_size_t = "64 word"
type_synonym apr_off_t = "64 word"
type_synonym apr_interval_time_t = "64 word"

datatype apr_status_t =
    APR_SUCCESS
  | APR_EAGAIN
  | APR_TIMEUP
  | APR_ECONNABORTED
  | APR_ECONNRESET
  | APR_EOF
  | APR_ENOTIMPL
  | APR_ENOMEM
  | APR_EOTHER nat

datatype apr_read_type_e = APR_BLOCK_READ | APR_NONBLOCK_READ

text \<open>
  The bucket types the source distinguishes. \<open>BT_META\<close> is a metadata bucket that is
  neither EOS, FLUSH nor ERROR; \<open>BT_OTHER\<close> is a data bucket of a kind the beam has no
  knowledge of (mmap, immortal, pipe, and so on); \<open>BT_BEAM\<close> is the proxy bucket type
  \<^verbatim>\<open>h2_bucket_type_beam\<close>.
\<close>

datatype bucket_type =
    BT_EOS | BT_FLUSH | BT_ERROR | BT_META
  | BT_FILE | BT_HEAP | BT_TRANSIENT | BT_POOL | BT_OTHER | BT_BEAM

text \<open>
  A bucket. \<open>bid\<close> is its address (pointer identity, as \<^verbatim>\<open>b == proxy->bred\<close> needs it);
  \<open>bfd\<close> and \<open>breadpool\<close> are the \<^verbatim>\<open>apr_bucket_file\<close> fields of a file bucket,
  \<open>bproxy\<close> is the \<^verbatim>\<open>data\<close> pointer of a beam bucket (the address of its
  \<^verbatim>\<open>h2_beam_proxy\<close>), \<open>berr\<close> the status of an error bucket.
\<close>

record apr_bucket =
  bid :: nat
  btype :: bucket_type
  bstart :: apr_off_t
  blength :: apr_size_t
  bfd :: nat
  breadpool :: nat
  bproxy :: nat
  berr :: int

record apr_bucket_brigade =
  brigade_p :: nat
  brigade_list :: "apr_bucket list"

definition APR_BUCKET_IS_METADATA :: "apr_bucket \<Rightarrow> bool" where
  "APR_BUCKET_IS_METADATA b = (btype b \<in> {BT_EOS, BT_FLUSH, BT_ERROR, BT_META})"

definition APR_BUCKET_IS_EOS :: "apr_bucket \<Rightarrow> bool" where
  "APR_BUCKET_IS_EOS b = (btype b = BT_EOS)"

definition APR_BUCKET_IS_FLUSH :: "apr_bucket \<Rightarrow> bool" where
  "APR_BUCKET_IS_FLUSH b = (btype b = BT_FLUSH)"

definition AP_BUCKET_IS_ERROR :: "apr_bucket \<Rightarrow> bool" where
  "AP_BUCKET_IS_ERROR b = (btype b = BT_ERROR)"

definition APR_BUCKET_IS_FILE :: "apr_bucket \<Rightarrow> bool" where
  "APR_BUCKET_IS_FILE b = (btype b = BT_FILE)"

definition APR_BUCKET_IS_TRANSIENT :: "apr_bucket \<Rightarrow> bool" where
  "APR_BUCKET_IS_TRANSIENT b = (btype b = BT_TRANSIENT)"

definition APR_BUCKET_IS_HEAP :: "apr_bucket \<Rightarrow> bool" where
  "APR_BUCKET_IS_HEAP b = (btype b = BT_HEAP)"

definition APR_BUCKET_IS_POOL :: "apr_bucket \<Rightarrow> bool" where
  "APR_BUCKET_IS_POOL b = (btype b = BT_POOL)"

definition APR_SIZE_MAX :: apr_size_t where
  "APR_SIZE_MAX = - 1"

section \<open>The proxy and the beam\<close>

text \<open>
  \<^verbatim>\<open>struct h2_beam_proxy\<close>. \<open>refcount\<close> is the \<^verbatim>\<open>int\<close> of \<^verbatim>\<open>apr_bucket_refcount\<close>,
  \<open>pbeam\<close> says whether the \<^verbatim>\<open>beam\<close> pointer is non-null
  (there is one beam in the model), \<open>bred\<close> is the nullable pointer to the producer
  bucket, \<open>pn\<close> the sequence number \<^verbatim>\<open>n\<close>.
\<close>

record h2_beam_proxy =
  refcount :: int
  pbeam :: bool
  bred :: "nat option"
  pn :: apr_size_t

datatype h2_beam_owner_t = H2_BEAM_OWNER_SEND | H2_BEAM_OWNER_RECV

text \<open>
  \<^verbatim>\<open>struct h2_bucket_beam\<close>. The three \<^verbatim>\<open>h2_blist\<close> rings are lists, \<open>proxies\<close> is the
  ring of live proxies as a list of addresses into \<open>proxy_mem\<close>, the memory that
  holds every proxy allocated so far (a proxy's address is its index).
  The lock hook \<open>m_enter\<close> is described by what it returns: its status and whether it
  sets \<^verbatim>\<open>pbl->mutex\<close>. \<open>m_ctx\<close>, \<open>m_cond\<close>, \<open>consumed_fn\<close> and \<open>produced_fn\<close> say
  whether the pointer is non-null. The last three fields are history variables: the
  deltas handed to the two io callbacks, in order, and how often receive has appended
  the end-of-stream bucket of its closing step.
  Condition broadcasts and the registration of pool cleanups act on objects outside
  the beam and leave no trace in this state.
\<close>

record h2_bucket_beam =
  beam_pool :: nat
  owner :: h2_beam_owner_t
  send_list :: "apr_bucket list"
  hold_list :: "apr_bucket list"
  purge_list :: "apr_bucket list"
  recv_buffer :: "apr_bucket list option"
  proxies :: "nat list"
  send_pool :: "nat option"
  recv_pool :: "nat option"
  max_buf_size :: apr_size_t
  timeout :: apr_interval_time_t
  sent_bytes :: apr_off_t
  received_bytes :: apr_off_t
  reported_consumed_bytes :: apr_off_t
  reported_produced_bytes :: apr_off_t
  buckets_sent :: apr_size_t
  files_beamed :: apr_size_t
  last_beamed :: "nat option"
  aborted :: bool
  closed :: bool
  close_sent :: bool
  m_ctx :: bool
  m_enter :: "(apr_status_t \<times> bool) option"
  m_cond :: bool
  consumed_fn :: bool
  produced_fn :: bool
  can_beam_fn :: "(nat \<Rightarrow> bool) option"
  proxy_mem :: "h2_beam_proxy list"
  consumed_calls :: "apr_off_t list"
  produced_calls :: "apr_off_t list"
  close_eos_made :: nat

text \<open>
  How a call ends: it returns, it never returns because it waits on the condition
  for ever (\<open>Blocked\<close>), or the process dies in \<^verbatim>\<open>ap_assert\<close> or on a null
  condition variable (\<open>Crash\<close>).
\<close>

datatype 'a outcome = Blocked | Crash | Ret 'a

text \<open>
  What happens while a thread waits on the condition, one entry for each thing that
  happens: \<open>Signal f\<close> is a broadcast after the other thread has changed the beam by
  \<open>f\<close>; \<open>Elapse\<close> is the passing of the beam's timeout interval with no broadcast.
  A wait on an empty schedule never returns.
\<close>

datatype wake = Elapse | Signal "h2_bucket_beam \<Rightarrow> h2_bucket_beam"

section \<open>Locking, reports, buffer accounting\<close>

definition enter_yellow :: "h2_bucket_beam \<Rightarrow> apr_status_t \<times> bool" where
  "enter_yellow beam =
     (case m_enter beam of
        Some enter \<Rightarrow> (if m_ctx beam then enter else (APR_SUCCESS, False))
      | None \<Rightarrow> (APR_SUCCESS, False))"

definition report_consumption :: "h2_bucket_beam \<Rightarrow> bool \<Rightarrow> h2_bucket_beam" where
  "report_consumption beam force =
     (if force \<or> received_bytes beam \<noteq> reported_consumed_bytes beam then
        (let beam1 =
               (if consumed_fn beam
                then beam\<lparr>consumed_calls := consumed_calls beam @
                            [received_bytes beam - reported_consumed_bytes beam]\<rparr>
                else beam)
         in beam1\<lparr>reported_consumed_bytes := received_bytes beam1\<rparr>)
      else beam)"

definition report_production :: "h2_bucket_beam \<Rightarrow> bool \<Rightarrow> h2_bucket_beam" where
  "report_production beam force =
     (if force \<or> sent_bytes beam \<noteq> reported_produced_bytes beam then
        (let beam1 =
               (if produced_fn beam
                then beam\<lparr>produced_calls := produced_calls beam @
                            [sent_bytes beam - reported_produced_bytes beam]\<rparr>
                else beam)
         in beam1\<lparr>reported_produced_bytes := sent_bytes beam1\<rparr>)
      else beam)"

primrec calc_buffered_from :: "apr_bucket list \<Rightarrow> apr_size_t \<Rightarrow> apr_size_t" where
  "calc_buffered_from [] len = len"
| "calc_buffered_from (b # bs) len =
     calc_buffered_from bs
       (if blength b = - 1 then len
        else if APR_BUCKET_IS_FILE b then len
        else len + blength b)"

definition calc_buffered :: "h2_bucket_beam \<Rightarrow> apr_size_t" where
  "calc_buffered beam = calc_buffered_from (send_list beam) 0"

definition r_purge_sent :: "h2_bucket_beam \<Rightarrow> h2_bucket_beam" where
  "r_purge_sent beam = beam\<lparr>purge_list := []\<rparr>"

definition calc_space_left :: "h2_bucket_beam \<Rightarrow> apr_size_t" where
  "calc_space_left beam =
     (if max_buf_size beam > 0 then
        (let len = calc_buffered beam
         in if max_buf_size beam > len then max_buf_size beam - len else 0)
      else APR_SIZE_MAX)"

text \<open>
  \<^verbatim>\<open>wait_cond\<close>: a timed wait when \<^verbatim>\<open>timeout > 0\<close>, an untimed one otherwise, which
  the passing of time does not end. Waiting on a null condition variable is a fault.
  The result carries the status, the beam as the other thread left it, and the rest
  of the schedule.
\<close>

fun wait_cond :: "h2_bucket_beam \<Rightarrow> wake list \<Rightarrow>
    (apr_status_t \<times> h2_bucket_beam \<times> wake list) outcome" where
  "wait_cond beam [] = (if m_cond beam then Blocked else Crash)"
| "wait_cond beam (Signal f # sched) =
     (if m_cond beam then Ret (APR_SUCCESS, f beam, sched) else Crash)"
| "wait_cond beam (Elapse # sched) =
     (if m_cond beam then
        (if 0 <s timeout beam then Ret (APR_TIMEUP, beam, sched)
         else wait_cond beam sched)
      else Crash)"

lemma wait_cond_shorter:
  "wait_cond beam sched = Ret (st, beam', sched') \<Longrightarrow> length sched' < length sched"
  by (induction beam sched rule: wait_cond.induct) (auto split: if_splits)

section \<open>wait-empty\<close>

function wait_empty_loop :: "h2_bucket_beam \<Rightarrow> apr_read_type_e \<Rightarrow> bool \<Rightarrow> wake list \<Rightarrow>
    (apr_status_t \<times> h2_bucket_beam) outcome" where
  "wait_empty_loop beam block mutex sched =
     (if send_list beam \<noteq> [] \<and> proxies beam \<noteq> [] then
        (if block = APR_NONBLOCK_READ \<or> \<not> mutex then Ret (APR_EAGAIN, beam)
         else
           (case wait_cond beam sched of
              Blocked \<Rightarrow> Blocked
            | Crash \<Rightarrow> Crash
            | Ret (status, beam', sched') \<Rightarrow>
                (if status = APR_SUCCESS then wait_empty_loop beam' block mutex sched'
                 else Ret (status, beam'))))
      else Ret (APR_SUCCESS, beam))"
  by pat_completeness auto

termination
  by (relation "measure (\<lambda>(beam, block, mutex, sched). length sched)")
     (auto dest: wait_cond_shorter)

definition h2_beam_wait_empty :: "h2_bucket_beam \<Rightarrow> apr_read_type_e \<Rightarrow> wake list \<Rightarrow>
    (apr_status_t \<times> h2_bucket_beam) outcome" where
  "h2_beam_wait_empty beam block sched =
     (case enter_yellow beam of
        (APR_SUCCESS, mutex) \<Rightarrow> wait_empty_loop beam block mutex sched
      | (status, mutex) \<Rightarrow> Ret (status, beam))"

section \<open>Proxies: read, destroy, emitted\<close>

text \<open>
  The APR primitives and hooks the beam calls but does not define are parameters:
  \<open>apr_bucket_read\<close> gives the status, the bytes read, the bucket as the read left
  it (a read may morph a bucket) and the buckets it inserted after it;
  \<open>apr_bucket_setaside\<close> gives status and the bucket afterwards;
  \<open>apr_bucket_split\<close> gives status, the head left in place and the buckets inserted
  after it; \<open>apr_file_setaside\<close> gives status and the new file handle;
  \<open>beamers\<close> is the registry, each beamer described by the buckets it appends to the
  destination (none when it returns NULL). \<open>send_list_sentinel\<close> is the address that
  \<^verbatim>\<open>H2_BLIST_SENTINEL(&beam->send_list)\<close> stands for, which is the \<^verbatim>\<open>link.next\<close> of the
  last bucket of the send list.
\<close>

record apr_env =
  apr_bucket_read :: "apr_bucket \<Rightarrow> apr_status_t \<times> 8 word list \<times> apr_bucket \<times> apr_bucket list"
  apr_bucket_setaside :: "apr_bucket \<Rightarrow> nat option \<Rightarrow> apr_status_t \<times> apr_bucket"
  apr_bucket_split :: "apr_bucket \<Rightarrow> apr_size_t \<Rightarrow> apr_status_t \<times> apr_bucket \<times> apr_bucket list"
  apr_file_setaside :: "nat \<Rightarrow> nat \<Rightarrow> apr_status_t \<times> nat"
  beamers :: "(apr_bucket \<Rightarrow> apr_bucket list) list"
  APR_BUCKET_BUFF_SIZE :: apr_size_t
  send_list_sentinel :: nat

definition proxy_at :: "h2_bucket_beam \<Rightarrow> nat \<Rightarrow> h2_beam_proxy option" where
  "proxy_at beam a = (if a < length (proxy_mem beam) then Some (proxy_mem beam ! a) else None)"

definition proxy_store :: "h2_bucket_beam \<Rightarrow> nat \<Rightarrow> h2_beam_proxy \<Rightarrow> h2_bucket_beam" where
  "proxy_store beam a d = beam\<lparr>proxy_mem := (proxy_mem beam)[a := d]\<rparr>"

text \<open>
  Dereferencing \<^verbatim>\<open>d->bred\<close>: the producer bucket at that address, which is in one of
  the beam's three lists as long as it has not been deleted.
\<close>

definition bucket_at :: "h2_bucket_beam \<Rightarrow> nat \<Rightarrow> apr_bucket option" where
  "bucket_at beam a =
     find (\<lambda>b. bid b = a) (hold_list beam @ send_list beam @ purge_list beam)"

text \<open>
  \<^verbatim>\<open>beam_bucket_read\<close> on the beam bucket \<open>b\<close>. The result is the status with the bytes
  \<^verbatim>\<open>*str\<close> .. \<^verbatim>\<open>*str + *len\<close>. When the underlying read fails, \<^verbatim>\<open>*str\<close> is not
  assigned; the model gives no bytes then. A proxy or producer bucket that is not in
  memory any more is a fault.
\<close>

definition beam_bucket_read :: "apr_env \<Rightarrow> h2_bucket_beam \<Rightarrow> apr_bucket \<Rightarrow>
    (apr_status_t \<times> 8 word list) outcome" where
  "beam_bucket_read env beam b =
     (case proxy_at beam (bproxy b) of
        None \<Rightarrow> Crash
      | Some d \<Rightarrow>
          (case bred d of
             Some a \<Rightarrow>
               (case bucket_at beam a of
                  None \<Rightarrow> Crash
                | Some r \<Rightarrow>
                    (case apr_bucket_read env r of
                       (status, data, r', ins) \<Rightarrow>
                         (if status = APR_SUCCESS
                          then Ret (status, take (unat (blength b)) (drop (unat (bstart b)) data))
                          else Ret (status, []))))
           | None \<Rightarrow> Ret (APR_ECONNRESET, [])))"

text \<open>
  The second loop of \<^verbatim>\<open>h2_beam_emitted\<close> over the hold list: the result is what
  stays in hold and what is appended to purge, in order.
\<close>

fun emitted_scan :: "apr_bucket list \<Rightarrow> nat \<Rightarrow> apr_bucket list \<times> apr_bucket list" where
  "emitted_scan [] a = ([], [])"
| "emitted_scan (b # bs) a =
     (if bid b = a then (bs, [b])
      else if APR_BUCKET_IS_METADATA b then
        (case emitted_scan bs a of (hold, moved) \<Rightarrow> (hold, b # moved))
      else
        (case emitted_scan bs a of (hold, moved) \<Rightarrow> (b # hold, moved)))"

definition h2_beam_emitted :: "h2_bucket_beam \<Rightarrow> nat \<Rightarrow> h2_bucket_beam outcome" where
  "h2_beam_emitted beam proxy =
     (case enter_yellow beam of
        (APR_SUCCESS, mutex) \<Rightarrow>
          (let beam1 = beam\<lparr>proxies := remove1 proxy (proxies beam)\<rparr>
           in case proxy_at beam1 proxy of
                None \<Rightarrow> Crash
              | Some d \<Rightarrow>
                  (case (case bred d of
                           Some a \<Rightarrow>
                             (if \<exists>b \<in> set (hold_list beam1). bid b = a then
                                (case emitted_scan (hold_list beam1) a of
                                   (hold, moved) \<Rightarrow>
                                     Ret (proxy_store
                                            (beam1\<lparr>hold_list := hold,
                                                   purge_list := purge_list beam1 @ moved\<rparr>)
                                            proxy (d\<lparr>bred := None\<rparr>)))
                              else Crash)
                         | None \<Rightarrow> Ret beam1) of
                     Ret beam2 \<Rightarrow> Ret (if \<not> mutex then r_purge_sent beam2 else beam2)
                   | Blocked \<Rightarrow> Blocked
                   | Crash \<Rightarrow> Crash))
      | (status, mutex) \<Rightarrow> Ret beam)"

text \<open>
  \<^verbatim>\<open>beam_bucket_destroy\<close> on the proxy at address \<open>a\<close>:
  \<^verbatim>\<open>apr_bucket_shared_destroy\<close> drops one reference and tells whether it was the last.
\<close>

definition beam_bucket_destroy :: "h2_bucket_beam \<Rightarrow> nat \<Rightarrow> h2_bucket_beam outcome" where
  "beam_bucket_destroy beam a =
     (case proxy_at beam a of
        None \<Rightarrow> Crash
      | Some d \<Rightarrow>
          (let d' = d\<lparr>refcount := refcount d - 1\<rparr>;
               beam1 = proxy_store beam a d'
           in if refcount d' = 0 then
                (if pbeam d' then h2_beam_emitted beam1 a else Ret beam1)
              else Ret beam1))"

text \<open>
  Deleting a bucket of the consumer side runs the destroy function of its type; only
  that of a beam bucket touches the beam. \<open>brigade_cleanup\<close> is
  \<^verbatim>\<open>apr_brigade_cleanup\<close> on a brigade with these buckets.
\<close>

definition bucket_delete :: "h2_bucket_beam \<Rightarrow> apr_bucket \<Rightarrow> h2_bucket_beam outcome" where
  "bucket_delete beam b =
     (if btype b = BT_BEAM then beam_bucket_destroy beam (bproxy b) else Ret beam)"

fun brigade_cleanup :: "h2_bucket_beam \<Rightarrow> apr_bucket list \<Rightarrow> h2_bucket_beam outcome" where
  "brigade_cleanup beam [] = Ret beam"
| "brigade_cleanup beam (b # bs) =
     (case bucket_delete beam b of
        Ret beam' \<Rightarrow> brigade_cleanup beam' bs
      | Blocked \<Rightarrow> Blocked
      | Crash \<Rightarrow> Crash)"

section \<open>Close, abort, cleanup, destroy, create\<close>

definition h2_blist_cleanup :: "apr_bucket list \<Rightarrow> apr_bucket list" where
  "h2_blist_cleanup bl = []"

definition beam_close :: "h2_bucket_beam \<Rightarrow> h2_bucket_beam" where
  "beam_close beam = (if \<not> closed beam then beam\<lparr>closed := True\<rparr> else beam)"

definition beam_recv_cleanup :: "h2_bucket_beam \<Rightarrow> h2_bucket_beam" where
  "beam_recv_cleanup beam = beam\<lparr>recv_buffer := None, recv_pool := None\<rparr>"

definition beam_set_recv_pool :: "h2_bucket_beam \<Rightarrow> nat option \<Rightarrow> h2_bucket_beam" where
  "beam_set_recv_pool beam pool =
     (if owner beam = H2_BEAM_OWNER_SEND \<and> recv_pool beam \<noteq> pool
      then beam\<lparr>recv_pool := pool\<rparr> else beam)"

text \<open>
  The loop of \<^verbatim>\<open>beam_send_cleanup\<close> over the proxy ring: each proxy is unlinked and
  its two pointers are nulled.
\<close>

fun detach_proxies :: "nat list \<Rightarrow> h2_beam_proxy list \<Rightarrow> h2_beam_proxy list" where
  "detach_proxies [] mem = mem"
| "detach_proxies (a # as) mem =
     detach_proxies as
       (if a < length mem then mem[a := (mem ! a)\<lparr>pbeam := False, bred := None\<rparr>] else mem)"

definition beam_send_cleanup :: "h2_bucket_beam \<Rightarrow> h2_bucket_beam" where
  "beam_send_cleanup beam =
     (let beam1 = r_purge_sent beam;
          beam2 = beam1\<lparr>send_list := h2_blist_cleanup (send_list beam1)\<rparr>;
          beam3 = report_consumption beam2 False;
          beam4 = beam3\<lparr>proxy_mem := detach_proxies (proxies beam3) (proxy_mem beam3),
                       proxies := []\<rparr>
      in beam4\<lparr>purge_list := h2_blist_cleanup (purge_list beam4),
               hold_list := h2_blist_cleanup (hold_list beam4),
               send_pool := None\<rparr>)"

definition beam_set_send_pool :: "h2_bucket_beam \<Rightarrow> nat option \<Rightarrow> h2_bucket_beam" where
  "beam_set_send_pool beam pool =
     (if owner beam = H2_BEAM_OWNER_RECV \<and> send_pool beam \<noteq> pool
      then beam\<lparr>send_pool := pool\<rparr> else beam)"

text \<open>
  \<^verbatim>\<open>beam_cleanup\<close>. A failing \<^verbatim>\<open>ap_assert\<close> ends the process. Destroying the
  receive buffer deletes its buckets.
\<close>

definition beam_cleanup :: "h2_bucket_beam \<Rightarrow> (apr_status_t \<times> h2_bucket_beam) outcome" where
  "beam_cleanup beam =
     (let beam1 = beam_close beam
      in case owner beam1 of
           H2_BEAM_OWNER_SEND \<Rightarrow>
             Ret (APR_SUCCESS, (beam_send_cleanup beam1)\<lparr>recv_buffer := None, recv_pool := None\<rparr>)
         | H2_BEAM_OWNER_RECV \<Rightarrow>
             (case (case recv_buffer beam1 of
                      Some gs \<Rightarrow> brigade_cleanup beam1 gs
                    | None \<Rightarrow> Ret beam1) of
                Blocked \<Rightarrow> Blocked
              | Crash \<Rightarrow> Crash
              | Ret beam2 \<Rightarrow>
                  (let beam3 = beam2\<lparr>recv_buffer := None, recv_pool := None\<rparr>
                   in if send_list beam3 \<noteq> [] \<and> send_pool beam3 = None then Crash
                      else
                        (case (if send_pool beam3 \<noteq> None then
                                 (if m_enter beam3 \<noteq> None then Crash
                                  else Ret (beam_send_cleanup beam3))
                               else Ret beam3) of
                           Blocked \<Rightarrow> Blocked
                         | Crash \<Rightarrow> Crash
                         | Ret beam4 \<Rightarrow>
                             (if proxies beam4 = [] \<and> send_list beam4 = []
                                 \<and> hold_list beam4 = [] \<and> purge_list beam4 = []
                              then Ret (APR_SUCCESS, beam4) else Crash)))))"

definition h2_beam_destroy :: "h2_bucket_beam \<Rightarrow> (apr_status_t \<times> h2_bucket_beam) outcome" where
  "h2_beam_destroy beam = beam_cleanup beam"

text \<open>\<^verbatim>\<open>h2_beam_create\<close>: the beam is zeroed memory but for the arguments.\<close>

definition h2_beam_create :: "nat \<Rightarrow> h2_beam_owner_t \<Rightarrow> apr_size_t \<Rightarrow> h2_bucket_beam" where
  "h2_beam_create pool own max_size =
     \<lparr>beam_pool = pool, owner = own, send_list = [], hold_list = [], purge_list = [],
      recv_buffer = None, proxies = [], send_pool = None, recv_pool = None,
      max_buf_size = max_size, timeout = 0, sent_bytes = 0, received_bytes = 0,
      reported_consumed_bytes = 0, reported_produced_bytes = 0, buckets_sent = 0,
      files_beamed = 0, last_beamed = None, aborted = False, closed = False,
      close_sent = False, m_ctx = False, m_enter = None, m_cond = False,
      consumed_fn = False, produced_fn = False, can_beam_fn = None,
      proxy_mem = [], consumed_calls = [], produced_calls = [], close_eos_made = 0\<rparr>"

definition h2_beam_buffer_size_set :: "h2_bucket_beam \<Rightarrow> apr_size_t \<Rightarrow> h2_bucket_beam" where
  "h2_beam_buffer_size_set beam buffer_size =
     (case enter_yellow beam of
        (APR_SUCCESS, mutex) \<Rightarrow> beam\<lparr>max_buf_size := buffer_size\<rparr>
      | (status, mutex) \<Rightarrow> beam)"

definition h2_beam_mutex_set :: "h2_bucket_beam \<Rightarrow> (apr_status_t \<times> bool) option \<Rightarrow> bool \<Rightarrow> bool
    \<Rightarrow> h2_bucket_beam" where
  "h2_beam_mutex_set beam enter cond ctx =
     (case enter_yellow beam of
        (APR_SUCCESS, mutex) \<Rightarrow> beam\<lparr>m_enter := enter, m_ctx := ctx, m_cond := cond\<rparr>
      | (status, mutex) \<Rightarrow> beam)"

definition h2_beam_timeout_set :: "h2_bucket_beam \<Rightarrow> apr_interval_time_t \<Rightarrow> h2_bucket_beam" where
  "h2_beam_timeout_set beam t =
     (case enter_yellow beam of
        (APR_SUCCESS, mutex) \<Rightarrow> beam\<lparr>timeout := t\<rparr>
      | (status, mutex) \<Rightarrow> beam)"

definition h2_beam_on_consumed :: "h2_bucket_beam \<Rightarrow> bool \<Rightarrow> h2_bucket_beam" where
  "h2_beam_on_consumed beam cb =
     (case enter_yellow beam of
        (APR_SUCCESS, mutex) \<Rightarrow> beam\<lparr>consumed_fn := cb\<rparr>
      | (status, mutex) \<Rightarrow> beam)"

definition h2_beam_on_produced :: "h2_bucket_beam \<Rightarrow> bool \<Rightarrow> h2_bucket_beam" where
  "h2_beam_on_produced beam cb =
     (case enter_yellow beam of
        (APR_SUCCESS, mutex) \<Rightarrow> beam\<lparr>produced_fn := cb\<rparr>
      | (status, mutex) \<Rightarrow> beam)"

definition h2_beam_on_file_beam :: "h2_bucket_beam \<Rightarrow> (nat \<Rightarrow> bool) option \<Rightarrow> h2_bucket_beam" where
  "h2_beam_on_file_beam beam cb =
     (case enter_yellow beam of
        (APR_SUCCESS, mutex) \<Rightarrow> beam\<lparr>can_beam_fn := cb\<rparr>
      | (status, mutex) \<Rightarrow> beam)"

definition h2_beam_abort :: "h2_bucket_beam \<Rightarrow> h2_bucket_beam" where
  "h2_beam_abort beam =
     (case enter_yellow beam of
        (APR_SUCCESS, mutex) \<Rightarrow>
          (if \<not> aborted beam then
             (let beam1 = r_purge_sent (beam\<lparr>aborted := True\<rparr>);
                  beam2 = beam1\<lparr>send_list := h2_blist_cleanup (send_list beam1)\<rparr>
              in report_consumption beam2 False)
           else beam)
      | (status, mutex) \<Rightarrow> beam)"

definition h2_beam_close :: "h2_bucket_beam \<Rightarrow> apr_status_t \<times> h2_bucket_beam" where
  "h2_beam_close beam =
     (let beam' =
            (case enter_yellow beam of
               (APR_SUCCESS, mutex) \<Rightarrow> report_consumption (beam_close (r_purge_sent beam)) False
             | (status, mutex) \<Rightarrow> beam)
      in (if aborted beam' then APR_ECONNABORTED else APR_SUCCESS, beam'))"

definition h2_beam_was_received :: "h2_bucket_beam \<Rightarrow> bool" where
  "h2_beam_was_received beam =
     (case enter_yellow beam of
        (APR_SUCCESS, mutex) \<Rightarrow> 0 <s received_bytes beam
      | (status, mutex) \<Rightarrow> False)"

definition h2_beam_empty :: "h2_bucket_beam \<Rightarrow> bool" where
  "h2_beam_empty beam =
     (case enter_yellow beam of
        (APR_SUCCESS, mutex) \<Rightarrow>
          send_list beam = [] \<and> (recv_buffer beam = None \<or> recv_buffer beam = Some [])
      | (status, mutex) \<Rightarrow> True)"

definition h2_beam_holds_proxies :: "h2_bucket_beam \<Rightarrow> bool" where
  "h2_beam_holds_proxies beam =
     (case enter_yellow beam of
        (APR_SUCCESS, mutex) \<Rightarrow> proxies beam \<noteq> []
      | (status, mutex) \<Rightarrow> True)"

definition h2_beam_get_files_beamed :: "h2_bucket_beam \<Rightarrow> apr_size_t" where
  "h2_beam_get_files_beamed beam =
     (case enter_yellow beam of
        (APR_SUCCESS, mutex) \<Rightarrow> files_beamed beam
      | (status, mutex) \<Rightarrow> 0)"

section \<open>Send\<close>

function r_wait_space_loop :: "h2_bucket_beam \<Rightarrow> apr_size_t \<Rightarrow> apr_read_type_e \<Rightarrow> bool \<Rightarrow>
    wake list \<Rightarrow> (apr_status_t \<times> h2_bucket_beam \<times> apr_size_t \<times> wake list) outcome" where
  "r_wait_space_loop beam premain block mutex sched =
     (if \<not> aborted beam \<and> premain \<le> 0 \<and> block = APR_BLOCK_READ \<and> mutex then
        (let beam1 = report_production beam True
         in case wait_cond beam1 sched of
              Blocked \<Rightarrow> Blocked
            | Crash \<Rightarrow> Crash
            | Ret (status, beam2, sched') \<Rightarrow>
                (if status = APR_TIMEUP then Ret (status, beam2, premain, sched')
                 else
                   (let beam3 = r_purge_sent beam2
                    in r_wait_space_loop beam3 (calc_space_left beam3) block mutex sched')))
      else Ret (if aborted beam then APR_ECONNABORTED else APR_SUCCESS, beam, premain, sched))"
  by pat_completeness auto

termination
  by (relation "measure (\<lambda>(beam, premain, block, mutex, sched). length sched)")
     (auto dest: wait_cond_shorter)

definition r_wait_space :: "h2_bucket_beam \<Rightarrow> apr_read_type_e \<Rightarrow> bool \<Rightarrow> wake list \<Rightarrow>
    (apr_status_t \<times> h2_bucket_beam \<times> apr_size_t \<times> wake list) outcome" where
  "r_wait_space beam block mutex sched =
     r_wait_space_loop beam (calc_space_left beam) block mutex sched"

definition move_to_hold :: "h2_bucket_beam \<Rightarrow> apr_bucket_brigade option \<Rightarrow>
    h2_bucket_beam \<times> apr_bucket_brigade option" where
  "move_to_hold beam red_brigade =
     (case red_brigade of
        None \<Rightarrow> (beam, None)
      | Some bb \<Rightarrow>
          (beam\<lparr>send_list := send_list beam @ brigade_list bb\<rparr>, Some (bb\<lparr>brigade_list := []\<rparr>)))"

definition apr_bucket_heap_make :: "apr_bucket \<Rightarrow> apr_size_t \<Rightarrow> apr_bucket" where
  "apr_bucket_heap_make b len = b\<lparr>btype := BT_HEAP, bstart := 0, blength := len\<rparr>"

text \<open>
  The parts of \<^verbatim>\<open>append_bucket\<close> for a bucket that is not metadata, in the order of
  the source. Each part gives the bucket as it is afterwards and the buckets that the
  APR calls inserted after it in the producer's brigade.

  First the space check of a bucket that is neither metadata nor file.
\<close>

definition append_space :: "apr_env \<Rightarrow> h2_bucket_beam \<Rightarrow> apr_bucket \<Rightarrow> apr_read_type_e \<Rightarrow> bool \<Rightarrow>
    wake list \<Rightarrow>
    (apr_status_t \<times> h2_bucket_beam \<times> apr_bucket \<times> apr_bucket list \<times> apr_size_t \<times> wake list) outcome"
  where
  "append_space env beam b block mutex sched =
     (let space_left = calc_space_left beam
      in case (if space_left > 0 \<and> blength b = - 1 then apr_bucket_read env b
               else (APR_SUCCESS, [], b, [])) of
           (status, data, b1, ins) \<Rightarrow>
             (if status \<noteq> APR_SUCCESS then Ret (status, beam, b1, ins, space_left, sched)
              else if space_left < blength b1 then
                (case r_wait_space beam block mutex sched of
                   Blocked \<Rightarrow> Blocked
                 | Crash \<Rightarrow> Crash
                 | Ret (status2, beam2, space2, sched2) \<Rightarrow>
                     (if status2 \<noteq> APR_SUCCESS then Ret (status2, beam2, b1, ins, space2, sched2)
                      else if space2 \<le> 0 then Ret (APR_EAGAIN, beam2, b1, ins, space2, sched2)
                      else Ret (APR_SUCCESS, beam2, b1, ins, space2, sched2)))
              else Ret (APR_SUCCESS, beam, b1, ins, space_left, sched)))"

text \<open>The chain over the bucket kinds the beam knows; the status starts as not-implemented.\<close>

definition append_normalize :: "apr_env \<Rightarrow> h2_bucket_beam \<Rightarrow> apr_bucket \<Rightarrow>
    apr_status_t \<times> h2_bucket_beam \<times> apr_bucket \<times> apr_bucket list" where
  "append_normalize env beam b =
     (if APR_BUCKET_IS_TRANSIENT b then
        (case apr_bucket_setaside env b (send_pool beam) of
           (status, b') \<Rightarrow> (status, beam, b', []))
      else if APR_BUCKET_IS_HEAP b then (APR_SUCCESS, beam, b, [])
      else if APR_BUCKET_IS_POOL b then
        (case apr_bucket_read env b of
           (status, data, b', ins) \<Rightarrow>
             (if status = APR_SUCCESS
              then (status, beam, apr_bucket_heap_make b' (of_nat (length data)), ins)
              else (status, beam, b', ins)))
      else if APR_BUCKET_IS_FILE b then
        (let fd = bfd b;
             can_beam =
               (if last_beamed beam \<noteq> Some fd \<and> can_beam_fn beam \<noteq> None
                then the (can_beam_fn beam) fd else True)
         in if can_beam then
              (case apr_bucket_setaside env b (send_pool beam) of
                 (status, b') \<Rightarrow> (status, beam\<lparr>last_beamed := Some fd\<rparr>, b', []))
            else (APR_ENOTIMPL, beam, b, []))
      else (APR_ENOTIMPL, beam, b, []))"

text \<open>The block entered with status not-implemented: split, read, set aside.\<close>

definition append_fallback :: "apr_env \<Rightarrow> h2_bucket_beam \<Rightarrow> apr_bucket \<Rightarrow> apr_size_t \<Rightarrow>
    apr_status_t \<times> apr_bucket \<times> apr_bucket list" where
  "append_fallback env beam b space_left =
     (let space1 = (if space_left < APR_BUCKET_BUFF_SIZE env
                    then APR_BUCKET_BUFF_SIZE env else space_left)
      in case (if space1 < blength b
               then (case apr_bucket_split env b space1 of (st, h, ins) \<Rightarrow> (h, ins))
               else (b, [])) of
           (b1, ins1) \<Rightarrow>
             (case apr_bucket_read env b1 of
                (status, data, b2, ins2) \<Rightarrow>
                  (if status = APR_SUCCESS then
                     (case apr_bucket_setaside env b2 (send_pool beam) of
                        (status', b3) \<Rightarrow> (status', b3, ins2 @ ins1))
                   else (status, b2, ins2 @ ins1))))"

text \<open>
  \<^verbatim>\<open>append_bucket\<close> on the first bucket \<open>b\<close> of the producer's brigade, \<open>rest\<close> being
  the buckets after it. The result has the brigade as the call leaves it.
\<close>

definition append_bucket :: "apr_env \<Rightarrow> h2_bucket_beam \<Rightarrow> apr_bucket \<Rightarrow> apr_bucket list \<Rightarrow>
    apr_read_type_e \<Rightarrow> bool \<Rightarrow> wake list \<Rightarrow>
    (apr_status_t \<times> h2_bucket_beam \<times> apr_bucket list \<times> wake list) outcome" where
  "append_bucket env beam b rest block mutex sched =
     (if APR_BUCKET_IS_METADATA b then
        Ret (APR_SUCCESS,
             (if APR_BUCKET_IS_EOS b then beam\<lparr>closed := True\<rparr> else beam)
               \<lparr>send_list := send_list beam @ [b]\<rparr>,
             rest, sched)
      else
        (case (if APR_BUCKET_IS_FILE b then Ret (APR_SUCCESS, beam, b, [], 0, sched)
               else append_space env beam b block mutex sched) of
           Blocked \<Rightarrow> Blocked
         | Crash \<Rightarrow> Crash
         | Ret (status, beam1, b1, ins1, space_left, sched1) \<Rightarrow>
             (if status \<noteq> APR_SUCCESS then Ret (status, beam1, b1 # ins1 @ rest, sched1)
              else
                (case append_normalize env beam1 b1 of
                   (status2, beam2, b2, ins2) \<Rightarrow>
                     (case (if status2 = APR_ENOTIMPL
                            then append_fallback env beam2 b2 space_left
                            else (status2, b2, [])) of
                        (status3, b3, ins3) \<Rightarrow>
                          (if status3 \<noteq> APR_SUCCESS \<and> status3 \<noteq> APR_ENOTIMPL then
                             Ret (status3, beam2, b3 # ins3 @ ins2 @ ins1 @ rest, sched1)
                           else
                             Ret (APR_SUCCESS,
                                  beam2\<lparr>send_list := send_list beam2 @ [b3],
                                        sent_bytes := sent_bytes beam2 + blength b3\<rparr>,
                                  ins3 @ ins2 @ ins1 @ rest, sched1)))))))"

text \<open>
  The loop of \<^verbatim>\<open>h2_beam_send\<close> over the brigade. Reads and splits may insert buckets,
  so the brigade need not shrink; \<open>fuel\<close> bounds the number of buckets taken, and a
  run that needs more has not returned within the bound.
\<close>

fun send_loop :: "apr_env \<Rightarrow> nat \<Rightarrow> h2_bucket_beam \<Rightarrow> apr_bucket list \<Rightarrow> apr_read_type_e \<Rightarrow>
    bool \<Rightarrow> wake list \<Rightarrow> (apr_status_t \<times> h2_bucket_beam \<times> apr_bucket list) outcome" where
  "send_loop env fuel beam [] block mutex sched = Ret (APR_SUCCESS, beam, [])"
| "send_loop env 0 beam (b # rest) block mutex sched = Blocked"
| "send_loop env (Suc fuel) beam (b # rest) block mutex sched =
     (case append_bucket env beam b rest block mutex sched of
        Blocked \<Rightarrow> Blocked
      | Crash \<Rightarrow> Crash
      | Ret (status, beam', rest', sched') \<Rightarrow>
          (if status = APR_SUCCESS then send_loop env fuel beam' rest' block mutex sched'
           else Ret (status, beam', rest')))"

definition h2_beam_send :: "apr_env \<Rightarrow> nat \<Rightarrow> h2_bucket_beam \<Rightarrow> apr_bucket_brigade option \<Rightarrow>
    apr_read_type_e \<Rightarrow> wake list \<Rightarrow>
    (apr_status_t \<times> h2_bucket_beam \<times> apr_bucket_brigade option) outcome" where
  "h2_beam_send env fuel beam red_brigade block sched =
     (case enter_yellow beam of
        (APR_SUCCESS, mutex) \<Rightarrow>
          (let beam1 = r_purge_sent beam;
               beam2 = (case red_brigade of
                          Some bb \<Rightarrow> beam_set_send_pool beam1 (Some (brigade_p bb))
                        | None \<Rightarrow> beam1)
           in if aborted beam2 then
                (case move_to_hold beam2 red_brigade of
                   (beam3, red') \<Rightarrow> Ret (APR_ECONNABORTED, report_consumption beam3 False, red'))
              else
                (case red_brigade of
                   Some bb \<Rightarrow>
                     (let force_report = (brigade_list bb \<noteq> [])
                      in case send_loop env fuel beam2 (brigade_list bb) block mutex sched of
                           Blocked \<Rightarrow> Blocked
                         | Crash \<Rightarrow> Crash
                         | Ret (status, beam3, rest) \<Rightarrow>
                             Ret (status,
                                  report_consumption (report_production beam3 force_report) False,
                                  Some (bb\<lparr>brigade_list := rest\<rparr>)))
                 | None \<Rightarrow> Ret (APR_SUCCESS, report_consumption beam2 False, None)))
      | (status, mutex) \<Rightarrow> Ret (APR_SUCCESS, beam, red_brigade))"

section \<open>Receive\<close>

text \<open>
  Buckets made for the consumer. Their addresses play no role and are left 0.
\<close>

definition green_bucket :: "bucket_type \<Rightarrow> apr_bucket" where
  "green_bucket t =
     \<lparr>bid = 0, btype = t, bstart = 0, blength = 0, bfd = 0, breadpool = 0, bproxy = 0, berr = 0\<rparr>"

text \<open>
  \<^verbatim>\<open>h2_beam_bucket_create\<close> with \<^verbatim>\<open>h2_beam_bucket_make\<close>: a proxy is allocated, linked
  at the tail of the ring and given one reference; the beam bucket covers the whole
  producer bucket.
\<close>

definition h2_beam_bucket_create :: "h2_bucket_beam \<Rightarrow> apr_bucket \<Rightarrow> apr_size_t \<Rightarrow>
    apr_bucket \<times> h2_bucket_beam" where
  "h2_beam_bucket_create beam r n =
     (let a = length (proxy_mem beam)
      in ((green_bucket BT_BEAM)\<lparr>blength := blength r, bproxy := a\<rparr>,
          beam\<lparr>proxy_mem := proxy_mem beam @
                  [\<lparr>refcount = 1, pbeam = True, bred = Some (bid r), pn = n\<rparr>],
               proxies := proxies beam @ [a]\<rparr>))"

text \<open>\<^verbatim>\<open>h2_beam_bucket\<close>: the first beamer that returns a bucket wins.\<close>

fun h2_beam_bucket :: "(apr_bucket \<Rightarrow> apr_bucket list) list \<Rightarrow> apr_bucket \<Rightarrow> apr_bucket list" where
  "h2_beam_bucket [] src = []"
| "h2_beam_bucket (beamer # rest) src =
     (if beamer src = [] then h2_beam_bucket rest src else beamer src)"

text \<open>The first loop of \<^verbatim>\<open>h2_beam_receive\<close>, over the receive buffer.\<close>

fun recv_buffer_loop :: "apr_off_t \<Rightarrow> apr_bucket list \<Rightarrow> apr_bucket list \<Rightarrow> apr_off_t \<Rightarrow> nat \<Rightarrow>
    apr_bucket list \<times> apr_bucket list \<times> apr_off_t \<times> nat" where
  "recv_buffer_loop readbytes [] bbl remain transferred = ([], bbl, remain, transferred)"
| "recv_buffer_loop readbytes (bgreen # gs) bbl remain transferred =
     (if readbytes \<le>s 0 \<or> 0 \<le>s remain then
        (if 0 <s readbytes \<and> blength bgreen > 0 \<and> remain \<le>s 0
         then (bgreen # gs, bbl, remain, transferred)
         else recv_buffer_loop readbytes gs (bbl @ [bgreen]) (remain - blength bgreen)
                (transferred + 1))
      else (bgreen # gs, bbl, remain, transferred))"

text \<open>
  The second loop, over the send list. A file bucket is re-homed and the loop
  continues; any other bucket gets its consumer-side bucket (none for metadata that is
  neither EOS, FLUSH nor ERROR), goes to hold and is counted in \<open>received_bytes\<close>.
\<close>

definition recv_file :: "apr_env \<Rightarrow> nat \<Rightarrow> h2_bucket_beam \<Rightarrow> apr_bucket \<Rightarrow> apr_bucket list \<Rightarrow>
    apr_bucket list \<Rightarrow> apr_off_t \<Rightarrow> nat \<Rightarrow>
    apr_status_t \<times> h2_bucket_beam \<times> apr_bucket list \<times> apr_off_t \<times> nat" where
  "recv_file env bbp beam r rest bbl remain transferred =
     (let setaside = (breadpool r \<noteq> bbp)
      in case (if setaside then apr_file_setaside env (bfd r) bbp else (APR_SUCCESS, bfd r)) of
           (status, fd) \<Rightarrow>
             (if status \<noteq> APR_SUCCESS then (status, beam, bbl, remain, transferred)
              else
                (let beam1 = (if setaside then beam\<lparr>files_beamed := files_beamed beam + 1\<rparr>
                              else beam);
                     ng = (green_bucket BT_FILE)
                            \<lparr>bstart := bstart r, blength := blength r, bfd := fd, breadpool := bbp\<rparr>
                 in (APR_SUCCESS,
                     beam1\<lparr>send_list := rest, hold_list := hold_list beam1 @ [r]\<rparr>,
                     bbl @ [ng], remain - blength r, transferred + 2))))"

text \<open>
  For an error bucket the source reads \<^verbatim>\<open>((ap_bucket_error *)bred)->status\<close>: it casts
  the bucket itself, not its \<^verbatim>\<open>data\<close>. An \<^verbatim>\<open>apr_bucket\<close> begins with the two pointers
  of its ring entry, an \<^verbatim>\<open>ap_bucket_error\<close> with the \<^verbatim>\<open>int\<close> of its reference count and
  then the \<^verbatim>\<open>int\<close> status. So what is read as the status (on a little-endian build) is
  the upper half of \<^verbatim>\<open>link.next\<close>, the address of the bucket after \<open>r\<close> in the send list
  or of the sentinel, and the status that the producer stored does not reach the
  consumer's bucket.
\<close>

definition error_cast_status :: "nat \<Rightarrow> int" where
  "error_cast_status next_addr = sint (ucast (drop_bit 32 (of_nat next_addr :: 64 word)) :: 32 word)"

definition link_next :: "apr_env \<Rightarrow> apr_bucket list \<Rightarrow> nat" where
  "link_next env rest = (case rest of [] \<Rightarrow> send_list_sentinel env | x # xs \<Rightarrow> bid x)"

definition recv_make_green :: "apr_env \<Rightarrow> h2_bucket_beam \<Rightarrow> apr_bucket \<Rightarrow> apr_bucket list \<Rightarrow>
    apr_bucket option \<times> h2_bucket_beam"
  where
  "recv_make_green env beam r rest =
     (if APR_BUCKET_IS_METADATA r then
        (if APR_BUCKET_IS_EOS r then (Some (green_bucket BT_EOS), beam\<lparr>close_sent := True\<rparr>)
         else if APR_BUCKET_IS_FLUSH r then (Some (green_bucket BT_FLUSH), beam)
         else if AP_BUCKET_IS_ERROR r then
           (Some ((green_bucket BT_ERROR)\<lparr>berr := error_cast_status (link_next env rest)\<rparr>),
            beam)
         else (None, beam))
      else
        (case h2_beam_bucket_create beam r (buckets_sent beam) of
           (g, beam1) \<Rightarrow> (Some g, beam1\<lparr>buckets_sent := buckets_sent beam + 1\<rparr>)))"

definition recv_place :: "apr_env \<Rightarrow> h2_bucket_beam \<Rightarrow> apr_bucket \<Rightarrow> apr_bucket list \<Rightarrow>
    apr_bucket list \<Rightarrow> apr_off_t \<Rightarrow> nat \<Rightarrow>
    h2_bucket_beam \<times> apr_bucket list \<times> apr_off_t \<times> nat" where
  "recv_place env beam r rest bbl remain transferred =
     (case recv_make_green env beam r rest of
        (bgreen, beam1) \<Rightarrow>
          (let beam2 = beam1\<lparr>send_list := rest, hold_list := hold_list beam1 @ [r],
                             received_bytes := received_bytes beam1 + blength r\<rparr>
           in case bgreen of
                Some g \<Rightarrow> (beam2, bbl @ [g], remain - blength g, transferred + 1)
              | None \<Rightarrow>
                  (let new = h2_beam_bucket (beamers env) r
                   in (beam2, bbl @ new, remain - sum_list (map blength new),
                       transferred + length new))))"

fun recv_send_loop :: "apr_env \<Rightarrow> nat \<Rightarrow> apr_off_t \<Rightarrow> apr_bucket list \<Rightarrow> h2_bucket_beam \<Rightarrow>
    apr_bucket list \<Rightarrow> apr_off_t \<Rightarrow> nat \<Rightarrow>
    apr_status_t \<times> h2_bucket_beam \<times> apr_bucket list \<times> apr_off_t \<times> nat" where
  "recv_send_loop env bbp readbytes [] beam bbl remain transferred =
     (APR_SUCCESS, beam, bbl, remain, transferred)"
| "recv_send_loop env bbp readbytes (r # rest) beam bbl remain transferred =
     (if readbytes \<le>s 0 \<or> 0 \<le>s remain then
        (if 0 <s readbytes \<and> blength r > 0 \<and> remain \<le>s 0
         then (APR_SUCCESS, beam, bbl, remain, transferred)
         else if \<not> APR_BUCKET_IS_METADATA r \<and> APR_BUCKET_IS_FILE r then
           (case recv_file env bbp beam r rest bbl remain transferred of
              (status, beam', bbl', remain', transferred') \<Rightarrow>
                (if status \<noteq> APR_SUCCESS then (status, beam', bbl', remain', transferred')
                 else recv_send_loop env bbp readbytes rest beam' bbl' remain' transferred'))
         else
           (case recv_place env beam r rest bbl remain transferred of
              (beam', bbl', remain', transferred') \<Rightarrow>
                recv_send_loop env bbp readbytes rest beam' bbl' remain' transferred'))
      else (APR_SUCCESS, beam, bbl, remain, transferred))"

text \<open>
  Putting back what is too much. \<open>find_overshoot\<close> is the loop over the destination:
  it stops at the bucket that takes \<open>remain\<close> below zero, or runs to the end.
\<close>

fun find_overshoot :: "apr_bucket list \<Rightarrow> apr_off_t \<Rightarrow>
    apr_off_t + apr_bucket list \<times> apr_bucket \<times> apr_bucket list \<times> apr_off_t" where
  "find_overshoot [] remain = Inl remain"
| "find_overshoot (g # gs) remain =
     (let r = remain - blength g
      in if r <s 0 then Inr ([], g, gs, r)
         else (case find_overshoot gs r of
                 Inl r' \<Rightarrow> Inl r'
               | Inr (pre, x, post, r') \<Rightarrow> Inr (g # pre, x, post, r')))"

text \<open>
  \<^verbatim>\<open>apr_bucket_split\<close> on a bucket of the destination. The beam bucket type splits
  with \<^verbatim>\<open>apr_bucket_shared_split\<close>: the tail shares the proxy, which gains a
  reference. The status is ignored by the caller.
\<close>

definition green_split :: "apr_env \<Rightarrow> h2_bucket_beam \<Rightarrow> apr_bucket \<Rightarrow> apr_size_t \<Rightarrow>
    (apr_bucket \<times> apr_bucket list \<times> h2_bucket_beam) outcome" where
  "green_split env beam g point =
     (if btype g = BT_BEAM then
        (if point > blength g then Ret (g, [], beam)
         else
           (case proxy_at beam (bproxy g) of
              None \<Rightarrow> Crash
            | Some d \<Rightarrow>
                Ret (g\<lparr>blength := point\<rparr>,
                     [g\<lparr>bstart := bstart g + point, blength := blength g - point\<rparr>],
                     proxy_store beam (bproxy g) (d\<lparr>refcount := refcount d + 1\<rparr>))))
      else
        (case apr_bucket_split env g point of (status, h, ins) \<Rightarrow> Ret (h, ins, beam)))"

text \<open>
  \<^verbatim>\<open>apr_brigade_split_ex\<close> into the receive buffer: a buffer that still has buckets is
  cleaned up first, then it takes the tail.
\<close>

definition recv_put_back :: "apr_env \<Rightarrow> h2_bucket_beam \<Rightarrow> apr_off_t \<Rightarrow> apr_bucket list \<Rightarrow>
    apr_off_t \<Rightarrow> (h2_bucket_beam \<times> apr_bucket list \<times> apr_off_t) outcome" where
  "recv_put_back env beam readbytes bbl remain =
     (if 0 <s readbytes \<and> remain <s 0 then
        (case find_overshoot bbl readbytes of
           Inl r \<Rightarrow> Ret (beam, bbl, r)
         | Inr (pre, g, post, r) \<Rightarrow>
             (case green_split env beam g (blength g + r) of
                Blocked \<Rightarrow> Blocked
              | Crash \<Rightarrow> Crash
              | Ret (g', ins, beam1) \<Rightarrow>
                  (case (case recv_buffer beam1 of
                           Some old \<Rightarrow> (if old \<noteq> [] then brigade_cleanup beam1 old else Ret beam1)
                         | None \<Rightarrow> Ret beam1) of
                     Blocked \<Rightarrow> Blocked
                   | Crash \<Rightarrow> Crash
                   | Ret beam2 \<Rightarrow>
                       Ret (beam2\<lparr>recv_buffer := Some (ins @ post)\<rparr>, pre @ [g'], r))))
      else Ret (beam, bbl, remain))"

text \<open>The closing step: the end-of-stream bucket that no producer bucket stands for.\<close>

definition recv_close_step :: "h2_bucket_beam \<Rightarrow> apr_bucket list \<Rightarrow> nat \<Rightarrow>
    h2_bucket_beam \<times> apr_bucket list \<times> nat" where
  "recv_close_step beam bbl transferred =
     (if closed beam \<and> (recv_buffer beam = None \<or> recv_buffer beam = Some [])
         \<and> send_list beam = [] then
        (if \<not> close_sent beam then
           (beam\<lparr>close_sent := True, close_eos_made := close_eos_made beam + 1\<rparr>,
            bbl @ [green_bucket BT_EOS], transferred + 1)
         else (beam, bbl, transferred))
      else (beam, bbl, transferred))"

text \<open>
  One pass from the label \<^verbatim>\<open>transfer\<close> to the point where the call leaves or waits.
  The status is \<open>None\<close> where the source waits on the condition.
\<close>

definition recv_pass :: "apr_env \<Rightarrow> h2_bucket_beam \<Rightarrow> apr_bucket_brigade \<Rightarrow> apr_read_type_e \<Rightarrow>
    apr_off_t \<Rightarrow> apr_off_t \<Rightarrow> nat \<Rightarrow> bool \<Rightarrow>
    (apr_status_t option \<times> h2_bucket_beam \<times> apr_bucket_brigade \<times> apr_off_t \<times> nat) outcome" where
  "recv_pass env beam bb block readbytes remain transferred mutex =
     (if aborted beam then
        (case (case recv_buffer beam of
                 Some gs \<Rightarrow>
                   (if gs \<noteq> [] then
                      (case brigade_cleanup beam gs of
                         Ret beam' \<Rightarrow> Ret (beam'\<lparr>recv_buffer := Some []\<rparr>)
                       | Blocked \<Rightarrow> Blocked
                       | Crash \<Rightarrow> Crash)
                    else Ret beam)
               | None \<Rightarrow> Ret beam) of
           Blocked \<Rightarrow> Blocked
         | Crash \<Rightarrow> Crash
         | Ret beam' \<Rightarrow> Ret (Some APR_ECONNABORTED, beam', bb, remain, transferred))
      else
        (let beam1 = beam_set_recv_pool beam (Some (brigade_p bb))
         in case (case recv_buffer beam1 of
                    Some gs \<Rightarrow>
                      (case recv_buffer_loop readbytes gs (brigade_list bb) remain transferred of
                         (gs', bbl, remain', transferred') \<Rightarrow>
                           (beam1\<lparr>recv_buffer := Some gs'\<rparr>, bbl, remain', transferred'))
                  | None \<Rightarrow> (beam1, brigade_list bb, remain, transferred)) of
              (beam2, bbl2, remain2, transferred2) \<Rightarrow>
                (case recv_send_loop env (brigade_p bb) readbytes (send_list beam2) beam2 bbl2
                        remain2 transferred2 of
                   (status, beam3, bbl3, remain3, transferred3) \<Rightarrow>
                     (if status \<noteq> APR_SUCCESS then
                        Ret (Some status, beam3, bb\<lparr>brigade_list := bbl3\<rparr>, remain3, transferred3)
                      else
                        (case recv_put_back env beam3 readbytes bbl3 remain3 of
                           Blocked \<Rightarrow> Blocked
                         | Crash \<Rightarrow> Crash
                         | Ret (beam4, bbl4, remain4) \<Rightarrow>
                             (case recv_close_step beam4 bbl4 transferred3 of
                                (beam5, bbl5, transferred5) \<Rightarrow>
                                  (let bb5 = bb\<lparr>brigade_list := bbl5\<rparr>
                                   in if transferred5 \<noteq> 0 then
                                        Ret (Some APR_SUCCESS, beam5, bb5, remain4, transferred5)
                                      else if closed beam5 then
                                        Ret (Some APR_EOF, beam5, bb5, remain4, transferred5)
                                      else if block = APR_BLOCK_READ \<and> mutex \<and> m_cond beam5 then
                                        Ret (None, beam5, bb5, remain4, transferred5)
                                      else
                                        Ret (Some APR_EAGAIN, beam5, bb5, remain4, transferred5))))))))"

function recv_transfer :: "apr_env \<Rightarrow> h2_bucket_beam \<Rightarrow> apr_bucket_brigade \<Rightarrow> apr_read_type_e \<Rightarrow>
    apr_off_t \<Rightarrow> apr_off_t \<Rightarrow> nat \<Rightarrow> bool \<Rightarrow> wake list \<Rightarrow>
    (apr_status_t \<times> h2_bucket_beam \<times> apr_bucket_brigade) outcome" where
  "recv_transfer env beam bb block readbytes remain transferred mutex sched =
     (case recv_pass env beam bb block readbytes remain transferred mutex of
        Blocked \<Rightarrow> Blocked
      | Crash \<Rightarrow> Crash
      | Ret (Some status, beam', bb', remain', transferred') \<Rightarrow> Ret (status, beam', bb')
      | Ret (None, beam', bb', remain', transferred') \<Rightarrow>
          (case wait_cond beam' sched of
             Blocked \<Rightarrow> Blocked
           | Crash \<Rightarrow> Crash
           | Ret (status, beam2, sched') \<Rightarrow>
               (if status \<noteq> APR_SUCCESS then Ret (status, beam2, bb')
                else recv_transfer env beam2 bb' block readbytes remain' transferred' mutex
                       sched')))"
  by pat_completeness auto

termination
  by (relation "measure (\<lambda>(env, beam, bb, block, readbytes, remain, transferred, mutex, sched).
                           length sched)")
     (auto dest: wait_cond_shorter)

definition h2_beam_receive :: "apr_env \<Rightarrow> h2_bucket_beam \<Rightarrow> apr_bucket_brigade \<Rightarrow>
    apr_read_type_e \<Rightarrow> apr_off_t \<Rightarrow> wake list \<Rightarrow>
    (apr_status_t \<times> h2_bucket_beam \<times> apr_bucket_brigade) outcome" where
  "h2_beam_receive env beam bb block readbytes sched =
     (case enter_yellow beam of
        (APR_SUCCESS, mutex) \<Rightarrow> recv_transfer env beam bb block readbytes readbytes 0 mutex sched
      | (status, mutex) \<Rightarrow> Ret (APR_SUCCESS, beam, bb))"

section \<open>Concrete objects for evaluation\<close>

text \<open>
  An instance of the APR primitives with which concrete runs are evaluated: reads
  succeed and give as many zero bytes as the bucket is long, setting aside succeeds
  and turns a transient bucket into a heap bucket, a split inside the bucket
  succeeds, no beamer is registered, and \<^verbatim>\<open>APR_BUCKET_BUFF_SIZE\<close> is 8000.
\<close>

definition plain_env :: apr_env where
  "plain_env =
     \<lparr>apr_bucket_read = (\<lambda>b. (APR_SUCCESS, replicate (unat (blength b)) 0, b, [])),
      apr_bucket_setaside =
        (\<lambda>b pool. (APR_SUCCESS, if btype b = BT_TRANSIENT then b\<lparr>btype := BT_HEAP\<rparr> else b)),
      apr_bucket_split =
        (\<lambda>b n. if n > blength b then (APR_EOTHER 22, b, [])
               else (APR_SUCCESS, b\<lparr>blength := n\<rparr>,
                     [b\<lparr>bid := bid b + 1000, bstart := bstart b + n, blength := blength b - n\<rparr>])),
      apr_file_setaside = (\<lambda>fd pool. (APR_SUCCESS, fd)),
      beamers = [],
      APR_BUCKET_BUFF_SIZE = 8000,
      send_list_sentinel = 4096\<rparr>"

definition red_bucket :: "nat \<Rightarrow> bucket_type \<Rightarrow> apr_size_t \<Rightarrow> apr_bucket" where
  "red_bucket a t len =
     \<lparr>bid = a, btype = t, bstart = 0, blength = len, bfd = 0, breadpool = 0, bproxy = 0,
      berr = 0\<rparr>"

definition brigade :: "nat \<Rightarrow> apr_bucket list \<Rightarrow> apr_bucket_brigade" where
  "brigade pool bs = \<lparr>brigade_p = pool, brigade_list = bs\<rparr>"

text \<open>A beam whose lock hook takes a mutex and that has a condition variable.\<close>

definition locked_beam :: "h2_beam_owner_t \<Rightarrow> apr_size_t \<Rightarrow> h2_bucket_beam" where
  "locked_beam own max_size =
     h2_beam_mutex_set (h2_beam_create 0 own max_size) (Some (APR_SUCCESS, True)) True True"

text \<open>
  A beam under a mutex with hold = data 1, flush 2, data 3, data 4 and one proxy each
  for the three data buckets: the state after the four buckets were sent and a
  receive without limit took them all (\<open>hold_beam_reached\<close> below).
\<close>

definition hold_beam :: h2_bucket_beam where
  "hold_beam =
     (locked_beam H2_BEAM_OWNER_SEND 0)
        \<lparr>hold_list := [red_bucket 1 BT_HEAP 5, red_bucket 2 BT_FLUSH 0,
                       red_bucket 3 BT_HEAP 7, red_bucket 4 BT_HEAP 2],
         proxies := [0, 1, 2],
         proxy_mem := [\<lparr>refcount = 1, pbeam = True, bred = Some 1, pn = 0\<rparr>,
                       \<lparr>refcount = 1, pbeam = True, bred = Some 3, pn = 1\<rparr>,
                       \<lparr>refcount = 1, pbeam = True, bred = Some 4, pn = 2\<rparr>],
         buckets_sent := 3,
         sent_bytes := 14,
         reported_produced_bytes := 14,
         received_bytes := 14,
         recv_pool := Some 7\<rparr>"

text \<open>
  A proxy address is \<open>ring_or_null\<close> when it is allocated and either linked in the
  beam's ring or without a producer bucket pointer.
\<close>

definition ring_or_null :: "nat \<Rightarrow> h2_bucket_beam \<Rightarrow> bool" where
  "ring_or_null p b =
     (p < length (proxy_mem b) \<and> (p \<in> set (proxies b) \<or> bred (proxy_mem b ! p) = None))"

text \<open>The primitives of \<open>plain_env\<close> with a read that gives the bytes 10 to 16.\<close>

definition window_env :: apr_env where
  "window_env =
     plain_env\<lparr>apr_bucket_read := (\<lambda>b. (APR_SUCCESS, [10, 11, 12, 13, 14, 15, 16], b, []))\<rparr>"

text \<open>
  Two beams are observably equal when they are equal, or both are aborted and differ
  at most in \<open>closed\<close> and in the purge list. Once a beam is aborted, no call reads
  \<open>closed\<close> before it leaves (send and receive test \<open>aborted\<close> first), and the purge
  list is memory waiting to be freed that no public function reports.
\<close>

definition observably_equal :: "h2_bucket_beam \<Rightarrow> h2_bucket_beam \<Rightarrow> bool" where
  "observably_equal x y =
     (x = y \<or> (aborted x \<and> aborted y
               \<and> x\<lparr>closed := True, purge_list := []\<rparr> = y\<lparr>closed := True, purge_list := []\<rparr>))"

text \<open>
  A schedule keeps a property of the beam when every change the other thread makes
  during a wait keeps it.
\<close>

definition sched_keeps :: "(h2_bucket_beam \<Rightarrow> bool) \<Rightarrow> wake list \<Rightarrow> bool" where
  "sched_keeps P sched =
     (\<forall>w \<in> set sched. case w of Elapse \<Rightarrow> True | Signal f \<Rightarrow> (\<forall>b. P b \<longrightarrow> P (f b)))"

text \<open>
  The first stage of a pass of receive on a beam that is not aborted, as \<open>recv_pass\<close>
  has it: the receive pool is bound and the receive buffer drained.
\<close>

definition recv_stage1 :: "h2_bucket_beam \<Rightarrow> apr_bucket_brigade \<Rightarrow> apr_off_t \<Rightarrow> apr_off_t \<Rightarrow> nat \<Rightarrow>
    h2_bucket_beam \<times> apr_bucket list \<times> apr_off_t \<times> nat" where
  "recv_stage1 beam bb readbytes remain transferred =
     (let beam1 = beam_set_recv_pool beam (Some (brigade_p bb))
      in case recv_buffer beam1 of
           Some gs \<Rightarrow>
             (case recv_buffer_loop readbytes gs (brigade_list bb) remain transferred of
                (gs', bbl, remain', transferred') \<Rightarrow>
                  (beam1\<lparr>recv_buffer := Some gs'\<rparr>, bbl, remain', transferred'))
         | None \<Rightarrow> (beam1, brigade_list bb, remain, transferred))"

text \<open>
  A beam owned by the receiving side, without a mutex, to which a file bucket of 100
  bytes and an end-of-stream bucket have been sent from a brigade of pool 1
  (\<open>file_beam_reached\<close> below).
\<close>

definition file_beam :: h2_bucket_beam where
  "file_beam =
     (h2_beam_create 0 H2_BEAM_OWNER_RECV 0)
       \<lparr>send_list := [red_bucket 1 BT_FILE 100, red_bucket 2 BT_EOS 0],
        send_pool := Some 1,
        sent_bytes := 100,
        reported_produced_bytes := 100,
        last_beamed := Some 0,
        closed := True\<rparr>"

text \<open>
  A beam under a mutex to which one heap bucket of 5 bytes has been sent and from
  which nothing has been received yet (\<open>pending_beam_reached\<close> below).
\<close>

definition pending_beam :: h2_bucket_beam where
  "pending_beam =
     (locked_beam H2_BEAM_OWNER_SEND 0)
       \<lparr>send_list := [red_bucket 1 BT_HEAP 5],
        sent_bytes := 5,
        reported_produced_bytes := 5\<rparr>"

text \<open>
  A beam under a mutex with a timeout and a buffer of 4 bytes that is full: a heap
  bucket of 4 bytes waits in the send list, and a bucket of 2 bytes has been received
  through a proxy since the last report of consumption. It is the state after
  sending 2 bytes, sending 4 bytes and receiving with \<^verbatim>\<open>readbytes\<close> 2
  (\<open>full_beam_reached\<close> below).
\<close>

definition full_beam :: h2_bucket_beam where
  "full_beam =
     (locked_beam H2_BEAM_OWNER_SEND 4)
       \<lparr>timeout := 1000,
        send_list := [red_bucket 2 BT_HEAP 4],
        hold_list := [red_bucket 1 BT_HEAP 2],
        proxies := [0],
        proxy_mem := [\<lparr>refcount = 1, pbeam = True, bred = Some 1, pn = 0\<rparr>],
        buckets_sent := 1,
        sent_bytes := 6,
        reported_produced_bytes := 6,
        received_bytes := 2,
        recv_pool := Some 7\<rparr>"

text \<open>An empty beam under a mutex with a timeout (\<open>timed_beam_reached\<close> below).\<close>

definition timed_beam :: h2_bucket_beam where
  "timed_beam = (locked_beam H2_BEAM_OWNER_SEND 0)\<lparr>timeout := 1000\<rparr>"

text \<open>
  The bookkeeping of proxies is sound when every proxy with a producer bucket pointer
  points to a data bucket in hold and no two proxies point to the same bucket; the
  beam buckets of a brigade are allocated when their proxies are in memory.
\<close>

definition proxies_sound :: "h2_bucket_beam \<Rightarrow> bool" where
  "proxies_sound b =
     (\<forall>i < length (proxy_mem b). \<forall>a. bred (proxy_mem b ! i) = Some a \<longrightarrow>
        (\<exists>x \<in> set (hold_list b). bid x = a \<and> \<not> APR_BUCKET_IS_METADATA x)
        \<and> (\<forall>j < length (proxy_mem b). j \<noteq> i \<longrightarrow> bred (proxy_mem b ! j) \<noteq> Some a))"

definition buckets_allocated :: "h2_bucket_beam \<Rightarrow> apr_bucket list \<Rightarrow> bool" where
  "buckets_allocated b gs =
     (\<forall>g \<in> set gs. btype g = BT_BEAM \<longrightarrow> bproxy g < length (proxy_mem b))"

text \<open>
  The same four buckets sent, and a receive of 8 bytes: data 1, the flush and the
  first 3 bytes of data 3 went to the consumer, bytes 3 to 6 of data 3 are left over
  in the receive buffer (the proxy of data 3 has two references), and data 4 is still
  in the send list (\<open>buffered_beam_reached\<close> below).
\<close>

definition buffered_beam :: h2_bucket_beam where
  "buffered_beam =
     (locked_beam H2_BEAM_OWNER_SEND 0)
        \<lparr>send_list := [red_bucket 4 BT_HEAP 2],
         hold_list := [red_bucket 1 BT_HEAP 5, red_bucket 2 BT_FLUSH 0,
                       red_bucket 3 BT_HEAP 7],
         recv_buffer :=
           Some [(green_bucket BT_BEAM)\<lparr>bstart := 3, blength := 4, bproxy := 1\<rparr>],
         proxies := [0, 1],
         proxy_mem := [\<lparr>refcount = 1, pbeam = True, bred = Some 1, pn = 0\<rparr>,
                       \<lparr>refcount = 2, pbeam = True, bred = Some 3, pn = 1\<rparr>],
         buckets_sent := 2,
         sent_bytes := 14,
         reported_produced_bytes := 14,
         received_bytes := 12,
         recv_pool := Some 7\<rparr>"

section \<open>Sequences of operations\<close>

text \<open>
  The calls that the two sides and the pools make on a beam. A blocking call carries the
  schedule of what happens while it waits, a send also the bound on its loop.
  \<open>Op_bucket_destroy\<close> is the consumer destroying a beam bucket of the proxy at the
  address, \<open>Op_bucket_share\<close> the consumer splitting or copying one
  (\<^verbatim>\<open>apr_bucket_shared_split\<close>, \<^verbatim>\<open>apr_bucket_shared_copy\<close>: one more reference).
  \<open>Op_send_pool_cleanup\<close> and \<open>Op_recv_pool_cleanup\<close> are the pre-cleanups of the
  monitored pools, which run only when registered.
\<close>

datatype beam_op =
    Op_send "apr_bucket_brigade option" apr_read_type_e nat "wake list"
  | Op_receive apr_bucket_brigade apr_read_type_e apr_off_t "wake list"
  | Op_close
  | Op_abort
  | Op_destroy
  | Op_wait_empty apr_read_type_e "wake list"
  | Op_bucket_destroy nat
  | Op_bucket_share nat
  | Op_buffer_size_set apr_size_t
  | Op_timeout_set apr_interval_time_t
  | Op_mutex_set "(apr_status_t \<times> bool) option" bool bool
  | Op_on_consumed bool
  | Op_on_produced bool
  | Op_on_file_beam "(nat \<Rightarrow> bool) option"
  | Op_send_pool_cleanup
  | Op_recv_pool_cleanup

fun apply_op :: "apr_env \<Rightarrow> h2_bucket_beam \<Rightarrow> beam_op \<Rightarrow> h2_bucket_beam outcome" where
  "apply_op env beam (Op_send red block fuel sched) =
     (case h2_beam_send env fuel beam red block sched of
        Ret (status, beam', red') \<Rightarrow> Ret beam' | Blocked \<Rightarrow> Blocked | Crash \<Rightarrow> Crash)"
| "apply_op env beam (Op_receive bb block readbytes sched) =
     (case h2_beam_receive env beam bb block readbytes sched of
        Ret (status, beam', bb') \<Rightarrow> Ret beam' | Blocked \<Rightarrow> Blocked | Crash \<Rightarrow> Crash)"
| "apply_op env beam Op_close = Ret (snd (h2_beam_close beam))"
| "apply_op env beam Op_abort = Ret (h2_beam_abort beam)"
| "apply_op env beam Op_destroy =
     (case h2_beam_destroy beam of
        Ret (status, beam') \<Rightarrow> Ret beam' | Blocked \<Rightarrow> Blocked | Crash \<Rightarrow> Crash)"
| "apply_op env beam (Op_wait_empty block sched) =
     (case h2_beam_wait_empty beam block sched of
        Ret (status, beam') \<Rightarrow> Ret beam' | Blocked \<Rightarrow> Blocked | Crash \<Rightarrow> Crash)"
| "apply_op env beam (Op_bucket_destroy a) = beam_bucket_destroy beam a"
| "apply_op env beam (Op_bucket_share a) =
     (case proxy_at beam a of
        None \<Rightarrow> Crash
      | Some d \<Rightarrow> Ret (proxy_store beam a (d\<lparr>refcount := refcount d + 1\<rparr>)))"
| "apply_op env beam (Op_buffer_size_set n) = Ret (h2_beam_buffer_size_set beam n)"
| "apply_op env beam (Op_timeout_set t) = Ret (h2_beam_timeout_set beam t)"
| "apply_op env beam (Op_mutex_set enter cond ctx) = Ret (h2_beam_mutex_set beam enter cond ctx)"
| "apply_op env beam (Op_on_consumed cb) = Ret (h2_beam_on_consumed beam cb)"
| "apply_op env beam (Op_on_produced cb) = Ret (h2_beam_on_produced beam cb)"
| "apply_op env beam (Op_on_file_beam cb) = Ret (h2_beam_on_file_beam beam cb)"
| "apply_op env beam Op_send_pool_cleanup =
     Ret (if owner beam = H2_BEAM_OWNER_RECV \<and> send_pool beam \<noteq> None
          then beam_send_cleanup beam else beam)"
| "apply_op env beam Op_recv_pool_cleanup =
     Ret (if owner beam = H2_BEAM_OWNER_SEND \<and> recv_pool beam \<noteq> None
          then beam_recv_cleanup beam else beam)"

fun run_ops :: "apr_env \<Rightarrow> h2_bucket_beam \<Rightarrow> beam_op list \<Rightarrow> h2_bucket_beam outcome" where
  "run_ops env beam [] = Ret beam"
| "run_ops env beam (x # xs) =
     (case apply_op env beam x of
        Ret beam' \<Rightarrow> run_ops env beam' xs | Blocked \<Rightarrow> Blocked | Crash \<Rightarrow> Crash)"

text \<open>The schedule of an operation, empty for one that does not wait.\<close>

fun op_sched :: "beam_op \<Rightarrow> wake list" where
  "op_sched (Op_send red block fuel sched) = sched"
| "op_sched (Op_receive bb block readbytes sched) = sched"
| "op_sched (Op_wait_empty block sched) = sched"
| "op_sched x = []"

text \<open>
  The accounting of the two io callbacks: both are installed, and the deltas handed
  to each add up to the reported counter.
\<close>

definition accounted :: "h2_bucket_beam \<Rightarrow> bool" where
  "accounted b =
     (consumed_fn b \<and> produced_fn b
      \<and> sum_list (consumed_calls b) = reported_consumed_bytes b
      \<and> sum_list (produced_calls b) = reported_produced_bytes b)"

text \<open>An operation that takes one of the two io callbacks away.\<close>

fun uninstalls :: "beam_op \<Rightarrow> bool" where
  "uninstalls (Op_on_consumed cb) = (\<not> cb)"
| "uninstalls (Op_on_produced cb) = (\<not> cb)"
| "uninstalls x = False"

section \<open>Frames\<close>

text \<open>
  What the consumer side may change: \<open>recv_frame b b'\<close> says that \<open>b'\<close> is \<open>b\<close> but for
  the queues, the receive buffer and pool, the proxies, and the counters and flags that
  receive writes.
\<close>

definition recv_frame :: "h2_bucket_beam \<Rightarrow> h2_bucket_beam \<Rightarrow> bool" where
  "recv_frame b b' =
     (b' = b\<lparr>send_list := send_list b', hold_list := hold_list b', purge_list := purge_list b',
             recv_buffer := recv_buffer b', proxies := proxies b', recv_pool := recv_pool b',
             received_bytes := received_bytes b', buckets_sent := buckets_sent b',
             files_beamed := files_beamed b', close_sent := close_sent b',
             proxy_mem := proxy_mem b', close_eos_made := close_eos_made b'\<rparr>)"

text \<open>
  What the producer side may change on the way through \<^verbatim>\<open>append_bucket\<close>; \<open>closed\<close>
  is only ever set.
\<close>

definition send_frame :: "h2_bucket_beam \<Rightarrow> h2_bucket_beam \<Rightarrow> bool" where
  "send_frame b b' =
     ((closed b \<longrightarrow> closed b')
      \<and> b' = b\<lparr>send_list := send_list b', sent_bytes := sent_bytes b',
                last_beamed := last_beamed b', closed := closed b',
                purge_list := purge_list b', send_pool := send_pool b'\<rparr>)"

section \<open>End-of-stream markers\<close>

text \<open>
  What receive does to the three fields that concern the end of the stream, short of
  making the closing marker: the count of closing markers and \<open>closed\<close> stay,
  \<open>close_sent\<close> is only ever set.
\<close>

definition marks_kept :: "h2_bucket_beam \<Rightarrow> h2_bucket_beam \<Rightarrow> bool" where
  "marks_kept b b' =
     (close_eos_made b' = close_eos_made b \<and> closed b' = closed b
      \<and> (close_sent b \<longrightarrow> close_sent b'))"

text \<open>
  The closing marker, the end-of-stream bucket that \<^verbatim>\<open>h2_beam_receive\<close> makes itself,
  has been made not at all, or once on a beam that is closed and has \<open>close_sent\<close> set.
\<close>

definition eos_inv :: "h2_bucket_beam \<Rightarrow> bool" where
  "eos_inv b = (close_eos_made b = 0 \<or> (close_eos_made b = 1 \<and> close_sent b \<and> closed b))"

text \<open>
  The number of end-of-stream buckets that the receive calls of a sequence of
  operations add to the consumer's brigades.
\<close>

definition eos_count :: "apr_bucket list \<Rightarrow> nat" where
  "eos_count bs = length (filter APR_BUCKET_IS_EOS bs)"

fun eos_delivered :: "apr_env \<Rightarrow> h2_bucket_beam \<Rightarrow> beam_op list \<Rightarrow> nat outcome" where
  "eos_delivered env beam [] = Ret 0"
| "eos_delivered env beam (Op_receive bb block readbytes sched # xs) =
     (case h2_beam_receive env beam bb block readbytes sched of
        Ret (status, beam', bb') \<Rightarrow>
          map_outcome ((+) (eos_count (brigade_list bb') - eos_count (brigade_list bb)))
            (eos_delivered env beam' xs)
      | Blocked \<Rightarrow> Blocked
      | Crash \<Rightarrow> Crash)"
| "eos_delivered env beam (x # xs) =
     (case apply_op env beam x of
        Ret beam' \<Rightarrow> eos_delivered env beam' xs | Blocked \<Rightarrow> Blocked | Crash \<Rightarrow> Crash)"

section \<open>Consumption reported on abort\<close>

text \<open>
  On an aborted beam the consumption has been reported: abort reports when it sets
  the flag, and no receive counts bytes on an aborted beam.
\<close>

definition abort_reported :: "h2_bucket_beam \<Rightarrow> bool" where
  "abort_reported b = (aborted b \<longrightarrow> received_bytes b = reported_consumed_bytes b)"

section \<open>The passes and the waits of a call\<close>

text \<open>
  The passes of a call of \<^verbatim>\<open>h2_beam_receive\<close>, in order, as the recursion of
  \<open>recv_transfer\<close> makes them. For each pass from the label \<^verbatim>\<open>transfer\<close>: the beam at
  its start, the status it leaves with (\<open>None\<close> when it goes on to wait on the
  condition), the beam and the consumer's brigade at its end, and the schedule at
  that point, on which the wait, if any, is made.
\<close>

record pass_log =
  p_before :: h2_bucket_beam
  p_status :: "apr_status_t option"
  p_after :: h2_bucket_beam
  p_brigade :: apr_bucket_brigade
  p_sched :: "wake list"

function recv_passes :: "apr_env \<Rightarrow> h2_bucket_beam \<Rightarrow> apr_bucket_brigade \<Rightarrow> apr_read_type_e \<Rightarrow>
    apr_off_t \<Rightarrow> apr_off_t \<Rightarrow> nat \<Rightarrow> bool \<Rightarrow> wake list \<Rightarrow> pass_log list" where
  "recv_passes env beam bb block readbytes remain transferred mutex sched =
     (case recv_pass env beam bb block readbytes remain transferred mutex of
        Blocked \<Rightarrow> []
      | Crash \<Rightarrow> []
      | Ret (Some status, beam', bb', remain', transferred') \<Rightarrow>
          [\<lparr>p_before = beam, p_status = Some status, p_after = beam', p_brigade = bb',
            p_sched = sched\<rparr>]
      | Ret (None, beam', bb', remain', transferred') \<Rightarrow>
          \<lparr>p_before = beam, p_status = None, p_after = beam', p_brigade = bb',
           p_sched = sched\<rparr> #
          (case wait_cond beam' sched of
             Blocked \<Rightarrow> []
           | Crash \<Rightarrow> []
           | Ret (status, beam2, sched') \<Rightarrow>
               (if status \<noteq> APR_SUCCESS then []
                else recv_passes env beam2 bb' block readbytes remain' transferred' mutex
                       sched')))"
  by pat_completeness auto

termination
  by (relation "measure (\<lambda>(env, beam, bb, block, readbytes, remain, transferred, mutex, sched).
                           length sched)")
     (auto dest: wait_cond_shorter)

declare recv_passes.simps [simp del]

definition h2_beam_receive_passes :: "apr_env \<Rightarrow> h2_bucket_beam \<Rightarrow> apr_bucket_brigade \<Rightarrow>
    apr_read_type_e \<Rightarrow> apr_off_t \<Rightarrow> wake list \<Rightarrow> pass_log list" where
  "h2_beam_receive_passes env beam bb block readbytes sched =
     (case enter_yellow beam of
        (APR_SUCCESS, mutex) \<Rightarrow> recv_passes env beam bb block readbytes readbytes 0 mutex sched
      | (status, mutex) \<Rightarrow> [])"

text \<open>
  The buckets that a pass took from the head of the send list, read off the send
  list before and after; and the bytes that receive counts for them: the length of
  every bucket but a file bucket.
\<close>

definition taken_from_send :: "h2_bucket_beam \<Rightarrow> h2_bucket_beam \<Rightarrow> apr_bucket list" where
  "taken_from_send b b' = take (length (send_list b) - length (send_list b')) (send_list b)"

definition counted_bytes :: "apr_bucket list \<Rightarrow> apr_off_t" where
  "counted_bytes bs = sum_list (map blength (filter (\<lambda>r. btype r \<noteq> BT_FILE) bs))"

definition recv_buffered :: "h2_bucket_beam \<Rightarrow> apr_bucket list" where
  "recv_buffered b = (case recv_buffer b of None \<Rightarrow> [] | Some gs \<Rightarrow> gs)"

text \<open>
  The waits of a call of \<^verbatim>\<open>h2_beam_send\<close>, in order: for each call of \<^verbatim>\<open>wait_cond\<close> in
  \<^verbatim>\<open>r_wait_space\<close> the beam on which it waits (the report of production has just been
  made) and the schedule at that point. The four functions follow the four levels
  of the source: the loop of \<^verbatim>\<open>r_wait_space\<close>, \<^verbatim>\<open>append_bucket\<close>, the loop over the
  brigade, and \<^verbatim>\<open>h2_beam_send\<close>.
\<close>

function r_wait_space_waits :: "h2_bucket_beam \<Rightarrow> apr_size_t \<Rightarrow> apr_read_type_e \<Rightarrow> bool \<Rightarrow>
    wake list \<Rightarrow> (h2_bucket_beam \<times> wake list) list" where
  "r_wait_space_waits beam premain block mutex sched =
     (if \<not> aborted beam \<and> premain \<le> 0 \<and> block = APR_BLOCK_READ \<and> mutex then
        (let beam1 = report_production beam True
         in (beam1, sched) #
            (case wait_cond beam1 sched of
               Blocked \<Rightarrow> []
             | Crash \<Rightarrow> []
             | Ret (status, beam2, sched') \<Rightarrow>
                 (if status = APR_TIMEUP then []
                  else
                    (let beam3 = r_purge_sent beam2
                     in r_wait_space_waits beam3 (calc_space_left beam3) block mutex sched'))))
      else [])"
  by pat_completeness auto

termination
  by (relation "measure (\<lambda>(beam, premain, block, mutex, sched). length sched)")
     (auto dest: wait_cond_shorter)

declare r_wait_space_waits.simps [simp del]

definition append_bucket_waits :: "apr_env \<Rightarrow> h2_bucket_beam \<Rightarrow> apr_bucket \<Rightarrow> apr_read_type_e \<Rightarrow>
    bool \<Rightarrow> wake list \<Rightarrow> (h2_bucket_beam \<times> wake list) list" where
  "append_bucket_waits env beam b block mutex sched =
     (if APR_BUCKET_IS_METADATA b \<or> APR_BUCKET_IS_FILE b then []
      else
        (let space_left = calc_space_left beam
         in case (if space_left > 0 \<and> blength b = - 1 then apr_bucket_read env b
                  else (APR_SUCCESS, [], b, [])) of
              (status, data, b1, ins) \<Rightarrow>
                (if status = APR_SUCCESS \<and> space_left < blength b1
                 then r_wait_space_waits beam (calc_space_left beam) block mutex sched
                 else [])))"

fun send_loop_waits :: "apr_env \<Rightarrow> nat \<Rightarrow> h2_bucket_beam \<Rightarrow> apr_bucket list \<Rightarrow> apr_read_type_e \<Rightarrow>
    bool \<Rightarrow> wake list \<Rightarrow> (h2_bucket_beam \<times> wake list) list" where
  "send_loop_waits env fuel beam [] block mutex sched = []"
| "send_loop_waits env 0 beam (b # rest) block mutex sched = []"
| "send_loop_waits env (Suc fuel) beam (b # rest) block mutex sched =
     append_bucket_waits env beam b block mutex sched @
     (case append_bucket env beam b rest block mutex sched of
        Blocked \<Rightarrow> []
      | Crash \<Rightarrow> []
      | Ret (status, beam', rest', sched') \<Rightarrow>
          (if status = APR_SUCCESS then send_loop_waits env fuel beam' rest' block mutex sched'
           else []))"

definition h2_beam_send_waits :: "apr_env \<Rightarrow> nat \<Rightarrow> h2_bucket_beam \<Rightarrow> apr_bucket_brigade option \<Rightarrow>
    apr_read_type_e \<Rightarrow> wake list \<Rightarrow> (h2_bucket_beam \<times> wake list) list" where
  "h2_beam_send_waits env fuel beam red_brigade block sched =
     (case enter_yellow beam of
        (APR_SUCCESS, mutex) \<Rightarrow>
          (let beam1 = r_purge_sent beam;
               beam2 = (case red_brigade of
                          Some bb \<Rightarrow> beam_set_send_pool beam1 (Some (brigade_p bb))
                        | None \<Rightarrow> beam1)
           in if aborted beam2 then []
              else
                (case red_brigade of
                   Some bb \<Rightarrow> send_loop_waits env fuel beam2 (brigade_list bb) block mutex sched
                 | None \<Rightarrow> []))
      | (status, mutex) \<Rightarrow> [])"

text \<open>
  The APR split and the registered beamers make no end-of-stream bucket and lose
  none.
\<close>

definition eos_neutral :: "apr_env \<Rightarrow> bool" where
  "eos_neutral env =
     ((\<forall>f \<in> set (beamers env). \<forall>r. eos_count (f r) = 0)
      \<and> (\<forall>g p. case apr_bucket_split env g p of
                   (st, h, ins) \<Rightarrow> eos_count (h # ins) = eos_count [g]))"

text \<open>
  What the consumed callback has been handed so far, together with what the next
  report of consumption will hand it.
\<close>

definition consumed_total :: "h2_bucket_beam \<Rightarrow> apr_off_t" where
  "consumed_total b =
     sum_list (consumed_calls b) + (received_bytes b - reported_consumed_bytes b)"

text \<open>
  A wake of a waiting consumer by the producer: while the consumer waits, the
  producer makes a call of \<^verbatim>\<open>h2_beam_send\<close> that does not block, and its broadcast
  wakes the consumer.
\<close>

definition send_wake :: "apr_env \<Rightarrow> nat \<Rightarrow> apr_bucket_brigade option \<Rightarrow> wake" where
  "send_wake env fuel red =
     Signal (\<lambda>b. case h2_beam_send env fuel b red APR_NONBLOCK_READ [] of
                   Ret (status, b', red') \<Rightarrow> b' | Blocked \<Rightarrow> b | Crash \<Rightarrow> b)"


text \<open>
  A beam owned by the receiving side, under a mutex and with the consumed callback
  installed, from which 3 bytes have been received that no report of consumption has
  covered yet (\<open>unreported_beam_reached\<close> below).
\<close>

definition unreported_beam :: h2_bucket_beam where
  "unreported_beam =
     (locked_beam H2_BEAM_OWNER_RECV 0)
       \<lparr>consumed_fn := True,
        hold_list := [red_bucket 1 BT_HEAP 3],
        proxies := [0],
        proxy_mem := [\<lparr>refcount = 1, pbeam = True, bred = Some 1, pn = 0\<rparr>],
        send_pool := Some 1,
        buckets_sent := 1,
        sent_bytes := 3,
        reported_produced_bytes := 3,
        received_bytes := 3\<rparr>"


section \<open>Basic facts\<close>

lemma enter_yellow_proxy_store [simp]: "enter_yellow (proxy_store beam a d) = enter_yellow beam"
  by (simp add: enter_yellow_def proxy_store_def split: option.splits)

lemma enter_yellow_proxies_upd [simp]:
  "enter_yellow (beam\<lparr>proxies := ps\<rparr>) = enter_yellow beam"
  by (simp add: enter_yellow_def split: option.splits)

lemma enter_yellow_create [simp]:
  "enter_yellow (h2_beam_create pool own max_size) = (APR_SUCCESS, False)"
  by (simp add: h2_beam_create_def enter_yellow_def)

lemma locked_beam_eq:
  "locked_beam own max_size =
     (h2_beam_create 0 own max_size)
       \<lparr>m_enter := Some (APR_SUCCESS, True), m_ctx := True, m_cond := True\<rparr>"
  by (simp add: locked_beam_def h2_beam_mutex_set_def)

lemma enter_yellow_locked_beam [simp]:
  "enter_yellow (locked_beam own max_size) = (APR_SUCCESS, True)"
  by (simp add: locked_beam_def h2_beam_mutex_set_def h2_beam_create_def enter_yellow_def)

section \<open>The concrete beams are reachable\<close>

text \<open>
  The beams on which statements are evaluated below are states that sequences of
  calls reach from a beam just created and given a mutex.
\<close>

lemma send_loop_numeral:
  "send_loop env (numeral k) beam (b # rest) block mutex sched =
     (case append_bucket env beam b rest block mutex sched of
        Blocked \<Rightarrow> Blocked
      | Crash \<Rightarrow> Crash
      | Ret (status, beam', rest', sched') \<Rightarrow>
          (if status = APR_SUCCESS
           then send_loop env (pred_numeral k) beam' rest' block mutex sched'
           else Ret (status, beam', rest')))"
  by (simp add: numeral_eq_Suc)

lemma size_max_facts:
  "(0::64 word) < - 1" "((- 1 :: 64 word) < 5) = False" "((- 1 :: 64 word) < 7) = False"
  "((- 1 :: 64 word) < 2) = False" "((5 :: 64 word) = - 1) = False"
  "((7 :: 64 word) = - 1) = False" "((2 :: 64 word) = - 1) = False"
  by code_simp+

lemma hold_beam_reached:
  "run_ops plain_env (locked_beam H2_BEAM_OWNER_SEND 0)
     [Op_send (Some (brigade 1 [red_bucket 1 BT_HEAP 5, red_bucket 2 BT_FLUSH 0,
                                red_bucket 3 BT_HEAP 7, red_bucket 4 BT_HEAP 2]))
        APR_BLOCK_READ 4 [],
      Op_receive (brigade 7 []) APR_NONBLOCK_READ 0 []] = Ret hold_beam"
  by (simp add: send_loop_numeral locked_beam_eq hold_beam_def h2_beam_create_def
      enter_yellow_def h2_beam_send_def Let_def r_purge_sent_def beam_set_send_pool_def
      brigade_def red_bucket_def append_bucket_def append_space_def append_normalize_def
      APR_BUCKET_IS_METADATA_def APR_BUCKET_IS_FILE_def APR_BUCKET_IS_TRANSIENT_def
      APR_BUCKET_IS_HEAP_def APR_BUCKET_IS_EOS_def APR_BUCKET_IS_FLUSH_def
      calc_space_left_def calc_buffered_def r_wait_space_def APR_SIZE_MAX_def
      report_production_def report_consumption_def
      h2_beam_receive_def recv_transfer.simps recv_pass_def beam_set_recv_pool_def
      recv_place_def recv_make_green_def h2_beam_bucket_create_def green_bucket_def
      recv_put_back_def recv_close_step_def word_sle_eq word_sless_alt size_max_facts)

lemma buffered_beam_reached:
  "run_ops plain_env (locked_beam H2_BEAM_OWNER_SEND 0)
     [Op_send (Some (brigade 1 [red_bucket 1 BT_HEAP 5, red_bucket 2 BT_FLUSH 0,
                                red_bucket 3 BT_HEAP 7, red_bucket 4 BT_HEAP 2]))
        APR_BLOCK_READ 4 [],
      Op_receive (brigade 7 []) APR_NONBLOCK_READ 8 []] = Ret buffered_beam"
  by (simp add: send_loop_numeral locked_beam_eq buffered_beam_def h2_beam_create_def
      enter_yellow_def h2_beam_send_def Let_def r_purge_sent_def beam_set_send_pool_def
      brigade_def red_bucket_def append_bucket_def append_space_def append_normalize_def
      APR_BUCKET_IS_METADATA_def APR_BUCKET_IS_FILE_def APR_BUCKET_IS_TRANSIENT_def
      APR_BUCKET_IS_HEAP_def APR_BUCKET_IS_EOS_def APR_BUCKET_IS_FLUSH_def
      calc_space_left_def calc_buffered_def r_wait_space_def APR_SIZE_MAX_def
      report_production_def report_consumption_def
      h2_beam_receive_def recv_transfer.simps recv_pass_def beam_set_recv_pool_def
      recv_place_def recv_make_green_def h2_beam_bucket_create_def green_bucket_def
      recv_put_back_def green_split_def proxy_at_def proxy_store_def
      recv_close_step_def word_sle_eq word_sless_alt size_max_facts)

lemma file_beam_reached:
  "run_ops plain_env (h2_beam_create 0 H2_BEAM_OWNER_RECV 0)
     [Op_send (Some (brigade 1 [red_bucket 1 BT_FILE 100, red_bucket 2 BT_EOS 0]))
        APR_BLOCK_READ 2 []] =
   Ret file_beam"
  by (simp add: file_beam_def h2_beam_create_def plain_env_def send_loop_numeral
      enter_yellow_def h2_beam_send_def Let_def r_purge_sent_def beam_set_send_pool_def
      brigade_def red_bucket_def append_bucket_def append_normalize_def
      APR_BUCKET_IS_METADATA_def APR_BUCKET_IS_FILE_def APR_BUCKET_IS_TRANSIENT_def
      APR_BUCKET_IS_HEAP_def APR_BUCKET_IS_POOL_def APR_BUCKET_IS_EOS_def
      report_production_def report_consumption_def)

lemma pending_beam_reached:
  "run_ops plain_env (locked_beam H2_BEAM_OWNER_SEND 0)
     [Op_send (Some (brigade 1 [red_bucket 1 BT_HEAP 5])) APR_BLOCK_READ 1 []] =
   Ret pending_beam"
  by (simp add: locked_beam_eq pending_beam_def h2_beam_create_def
      enter_yellow_def h2_beam_send_def Let_def r_purge_sent_def beam_set_send_pool_def
      brigade_def red_bucket_def append_bucket_def append_space_def append_normalize_def
      APR_BUCKET_IS_METADATA_def APR_BUCKET_IS_FILE_def APR_BUCKET_IS_TRANSIENT_def
      APR_BUCKET_IS_HEAP_def calc_space_left_def calc_buffered_def r_wait_space_def
      APR_SIZE_MAX_def report_production_def report_consumption_def size_max_facts)

lemma timed_beam_reached:
  "run_ops plain_env (locked_beam H2_BEAM_OWNER_SEND 0) [Op_timeout_set 1000] = Ret timed_beam"
  by (simp add: timed_beam_def h2_beam_timeout_set_def)

lemma full_beam_reached:
  "run_ops plain_env (locked_beam H2_BEAM_OWNER_SEND 4)
     [Op_timeout_set 1000,
      Op_send (Some (brigade 1 [red_bucket 1 BT_HEAP 2])) APR_BLOCK_READ 1 [],
      Op_send (Some (brigade 1 [red_bucket 2 BT_HEAP 4])) APR_BLOCK_READ 1 [],
      Op_receive (brigade 7 []) APR_NONBLOCK_READ 2 []] = Ret full_beam"
  by (simp add: locked_beam_eq full_beam_def h2_beam_timeout_set_def h2_beam_create_def
      enter_yellow_def h2_beam_send_def Let_def r_purge_sent_def beam_set_send_pool_def
      brigade_def red_bucket_def append_bucket_def append_space_def append_normalize_def
      APR_BUCKET_IS_METADATA_def APR_BUCKET_IS_FILE_def APR_BUCKET_IS_TRANSIENT_def
      APR_BUCKET_IS_HEAP_def calc_space_left_def calc_buffered_def r_wait_space_def
      report_production_def report_consumption_def
      h2_beam_receive_def recv_transfer.simps recv_pass_def beam_set_recv_pool_def
      recv_place_def recv_make_green_def h2_beam_bucket_create_def green_bucket_def
      recv_put_back_def recv_close_step_def word_sle_eq word_sless_alt)

section \<open>wait-empty\<close>

text \<open>
  C1. The claim: wait-empty returns success only when the send queue is empty and no
  proxy is live, and in non-blocking mode it returns again while that does not hold.
  The loop of the source goes on only while the send queue and the proxy ring are
  both non-empty. Evaluated on \<open>pending_beam\<close>, whose send queue holds one heap bucket
  of five bytes that no receive has taken yet (so there is no proxy, and
  \<^verbatim>\<open>h2_beam_empty\<close> says the beam is not empty): the blocking call returns success at
  once, and so does the non-blocking call.
\<close>

theorem wait_empty_success_with_send_pending:
  "send_list pending_beam = [red_bucket 1 BT_HEAP 5]
   \<and> proxies pending_beam = []
   \<and> h2_beam_empty pending_beam = False
   \<and> h2_beam_wait_empty pending_beam APR_BLOCK_READ [] = Ret (APR_SUCCESS, pending_beam)
   \<and> h2_beam_wait_empty pending_beam APR_NONBLOCK_READ [] = Ret (APR_SUCCESS, pending_beam)"
  by (simp add: h2_beam_wait_empty_def h2_beam_empty_def pending_beam_def locked_beam_def
      h2_beam_mutex_set_def h2_beam_create_def enter_yellow_def)

section \<open>The emitted notification\<close>

lemma emitted_scan_split:
  "\<forall>x \<in> set pre. bid x \<noteq> a \<Longrightarrow> bid s = a \<Longrightarrow>
   emitted_scan (pre @ s # post) a =
     (filter (\<lambda>x. \<not> APR_BUCKET_IS_METADATA x) pre @ post,
      filter APR_BUCKET_IS_METADATA pre @ [s])"
  by (induction pre) auto

text \<open>
  C6. When the last reference to a proxy is dropped, its producer bucket pointer is
  non-null and that bucket \<open>s\<close> is in hold, with \<open>pre\<close> before it and \<open>post\<close> after it:
  the scan moves to purge the metadata buckets of \<open>pre\<close>, in order, and then \<open>s\<close>;
  the other buckets of \<open>pre\<close> and all of \<open>post\<close> stay in hold; the proxy leaves the
  ring and its producer bucket pointer is nulled. Under a mutex the moved buckets are
  in purge when the notification returns; without one the notification goes on to
  delete the whole purge list itself.
\<close>

theorem emitted_moves_to_purge:
  assumes lock: "enter_yellow beam = (APR_SUCCESS, mutex)"
    and px: "proxy_at beam proxy = Some d"
    and last: "refcount d = 1" "pbeam d"
    and src: "bred d = Some a"
    and hold: "hold_list beam = pre @ s # post" "bid s = a" "\<forall>x \<in> set pre. bid x \<noteq> a"
  shows "\<exists>beam'. beam_bucket_destroy beam proxy = Ret beam'
      \<and> emitted_scan (hold_list beam) a =
            (filter (\<lambda>x. \<not> APR_BUCKET_IS_METADATA x) pre @ post,
             filter APR_BUCKET_IS_METADATA pre @ [s])
      \<and> hold_list beam' = filter (\<lambda>x. \<not> APR_BUCKET_IS_METADATA x) pre @ post
      \<and> purge_list beam' =
            (if mutex then purge_list beam @ filter APR_BUCKET_IS_METADATA pre @ [s] else [])
      \<and> send_list beam' = send_list beam
      \<and> proxies beam' = remove1 proxy (proxies beam)
      \<and> proxy_at beam' proxy = Some (d\<lparr>refcount := 0, bred := None\<rparr>)"
proof -
  have scan: "emitted_scan (hold_list beam) a =
      (filter (\<lambda>x. \<not> APR_BUCKET_IS_METADATA x) pre @ post,
       filter APR_BUCKET_IS_METADATA pre @ [s])"
    using hold by (simp add: emitted_scan_split)
  have lt: "proxy < length (proxy_mem beam)" and dd: "proxy_mem beam ! proxy = d"
    using px by (auto simp: proxy_at_def split: if_splits)
  define d1 where "d1 = d\<lparr>refcount := 0\<rparr>"
  define beam1 where "beam1 = proxy_store beam proxy d1"
  have destroy: "beam_bucket_destroy beam proxy = h2_beam_emitted beam1 proxy"
    using last by (simp add: beam_bucket_destroy_def px Let_def d1_def beam1_def)
  have lock1: "enter_yellow beam1 = (APR_SUCCESS, mutex)"
    using lock by (simp add: beam1_def)
  define beam2 where "beam2 = beam1\<lparr>proxies := remove1 proxy (proxies beam1)\<rparr>"
  have px2: "proxy_at beam2 proxy = Some d1"
    using lt by (simp add: beam2_def beam1_def proxy_at_def proxy_store_def)
  have hold2: "hold_list beam2 = pre @ s # post"
    using hold(1) by (simp add: beam2_def beam1_def proxy_store_def)
  have ex: "\<exists>b \<in> set (hold_list beam2). bid b = a"
    using hold2 hold(2) by auto
  have scan2: "emitted_scan (hold_list beam2) a =
      (filter (\<lambda>x. \<not> APR_BUCKET_IS_METADATA x) pre @ post,
       filter APR_BUCKET_IS_METADATA pre @ [s])"
    using scan hold2 hold(1) by simp
  have src1: "bred d1 = Some a" using src by (simp add: d1_def)
  define beam3 where "beam3 = proxy_store
      (beam2\<lparr>hold_list := filter (\<lambda>x. \<not> APR_BUCKET_IS_METADATA x) pre @ post,
             purge_list := purge_list beam2 @ filter APR_BUCKET_IS_METADATA pre @ [s]\<rparr>)
      proxy (d1\<lparr>bred := None\<rparr>)"
  have em: "h2_beam_emitted beam1 proxy = Ret (if \<not> mutex then r_purge_sent beam3 else beam3)"
    unfolding h2_beam_emitted_def lock1 Let_def beam2_def [symmetric]
    using px2 src1 ex scan2 by (simp add: beam3_def)
  have f3: "hold_list beam3 = filter (\<lambda>x. \<not> APR_BUCKET_IS_METADATA x) pre @ post"
    "purge_list beam3 = purge_list beam @ filter APR_BUCKET_IS_METADATA pre @ [s]"
    "send_list beam3 = send_list beam"
    "proxies beam3 = remove1 proxy (proxies beam)"
    "proxy_at beam3 proxy = Some (d\<lparr>refcount := 0, bred := None\<rparr>)"
    using lt by (simp_all add: beam3_def beam2_def beam1_def proxy_store_def proxy_at_def d1_def)
  show ?thesis
    unfolding destroy em using scan f3
    by (auto simp: r_purge_sent_def proxy_at_def split: if_splits)
qed

text \<open>
  The statement at \<open>hold_beam\<close> and the proxy of data 3 at its last reference:
  flush 2 and data 3 go to purge, data 1 and data 4 stay.
\<close>

theorem emitted_moves_to_purge_witness:
  "\<exists>beam'. beam_bucket_destroy hold_beam 1 = Ret beam'
     \<and> hold_list beam' = [red_bucket 1 BT_HEAP 5, red_bucket 4 BT_HEAP 2]
     \<and> purge_list beam' = [red_bucket 2 BT_FLUSH 0, red_bucket 3 BT_HEAP 7]
     \<and> proxies beam' = [0, 2]
     \<and> proxy_at beam' 1 = Some \<lparr>refcount = 0, pbeam = True, bred = None, pn = 1\<rparr>"
proof -
  have lock: "enter_yellow hold_beam = (APR_SUCCESS, True)"
    by (simp add: hold_beam_def locked_beam_eq h2_beam_create_def enter_yellow_def)
  have px: "proxy_at hold_beam 1 = Some \<lparr>refcount = 1, pbeam = True, bred = Some 3, pn = 1\<rparr>"
    by (simp add: hold_beam_def proxy_at_def)
  have hold: "hold_list hold_beam =
      [red_bucket 1 BT_HEAP 5, red_bucket 2 BT_FLUSH 0] @ red_bucket 3 BT_HEAP 7
        # [red_bucket 4 BT_HEAP 2]"
    by (simp add: hold_beam_def)
  have pre: "\<forall>x \<in> set [red_bucket 1 BT_HEAP 5, red_bucket 2 BT_FLUSH 0]. bid x \<noteq> 3"
    by (simp add: red_bucket_def)
  have ps: "proxies hold_beam = [0, 1, 2]" "purge_list hold_beam = []"
    by (simp_all add: hold_beam_def locked_beam_eq h2_beam_create_def)
  show ?thesis
    using emitted_moves_to_purge [OF lock px _ _ _ hold _ pre] ps
    by (auto simp add: red_bucket_def APR_BUCKET_IS_METADATA_def)
qed

section \<open>Proxy reads and the end of the beam\<close>

lemma report_consumption_eq:
  "report_consumption b f =
     b\<lparr>consumed_calls :=
         (if (f \<or> received_bytes b \<noteq> reported_consumed_bytes b) \<and> consumed_fn b
          then consumed_calls b @ [received_bytes b - reported_consumed_bytes b]
          else consumed_calls b),
       reported_consumed_bytes :=
         (if f \<or> received_bytes b \<noteq> reported_consumed_bytes b then received_bytes b
          else reported_consumed_bytes b)\<rparr>"
  by (simp add: report_consumption_def Let_def)

lemma report_production_eq:
  "report_production b f =
     b\<lparr>produced_calls :=
         (if (f \<or> sent_bytes b \<noteq> reported_produced_bytes b) \<and> produced_fn b
          then produced_calls b @ [sent_bytes b - reported_produced_bytes b]
          else produced_calls b),
       reported_produced_bytes :=
         (if f \<or> sent_bytes b \<noteq> reported_produced_bytes b then sent_bytes b
          else reported_produced_bytes b)\<rparr>"
  by (simp add: report_production_def Let_def)

lemma detach_proxies_length [simp]: "length (detach_proxies as mem) = length mem"
  by (induction as arbitrary: mem) auto

lemma detach_proxies_nth:
  "p < length mem \<Longrightarrow>
   detach_proxies as mem ! p =
     (if p \<in> set as then (mem ! p)\<lparr>pbeam := False, bred := None\<rparr> else mem ! p)"
  by (induction as arbitrary: mem) (auto simp: nth_list_update)

lemma send_cleanup_proxy:
  assumes "p \<in> set (proxies beam)" "proxy_at beam p = Some d"
  shows "proxy_at (beam_send_cleanup beam) p = Some (d\<lparr>pbeam := False, bred := None\<rparr>)"
  using assms
  by (auto simp: beam_send_cleanup_def Let_def proxy_at_def r_purge_sent_def
      report_consumption_eq detach_proxies_nth h2_blist_cleanup_def split: if_splits)

lemma send_cleanup_proxy_other:
  assumes "proxy_at beam p = Some d"
  shows "\<exists>d'. proxy_at (beam_send_cleanup beam) p = Some d' \<and> (bred d = None \<longrightarrow> bred d' = None)"
  using assms
  by (auto simp: beam_send_cleanup_def Let_def proxy_at_def r_purge_sent_def
      report_consumption_eq detach_proxies_nth h2_blist_cleanup_def split: if_splits)

lemma read_reset:
  "proxy_at beam (bproxy b) = Some d \<Longrightarrow> bred d = None \<Longrightarrow>
   beam_bucket_read env beam b = Ret (APR_ECONNRESET, [])"
  by (simp add: beam_bucket_read_def)

lemma in_remove1_other: "p \<noteq> a \<Longrightarrow> p \<in> set xs \<Longrightarrow> p \<in> set (remove1 a xs)"
  by simp

lemma emitted_ring_or_null:
  assumes "h2_beam_emitted b a = Ret b'" "ring_or_null p b"
  shows "ring_or_null p b'"
proof (cases "enter_yellow b")
  case (Pair st mutex)
  show ?thesis
  proof (cases "st = APR_SUCCESS")
    case False
    then have "b' = b" using assms(1) Pair
      by (cases st) (auto simp: h2_beam_emitted_def)
    then show ?thesis using assms(2) by simp
  next
    case True
    show ?thesis
    proof (cases "p = a")
      case True
      with assms Pair \<open>st = APR_SUCCESS\<close> show ?thesis
        by (auto simp: h2_beam_emitted_def Let_def ring_or_null_def proxy_at_def proxy_store_def
            r_purge_sent_def
            split: option.splits if_splits prod.splits outcome.splits)
    next
      case False
      with assms Pair \<open>st = APR_SUCCESS\<close> show ?thesis
        by (auto simp: h2_beam_emitted_def Let_def ring_or_null_def proxy_at_def proxy_store_def
            r_purge_sent_def in_remove1_other
            split: option.splits if_splits prod.splits outcome.splits)
    qed
  qed
qed

lemma destroy_ring_or_null:
  assumes "beam_bucket_destroy b a = Ret b'" "ring_or_null p b"
  shows "ring_or_null p b'"
proof -
  have keep: "ring_or_null p (proxy_store b a ((proxy_mem b ! a)\<lparr>refcount := refcount (proxy_mem b ! a) - 1\<rparr>))"
    using assms(2) by (cases "p = a") (auto simp: ring_or_null_def proxy_store_def)
  show ?thesis
    using assms(1) keep
    by (auto simp: beam_bucket_destroy_def Let_def proxy_at_def
        split: option.splits if_splits dest: emitted_ring_or_null)
qed

lemma cleanup_ring_or_null:
  "brigade_cleanup b gs = Ret b' \<Longrightarrow> ring_or_null p b \<Longrightarrow> ring_or_null p b'"
proof (induction gs arbitrary: b)
  case Nil
  then show ?case by simp
next
  case (Cons g gs)
  then show ?case
    by (auto simp: bucket_delete_def split: outcome.splits if_splits
        dest: destroy_ring_or_null)
qed


lemma ring_or_null_after_send_cleanup:
  assumes "ring_or_null p b"
  shows "\<exists>d'. proxy_at (beam_send_cleanup b) p = Some d' \<and> bred d' = None"
proof -
  have lt: "p < length (proxy_mem b)" using assms by (simp add: ring_or_null_def)
  then have px: "proxy_at b p = Some (proxy_mem b ! p)" by (simp add: proxy_at_def)
  show ?thesis
  proof (cases "p \<in> set (proxies b)")
    case True
    from send_cleanup_proxy [OF True px] show ?thesis by simp
  next
    case False
    then have "bred (proxy_mem b ! p) = None" using assms by (simp add: ring_or_null_def)
    with send_cleanup_proxy_other [OF px] show ?thesis by auto
  qed
qed

lemma destroy_nulls:
  assumes ring: "p \<in> set (proxies beam)" and lt: "p < length (proxy_mem beam)"
    and ret: "h2_beam_destroy beam = Ret (st, beam')"
  shows "\<exists>d'. proxy_at beam' p = Some d' \<and> bred d' = None
           \<and> (owner beam = H2_BEAM_OWNER_SEND \<longrightarrow> \<not> pbeam d')"
proof (cases "owner beam")
  case H2_BEAM_OWNER_SEND
  have ring1: "p \<in> set (proxies (beam_close beam))" using ring by (simp add: beam_close_def)
  have px1: "proxy_at (beam_close beam) p = Some (proxy_mem beam ! p)"
    using lt by (simp add: beam_close_def proxy_at_def)
  have own: "owner (beam_close beam) = H2_BEAM_OWNER_SEND"
    using H2_BEAM_OWNER_SEND by (simp add: beam_close_def)
  have "beam' = (beam_send_cleanup (beam_close beam))\<lparr>recv_buffer := None, recv_pool := None\<rparr>"
    using ret own by (simp add: h2_beam_destroy_def beam_cleanup_def Let_def)
  then show ?thesis
    using send_cleanup_proxy [OF ring1 px1] by (auto simp: proxy_at_def split: if_splits)
next
  case H2_BEAM_OWNER_RECV
  define beam1 where "beam1 = beam_close beam"
  have own: "owner beam1 = H2_BEAM_OWNER_RECV"
    using H2_BEAM_OWNER_RECV by (simp add: beam1_def beam_close_def)
  have r1: "ring_or_null p beam1"
    using ring lt by (simp add: ring_or_null_def beam1_def beam_close_def)
  obtain beam2 where b2: "(case recv_buffer beam1 of Some gs \<Rightarrow> brigade_cleanup beam1 gs
                            | None \<Rightarrow> Ret beam1) = Ret beam2"
    using ret own
    by (auto simp: h2_beam_destroy_def beam_cleanup_def Let_def beam1_def [symmetric]
        split: outcome.splits)
  have r2: "ring_or_null p beam2"
    using b2 r1 by (auto split: option.splits dest: cleanup_ring_or_null)
  define beam3 where "beam3 = beam2\<lparr>recv_buffer := None, recv_pool := None\<rparr>"
  have r3: "ring_or_null p beam3" using r2 by (simp add: ring_or_null_def beam3_def)
  have fin: "(send_pool beam3 \<noteq> None \<and> beam' = beam_send_cleanup beam3)
           \<or> (beam' = beam3 \<and> proxies beam3 = [])"
    using ret own b2
    by (auto simp: h2_beam_destroy_def beam_cleanup_def Let_def beam1_def [symmetric]
        beam3_def [symmetric] split: outcome.splits if_splits)
  then show ?thesis
  proof
    assume "send_pool beam3 \<noteq> None \<and> beam' = beam_send_cleanup beam3"
    then show ?thesis
      using ring_or_null_after_send_cleanup [OF r3] H2_BEAM_OWNER_RECV by auto
  next
    assume "beam' = beam3 \<and> proxies beam3 = []"
    then show ?thesis
      using r3 H2_BEAM_OWNER_RECV by (auto simp: ring_or_null_def proxy_at_def)
  qed
qed

text \<open>
  C5. For a beam bucket \<open>b\<close> whose proxy \<open>d\<close> is in memory: with a producer bucket
  pointer the read goes through to the producer bucket and, when that read succeeds,
  gives the bytes from \<open>bstart b\<close> of length \<open>blength b\<close> of what it read (a failing
  read hands its status on); with a null pointer the read fails with connection-reset
  and length zero. Producer cleanup nulls both pointers of every proxy in the ring,
  and after a destroy that returns, every proxy that was in the ring has a null
  producer bucket pointer (and a null beam pointer when the owner is the sender), so
  a read through it gives connection-reset.
\<close>

theorem proxy_read_window_or_reset:
  assumes px: "proxy_at beam (bproxy b) = Some d"
  shows "(\<forall>a r st data r' ins.
            bred d = Some a \<longrightarrow> bucket_at beam a = Some r \<longrightarrow>
            apr_bucket_read env r = (st, data, r', ins) \<longrightarrow>
            beam_bucket_read env beam b =
              Ret (st, if st = APR_SUCCESS
                       then take (unat (blength b)) (drop (unat (bstart b)) data) else []))
       \<and> (bred d = None \<longrightarrow> beam_bucket_read env beam b = Ret (APR_ECONNRESET, []))
       \<and> (bproxy b \<in> set (proxies beam) \<longrightarrow>
            proxy_at (beam_send_cleanup beam) (bproxy b) = Some (d\<lparr>pbeam := False, bred := None\<rparr>)
            \<and> beam_bucket_read env (beam_send_cleanup beam) b = Ret (APR_ECONNRESET, []))
       \<and> (\<forall>st' beam'.
            bproxy b \<in> set (proxies beam) \<longrightarrow> h2_beam_destroy beam = Ret (st', beam') \<longrightarrow>
            (\<exists>d'. proxy_at beam' (bproxy b) = Some d' \<and> bred d' = None
                  \<and> (owner beam = H2_BEAM_OWNER_SEND \<longrightarrow> \<not> pbeam d'))
            \<and> beam_bucket_read env beam' b = Ret (APR_ECONNRESET, []))"
proof (intro conjI allI impI)
  fix a r st data r' ins
  assume "bred d = Some a" "bucket_at beam a = Some r"
    "apr_bucket_read env r = (st, data, r', ins)"
  then show "beam_bucket_read env beam b =
      Ret (st, if st = APR_SUCCESS
               then take (unat (blength b)) (drop (unat (bstart b)) data) else [])"
    using px by (simp add: beam_bucket_read_def)
next
  assume "bred d = None"
  then show "beam_bucket_read env beam b = Ret (APR_ECONNRESET, [])"
    using px by (simp add: read_reset)
next
  assume ring: "bproxy b \<in> set (proxies beam)"
  from send_cleanup_proxy [OF ring px]
  show c: "proxy_at (beam_send_cleanup beam) (bproxy b) = Some (d\<lparr>pbeam := False, bred := None\<rparr>)" .
  show "beam_bucket_read env (beam_send_cleanup beam) b = Ret (APR_ECONNRESET, [])"
    using c by (simp add: read_reset)
next
  fix st' beam'
  assume ring: "bproxy b \<in> set (proxies beam)" and ret: "h2_beam_destroy beam = Ret (st', beam')"
  have lt: "bproxy b < length (proxy_mem beam)"
    using px by (simp add: proxy_at_def split: if_splits)
  from destroy_nulls [OF ring lt ret]
  show c: "\<exists>d'. proxy_at beam' (bproxy b) = Some d' \<and> bred d' = None
                  \<and> (owner beam = H2_BEAM_OWNER_SEND \<longrightarrow> \<not> pbeam d')" .
  then show "beam_bucket_read env beam' b = Ret (APR_ECONNRESET, [])"
    by (auto simp: read_reset)
qed

text \<open>
  The statement at \<open>hold_beam\<close> and a beam bucket for bytes 2 to 4 of data 3, read with
  \<open>window_env\<close>: the read gives 12, 13, 14; after destroy it gives connection-reset.
\<close>

theorem proxy_read_window_or_reset_witness:
  "beam_bucket_read window_env hold_beam
      ((green_bucket BT_BEAM)\<lparr>bstart := 2, blength := 3, bproxy := 1\<rparr>) =
     Ret (APR_SUCCESS, [12, 13, 14])
   \<and> (\<exists>st' beam'. h2_beam_destroy hold_beam = Ret (st', beam')
         \<and> beam_bucket_read window_env beam'
             ((green_bucket BT_BEAM)\<lparr>bstart := 2, blength := 3, bproxy := 1\<rparr>) =
            Ret (APR_ECONNRESET, []))"
proof -
  define g where "g = (green_bucket BT_BEAM)\<lparr>bstart := 2, blength := 3, bproxy := 1\<rparr>"
  have gp: "bproxy g = 1" "unat (bstart g) = 2" "unat (blength g) = 3"
    by (simp_all add: g_def green_bucket_def)
  have px: "proxy_at hold_beam (bproxy g) =
      Some \<lparr>refcount = 1, pbeam = True, bred = Some 3, pn = 1\<rparr>"
    by (simp add: gp hold_beam_def proxy_at_def)
  have at: "bucket_at hold_beam 3 = Some (red_bucket 3 BT_HEAP 7)"
    by (simp add: bucket_at_def hold_beam_def red_bucket_def)
  have rd: "apr_bucket_read window_env (red_bucket 3 BT_HEAP 7) =
      (APR_SUCCESS, [10, 11, 12, 13, 14, 15, 16], red_bucket 3 BT_HEAP 7, [])"
    by (simp add: window_env_def)
  have ring: "bproxy g \<in> set (proxies hold_beam)"
    by (simp add: gp hold_beam_def)
  have own: "owner hold_beam = H2_BEAM_OWNER_SEND"
    by (simp add: hold_beam_def locked_beam_eq h2_beam_create_def)
  have des: "h2_beam_destroy hold_beam =
      Ret (APR_SUCCESS,
           (beam_send_cleanup (beam_close hold_beam))\<lparr>recv_buffer := None, recv_pool := None\<rparr>)"
    using own by (simp add: h2_beam_destroy_def beam_cleanup_def Let_def beam_close_def)
  note main = proxy_read_window_or_reset [OF px, of window_env]
  have a: "beam_bucket_read window_env hold_beam g = Ret (APR_SUCCESS, [12, 13, 14])"
    using main at rd by (simp add: gp)
  have b: "beam_bucket_read window_env
      ((beam_send_cleanup (beam_close hold_beam))\<lparr>recv_buffer := None, recv_pool := None\<rparr>) g =
      Ret (APR_ECONNRESET, [])"
    using main ring des by blast
  show ?thesis
    using a b des unfolding g_def by blast
qed

section \<open>Close, abort and destroy repeated and combined\<close>

lemma enter_yellow_cong:
  "m_enter b' = m_enter b \<Longrightarrow> m_ctx b' = m_ctx b \<Longrightarrow> enter_yellow b' = enter_yellow b"
  by (simp add: enter_yellow_def split: option.splits)

lemma enter_yellow_report_consumption [simp]:
  "enter_yellow (report_consumption b f) = enter_yellow b"
  by (rule enter_yellow_cong) (simp_all add: report_consumption_eq)

lemma abort_locked:
  "enter_yellow b = (APR_SUCCESS, m) \<Longrightarrow>
   h2_beam_abort b =
     (if aborted b then b
      else report_consumption (b\<lparr>aborted := True, purge_list := [], send_list := []\<rparr>) False)"
  by (simp add: h2_beam_abort_def Let_def r_purge_sent_def h2_blist_cleanup_def)

lemma abort_unlocked: "fst (enter_yellow b) \<noteq> APR_SUCCESS \<Longrightarrow> h2_beam_abort b = b"
  by (cases "enter_yellow b"; cases "fst (enter_yellow b)") (simp_all add: h2_beam_abort_def)

lemma close_locked:
  "enter_yellow b = (APR_SUCCESS, m) \<Longrightarrow>
   h2_beam_close b =
     (if aborted b then APR_ECONNABORTED else APR_SUCCESS,
      report_consumption (b\<lparr>purge_list := [], closed := True\<rparr>) False)"
  by (simp add: h2_beam_close_def Let_def r_purge_sent_def beam_close_def report_consumption_eq)

lemma close_unlocked:
  "fst (enter_yellow b) \<noteq> APR_SUCCESS \<Longrightarrow>
   h2_beam_close b = (if aborted b then APR_ECONNABORTED else APR_SUCCESS, b)"
  by (cases "enter_yellow b"; cases "fst (enter_yellow b)") (simp_all add: h2_beam_close_def)

lemma enter_yellow_abort [simp]: "enter_yellow (h2_beam_abort b) = enter_yellow b"
proof (cases "fst (enter_yellow b) = APR_SUCCESS")
  case True
  then obtain m where e: "enter_yellow b = (APR_SUCCESS, m)" by (cases "enter_yellow b") auto
  have "m_enter (h2_beam_abort b) = m_enter b" "m_ctx (h2_beam_abort b) = m_ctx b"
    by (simp_all add: abort_locked [OF e] report_consumption_eq)
  then show ?thesis by (rule enter_yellow_cong)
next
  case False
  then show ?thesis by (simp add: abort_unlocked)
qed

lemma enter_yellow_close [simp]: "enter_yellow (snd (h2_beam_close b)) = enter_yellow b"
proof (cases "fst (enter_yellow b) = APR_SUCCESS")
  case True
  then obtain m where e: "enter_yellow b = (APR_SUCCESS, m)" by (cases "enter_yellow b") auto
  have "m_enter (snd (h2_beam_close b)) = m_enter b" "m_ctx (snd (h2_beam_close b)) = m_ctx b"
    by (simp_all add: close_locked [OF e] report_consumption_eq)
  then show ?thesis by (rule enter_yellow_cong)
next
  case False
  then show ?thesis by (simp add: close_unlocked)
qed

lemma close_twice: "h2_beam_close (snd (h2_beam_close b)) = h2_beam_close b"
proof (cases "fst (enter_yellow b) = APR_SUCCESS")
  case True
  then obtain m where e: "enter_yellow b = (APR_SUCCESS, m)" by (cases "enter_yellow b") auto
  then have e': "enter_yellow (snd (h2_beam_close b)) = (APR_SUCCESS, m)" by simp
  show ?thesis
    unfolding close_locked [OF e'] unfolding close_locked [OF e]
    by (simp add: report_consumption_eq)
next
  case False
  then have "fst (enter_yellow (snd (h2_beam_close b))) \<noteq> APR_SUCCESS" by simp
  then show ?thesis using False by (simp add: close_unlocked)
qed

lemma abort_twice: "h2_beam_abort (h2_beam_abort b) = h2_beam_abort b"
proof (cases "fst (enter_yellow b) = APR_SUCCESS")
  case True
  then obtain m where e: "enter_yellow b = (APR_SUCCESS, m)" by (cases "enter_yellow b") auto
  then have e': "enter_yellow (h2_beam_abort b) = (APR_SUCCESS, m)" by simp
  have a: "aborted (h2_beam_abort b)"
    by (simp add: abort_locked [OF e] report_consumption_eq)
  show ?thesis
    using a by (subst abort_locked [OF e']) simp
next
  case False
  then show ?thesis by (simp add: abort_unlocked)
qed

lemma close_then_abort:
  assumes "aborted b \<longrightarrow> received_bytes b = reported_consumed_bytes b"
  shows "observably_equal (h2_beam_abort (snd (h2_beam_close b))) (h2_beam_abort b)"
proof (cases "fst (enter_yellow b) = APR_SUCCESS")
  case True
  then obtain m where e: "enter_yellow b = (APR_SUCCESS, m)" by (cases "enter_yellow b") auto
  then have e': "enter_yellow (snd (h2_beam_close b)) = (APR_SUCCESS, m)" by simp
  show ?thesis
  proof (cases "aborted b")
    case True
    with assms have "received_bytes b = reported_consumed_bytes b" by simp
    with True show ?thesis
      unfolding abort_locked [OF e'] unfolding close_locked [OF e] abort_locked [OF e]
      by (simp add: report_consumption_eq observably_equal_def)
  next
    case False
    then show ?thesis
      unfolding abort_locked [OF e'] unfolding close_locked [OF e] abort_locked [OF e]
      by (simp add: report_consumption_eq observably_equal_def)
  qed
next
  case False
  then show ?thesis by (simp add: abort_unlocked close_unlocked observably_equal_def)
qed

lemma abort_then_close:
  assumes "aborted b \<longrightarrow> received_bytes b = reported_consumed_bytes b"
  shows "observably_equal (snd (h2_beam_close (h2_beam_abort b))) (h2_beam_abort b)"
proof (cases "fst (enter_yellow b) = APR_SUCCESS")
  case True
  then obtain m where e: "enter_yellow b = (APR_SUCCESS, m)" by (cases "enter_yellow b") auto
  then have e': "enter_yellow (h2_beam_abort b) = (APR_SUCCESS, m)" by simp
  show ?thesis
  proof (cases "aborted b")
    case True
    with assms have "received_bytes b = reported_consumed_bytes b" by simp
    with True show ?thesis
      unfolding close_locked [OF e'] unfolding abort_locked [OF e]
      by (simp add: report_consumption_eq observably_equal_def)
  next
    case False
    then show ?thesis
      unfolding close_locked [OF e'] unfolding abort_locked [OF e]
      by (simp add: report_consumption_eq observably_equal_def)
  qed
next
  case False
  then show ?thesis by (simp add: abort_unlocked close_unlocked observably_equal_def)
qed


lemma emitted_frame:
  assumes "h2_beam_emitted b a = Ret b'"
  shows "\<exists>ps pm h pu. b' = b\<lparr>proxies := ps, proxy_mem := pm, hold_list := h, purge_list := pu\<rparr>"
proof (cases "fst (enter_yellow b) = APR_SUCCESS")
  case True
  then obtain m where e: "enter_yellow b = (APR_SUCCESS, m)" by (cases "enter_yellow b") auto
  have "b' = b'\<lparr>proxies := proxies b', proxy_mem := proxy_mem b', hold_list := hold_list b',
                purge_list := purge_list b'\<rparr>" by simp
  moreover have "b'\<lparr>proxies := ps, proxy_mem := pm, hold_list := h, purge_list := pu\<rparr> =
        b\<lparr>proxies := ps, proxy_mem := pm, hold_list := h, purge_list := pu\<rparr>" for ps pm h pu
    using assms e
    by (auto simp: h2_beam_emitted_def Let_def proxy_store_def r_purge_sent_def
        split: option.splits if_splits prod.splits outcome.splits)
  ultimately show ?thesis by metis
next
  case False
  then have "b' = b" using assms
    by (cases "enter_yellow b"; cases "fst (enter_yellow b)") (auto simp: h2_beam_emitted_def)
  then have "b' = b\<lparr>proxies := proxies b, proxy_mem := proxy_mem b, hold_list := hold_list b,
                purge_list := purge_list b\<rparr>" by simp
  then show ?thesis by blast
qed

lemma destroy_frame:
  assumes "beam_bucket_destroy b a = Ret b'"
  shows "\<exists>ps pm h pu. b' = b\<lparr>proxies := ps, proxy_mem := pm, hold_list := h, purge_list := pu\<rparr>"
proof -
  have base: "\<exists>ps pm h pu. proxy_store b a d =
      b\<lparr>proxies := ps, proxy_mem := pm, hold_list := h, purge_list := pu\<rparr>" for d
  proof -
    have "proxy_store b a d = b\<lparr>proxies := proxies b, proxy_mem := (proxy_mem b)[a := d],
        hold_list := hold_list b, purge_list := purge_list b\<rparr>"
      by (simp add: proxy_store_def)
    then show ?thesis by blast
  qed
  show ?thesis
  proof (cases "proxy_at b a")
    case None
    then show ?thesis using assms by (simp add: beam_bucket_destroy_def)
  next
    case (Some d)
    define d' where "d' = d\<lparr>refcount := refcount d - 1\<rparr>"
    from base [of d'] obtain ps pm h pu where
      st: "proxy_store b a d' = b\<lparr>proxies := ps, proxy_mem := pm, hold_list := h, purge_list := pu\<rparr>"
      by blast
    show ?thesis
    proof (cases "refcount d' = 0 \<and> pbeam d'")
      case True
      then have "h2_beam_emitted (proxy_store b a d') a = Ret b'"
        using assms Some by (simp add: beam_bucket_destroy_def Let_def d'_def)
      from emitted_frame [OF this] obtain ps' pm' h' pu' where
        "b' = (proxy_store b a d')\<lparr>proxies := ps', proxy_mem := pm', hold_list := h',
               purge_list := pu'\<rparr>" by blast
      then have "b' = b\<lparr>proxies := ps', proxy_mem := pm', hold_list := h', purge_list := pu'\<rparr>"
        unfolding st by simp
      then show ?thesis by blast
    next
      case False
      then have "b' = proxy_store b a d'"
        using assms Some by (auto simp: beam_bucket_destroy_def Let_def d'_def split: if_splits)
      then show ?thesis using st by blast
    qed
  qed
qed

lemma cleanup_frame:
  "brigade_cleanup b gs = Ret b' \<Longrightarrow>
   \<exists>ps pm h pu. b' = b\<lparr>proxies := ps, proxy_mem := pm, hold_list := h, purge_list := pu\<rparr>"
proof (induction gs arbitrary: b)
  case Nil
  then have "b' = b\<lparr>proxies := proxies b, proxy_mem := proxy_mem b, hold_list := hold_list b,
                purge_list := purge_list b\<rparr>" by simp
  then show ?case by blast
next
  case (Cons g gs)
  then obtain b1 where d: "bucket_delete b g = Ret b1" and r: "brigade_cleanup b1 gs = Ret b'"
    by (auto split: outcome.splits)
  have "\<exists>ps pm h pu. b1 = b\<lparr>proxies := ps, proxy_mem := pm, hold_list := h, purge_list := pu\<rparr>"
  proof (cases "btype g = BT_BEAM")
    case True
    then show ?thesis using d destroy_frame by (simp add: bucket_delete_def)
  next
    case False
    then have "b1 = b\<lparr>proxies := proxies b, proxy_mem := proxy_mem b, hold_list := hold_list b,
                purge_list := purge_list b\<rparr>" using d by (simp add: bucket_delete_def)
    then show ?thesis by blast
  qed
  then obtain ps pm h pu where
    b1: "b1 = b\<lparr>proxies := ps, proxy_mem := pm, hold_list := h, purge_list := pu\<rparr>" by blast
  from Cons.IH [OF r] obtain ps' pm' h' pu' where
    "b' = b1\<lparr>proxies := ps', proxy_mem := pm', hold_list := h', purge_list := pu'\<rparr>" by blast
  then have "b' = b\<lparr>proxies := ps', proxy_mem := pm', hold_list := h', purge_list := pu'\<rparr>"
    unfolding b1 by simp
  then show ?case by blast
qed

lemma beam_send_cleanup_eq:
  "beam_send_cleanup b =
     (report_consumption b False)
       \<lparr>purge_list := [], send_list := [], hold_list := [], send_pool := None, proxies := [],
        proxy_mem := detach_proxies (proxies b) (proxy_mem b)\<rparr>"
  by (simp add: beam_send_cleanup_def Let_def r_purge_sent_def h2_blist_cleanup_def
      report_consumption_eq)

lemma send_cleanup_twice:
  "proxies b = [] \<Longrightarrow> purge_list b = [] \<Longrightarrow> send_list b = [] \<Longrightarrow> hold_list b = [] \<Longrightarrow>
   send_pool b = None \<Longrightarrow> received_bytes b = reported_consumed_bytes b \<Longrightarrow>
   beam_send_cleanup b = b"
  by (simp add: beam_send_cleanup_eq report_consumption_eq)

lemma destroy_twice:
  assumes "h2_beam_destroy b = Ret (st, b')"
  shows "h2_beam_destroy b' = Ret (st, b')"
proof (cases "owner b")
  case H2_BEAM_OWNER_SEND
  then have own: "owner (beam_close b) = H2_BEAM_OWNER_SEND" by (simp add: beam_close_def)
  have b': "b' = (beam_send_cleanup (beam_close b))\<lparr>recv_buffer := None, recv_pool := None\<rparr>"
    and st: "st = APR_SUCCESS"
    using assms own by (simp_all add: h2_beam_destroy_def beam_cleanup_def Let_def)
  have p: "proxies b' = []" "purge_list b' = []" "send_list b' = []" "hold_list b' = []"
    "send_pool b' = None" "received_bytes b' = reported_consumed_bytes b'" "closed b'"
    "owner b' = H2_BEAM_OWNER_SEND" "recv_buffer b' = None" "recv_pool b' = None"
    using H2_BEAM_OWNER_SEND
    by (simp_all add: b' beam_send_cleanup_eq report_consumption_eq beam_close_def)
  have c: "beam_close b' = b'" using p by (simp add: beam_close_def)
  have s: "beam_send_cleanup b' = b'" using p by (simp add: send_cleanup_twice)
  show ?thesis
    using p by (simp add: h2_beam_destroy_def beam_cleanup_def Let_def c s st)
next
  case H2_BEAM_OWNER_RECV
  define beam1 where "beam1 = beam_close b"
  have own: "owner beam1 = H2_BEAM_OWNER_RECV" and cl: "closed beam1"
    using H2_BEAM_OWNER_RECV by (simp_all add: beam1_def beam_close_def)
  obtain beam2 where b2: "(case recv_buffer beam1 of Some gs \<Rightarrow> brigade_cleanup beam1 gs
                            | None \<Rightarrow> Ret beam1) = Ret beam2"
    using assms own
    by (auto simp: h2_beam_destroy_def beam_cleanup_def Let_def beam1_def [symmetric]
        split: outcome.splits)
  have "\<exists>ps pm h pu. beam2 = beam1\<lparr>proxies := ps, proxy_mem := pm, hold_list := h, purge_list := pu\<rparr>"
  proof (cases "recv_buffer beam1")
    case None
    then have "beam2 = beam1\<lparr>proxies := proxies beam1, proxy_mem := proxy_mem beam1,
        hold_list := hold_list beam1, purge_list := purge_list beam1\<rparr>" using b2 by simp
    then show ?thesis by blast
  next
    case (Some gs)
    then show ?thesis using b2 cleanup_frame by simp
  qed
  then obtain ps pm h pu where
    f2: "beam2 = beam1\<lparr>proxies := ps, proxy_mem := pm, hold_list := h, purge_list := pu\<rparr>"
    by blast
  define beam3 where "beam3 = beam2\<lparr>recv_buffer := None, recv_pool := None\<rparr>"
  have p3: "owner beam3 = H2_BEAM_OWNER_RECV" "closed beam3" "recv_buffer beam3 = None"
    "recv_pool beam3 = None"
    using own cl by (simp_all add: beam3_def f2)
  have fin: "st = APR_SUCCESS \<and> proxies b' = [] \<and> send_list b' = [] \<and> hold_list b' = []
      \<and> purge_list b' = []
      \<and> ((send_pool beam3 \<noteq> None \<and> b' = beam_send_cleanup beam3)
          \<or> (b' = beam3 \<and> send_pool beam3 = None))"
    using assms own b2
    by (auto simp: h2_beam_destroy_def beam_cleanup_def Let_def beam1_def [symmetric]
        beam3_def [symmetric] split: outcome.splits if_splits)
  have p: "owner b' = H2_BEAM_OWNER_RECV" "closed b'" "recv_buffer b' = None"
    "recv_pool b' = None" "send_pool b' = None"
    using fin p3 by (auto simp: beam_send_cleanup_eq report_consumption_eq)
  have c: "beam_close b' = b'" using p by (simp add: beam_close_def)
  have r: "b'\<lparr>recv_buffer := None, recv_pool := None\<rparr> = b'" using p by simp
  show ?thesis
    using p fin by (simp add: h2_beam_destroy_def beam_cleanup_def Let_def c r)
qed

text \<open>
  C9. A second close, a second abort and a second destroy change nothing: the second
  call gives the state (and the status) of the first. In every state in which an
  abort, if there was one, has reported the consumption, close then abort and abort
  then close both leave a beam that is observably equal to the one abort alone
  leaves. Every state that operations reach from creation is such a state
  (\<open>reached_abort_reported\<close> below).
\<close>

theorem close_abort_destroy_idempotent:
  "h2_beam_close (snd (h2_beam_close b)) = h2_beam_close b
   \<and> h2_beam_abort (h2_beam_abort b) = h2_beam_abort b
   \<and> (\<forall>st b'. h2_beam_destroy b = Ret (st, b') \<longrightarrow> h2_beam_destroy b' = Ret (st, b'))
   \<and> ((aborted b \<longrightarrow> received_bytes b = reported_consumed_bytes b) \<longrightarrow>
        observably_equal (h2_beam_abort (snd (h2_beam_close b))) (h2_beam_abort b)
        \<and> observably_equal (snd (h2_beam_close (h2_beam_abort b))) (h2_beam_abort b))"
  using close_twice abort_twice destroy_twice close_then_abort abort_then_close by blast

text \<open>
  The statement at \<open>hold_beam\<close>, which is not aborted and whose destroy returns.
\<close>

theorem close_abort_destroy_idempotent_witness:
  "h2_beam_destroy hold_beam =
     Ret (APR_SUCCESS,
          (beam_send_cleanup (beam_close hold_beam))\<lparr>recv_buffer := None, recv_pool := None\<rparr>)
   \<and> h2_beam_destroy
        ((beam_send_cleanup (beam_close hold_beam))\<lparr>recv_buffer := None, recv_pool := None\<rparr>) =
     Ret (APR_SUCCESS,
          (beam_send_cleanup (beam_close hold_beam))\<lparr>recv_buffer := None, recv_pool := None\<rparr>)
   \<and> \<not> aborted hold_beam
   \<and> observably_equal (h2_beam_abort (snd (h2_beam_close hold_beam))) (h2_beam_abort hold_beam)
   \<and> observably_equal (snd (h2_beam_close (h2_beam_abort hold_beam))) (h2_beam_abort hold_beam)"
proof -
  have own: "owner hold_beam = H2_BEAM_OWNER_SEND" and na: "\<not> aborted hold_beam"
    by (simp_all add: hold_beam_def locked_beam_eq h2_beam_create_def)
  have des: "h2_beam_destroy hold_beam =
      Ret (APR_SUCCESS,
           (beam_send_cleanup (beam_close hold_beam))\<lparr>recv_buffer := None, recv_pool := None\<rparr>)"
    using own by (simp add: h2_beam_destroy_def beam_cleanup_def Let_def beam_close_def)
  show ?thesis
    using close_abort_destroy_idempotent [of hold_beam] des na by blast
qed

section \<open>Receive: stages of a pass, and file buckets\<close>

lemma sched_keeps_Nil [simp]: "sched_keeps P []"
  by (simp add: sched_keeps_def)

lemma sched_keeps_Cons [simp]:
  "sched_keeps P (w # ws) =
     ((case w of Elapse \<Rightarrow> True | Signal f \<Rightarrow> (\<forall>b. P b \<longrightarrow> P (f b))) \<and> sched_keeps P ws)"
  by (simp add: sched_keeps_def)

lemma wait_cond_keeps:
  "wait_cond b sched = Ret (st, b', sched') \<Longrightarrow> P b \<Longrightarrow> sched_keeps P sched \<Longrightarrow>
   P b' \<and> sched_keeps P sched'"
  by (induction b sched rule: wait_cond.induct) (auto split: if_splits)

lemma wait_cond_timeup:
  "wait_cond b sched = Ret (APR_TIMEUP, b', sched') \<Longrightarrow> b' = b"
  by (induction b sched rule: wait_cond.induct) (auto split: if_splits)

lemma recv_pass_steps:
  assumes "\<not> aborted beam"
    and "recv_pass env beam bb block readbytes remain transferred mutex = Ret (st, b', bb', r', t')"
  obtains (leave) beam2 bbl2 remain2 tr2 status where
      "recv_stage1 beam bb readbytes remain transferred = (beam2, bbl2, remain2, tr2)"
      "recv_send_loop env (brigade_p bb) readbytes (send_list beam2) beam2 bbl2 remain2 tr2 =
         (status, b', brigade_list bb', r', t')"
      "status \<noteq> APR_SUCCESS" "st = Some status" "bb' = bb\<lparr>brigade_list := brigade_list bb'\<rparr>"
  | (finish) beam2 bbl2 remain2 tr2 beam3 bbl3 remain3 tr3 beam4 bbl4 where
      "recv_stage1 beam bb readbytes remain transferred = (beam2, bbl2, remain2, tr2)"
      "recv_send_loop env (brigade_p bb) readbytes (send_list beam2) beam2 bbl2 remain2 tr2 =
         (APR_SUCCESS, beam3, bbl3, remain3, tr3)"
      "recv_put_back env beam3 readbytes bbl3 remain3 = Ret (beam4, bbl4, r')"
      "recv_close_step beam4 bbl4 tr3 = (b', brigade_list bb', t')"
      "bb' = bb\<lparr>brigade_list := brigade_list bb'\<rparr>"
      "st = (if t' \<noteq> 0 then Some APR_SUCCESS
             else if closed b' then Some APR_EOF
             else if block = APR_BLOCK_READ \<and> mutex \<and> m_cond b' then None
             else Some APR_EAGAIN)"
proof -
  obtain beam2 bbl2 remain2 tr2 where
    s1: "recv_stage1 beam bb readbytes remain transferred = (beam2, bbl2, remain2, tr2)"
    by (cases "recv_stage1 beam bb readbytes remain transferred") auto
  obtain status beam3 bbl3 remain3 tr3 where
    s2: "recv_send_loop env (brigade_p bb) readbytes (send_list beam2) beam2 bbl2 remain2 tr2 =
         (status, beam3, bbl3, remain3, tr3)"
    by (cases "recv_send_loop env (brigade_p bb) readbytes (send_list beam2) beam2 bbl2 remain2 tr2")
      auto
  have unf: "recv_pass env beam bb block readbytes remain transferred mutex =
     (if status \<noteq> APR_SUCCESS then
        Ret (Some status, beam3, bb\<lparr>brigade_list := bbl3\<rparr>, remain3, tr3)
      else
        (case recv_put_back env beam3 readbytes bbl3 remain3 of
           Blocked \<Rightarrow> Blocked
         | Crash \<Rightarrow> Crash
         | Ret (beam4, bbl4, remain4) \<Rightarrow>
             (case recv_close_step beam4 bbl4 tr3 of
                (beam5, bbl5, transferred5) \<Rightarrow>
                  (let bb5 = bb\<lparr>brigade_list := bbl5\<rparr>
                   in if transferred5 \<noteq> 0 then
                        Ret (Some APR_SUCCESS, beam5, bb5, remain4, transferred5)
                      else if closed beam5 then
                        Ret (Some APR_EOF, beam5, bb5, remain4, transferred5)
                      else if block = APR_BLOCK_READ \<and> mutex \<and> m_cond beam5 then
                        Ret (None, beam5, bb5, remain4, transferred5)
                      else
                        Ret (Some APR_EAGAIN, beam5, bb5, remain4, transferred5)))))"
    using assms(1) s1 s2
    by (simp add: recv_pass_def recv_stage1_def Let_def split: option.splits prod.splits)
  show ?thesis
  proof (cases "status = APR_SUCCESS")
    case False
    then show ?thesis
      using assms(2) unf s1 s2 leave by auto
  next
    case True
    then obtain beam4 bbl4 remain4 where
      pb: "recv_put_back env beam3 readbytes bbl3 remain3 = Ret (beam4, bbl4, remain4)"
      using assms(2) unf by (auto split: outcome.splits)
    obtain beam5 bbl5 tr5 where cs: "recv_close_step beam4 bbl4 tr3 = (beam5, bbl5, tr5)"
      by (cases "recv_close_step beam4 bbl4 tr3") auto
    show ?thesis
      using assms(2) unf s1 s2 True pb cs
      by (intro finish [of beam2 bbl2 remain2 tr2 beam3 bbl3 remain3 tr3 beam4 bbl4])
         (auto simp: Let_def split: if_splits)
  qed
qed


lemma recv_transfer_keeps:
  "recv_transfer env beam bb block readbytes remain transferred mutex sched = Ret (st, beam', bb')
   \<Longrightarrow> (\<forall>b bb remain tr st b' bb' r' t'.
          P b \<longrightarrow> recv_pass env b bb block readbytes remain tr mutex = Ret (st, b', bb', r', t')
          \<longrightarrow> P b')
   \<Longrightarrow> P beam \<Longrightarrow> sched_keeps P sched \<Longrightarrow> P beam'"
proof (induction env beam bb block readbytes remain transferred mutex sched
    rule: recv_transfer.induct)
  case (1 env beam bb block readbytes remain transferred mutex sched)
  note pass = "1.prems"(2)
  from "1.prems"(1) obtain sto b1 bb1 r1 t1 where
    p: "recv_pass env beam bb block readbytes remain transferred mutex = Ret (sto, b1, bb1, r1, t1)"
    by (subst (asm) recv_transfer.simps) (auto split: outcome.splits)
  have P1: "P b1" using pass "1.prems"(3) p by blast
  show ?case
  proof (cases sto)
    case (Some s)
    then have "beam' = b1" using "1.prems"(1) p
      by (subst (asm) recv_transfer.simps) simp
    then show ?thesis using P1 by simp
  next
    case None
    then obtain s2 b2 sched2 where w: "wait_cond b1 sched = Ret (s2, b2, sched2)"
      using "1.prems"(1) p
      by (subst (asm) recv_transfer.simps) (auto split: outcome.splits)
    from wait_cond_keeps [OF w P1 "1.prems"(4)] have P2: "P b2" and k2: "sched_keeps P sched2"
      by simp_all
    show ?thesis
    proof (cases "s2 = APR_SUCCESS")
      case True
      then have "recv_transfer env b2 bb1 block readbytes r1 t1 mutex sched2 = Ret (st, beam', bb')"
        using "1.prems"(1) p None w
        by (subst (asm) recv_transfer.simps) simp
      from "1.IH" [OF p refl None refl refl refl w refl refl _ this pass P2 k2] True
      show ?thesis by simp
    next
      case False
      then have "beam' = b2" using "1.prems"(1) p None w
        by (subst (asm) recv_transfer.simps) simp
      then show ?thesis using P2 by simp
    qed
  qed
qed


lemma recv_stage1_frame:
  "recv_stage1 beam bb readbytes remain tr = (beam2, bbl2, remain2, tr2) \<Longrightarrow>
   \<exists>rp rb. beam2 = beam\<lparr>recv_pool := rp, recv_buffer := rb\<rparr>"
proof -
  assume a: "recv_stage1 beam bb readbytes remain tr = (beam2, bbl2, remain2, tr2)"
  have b1: "\<exists>rp. beam_set_recv_pool beam p = beam\<lparr>recv_pool := rp\<rparr>" for p
  proof (cases "owner beam = H2_BEAM_OWNER_SEND \<and> recv_pool beam \<noteq> p")
    case True
    then show ?thesis by (auto simp: beam_set_recv_pool_def)
  next
    case False
    then have "beam_set_recv_pool beam p = beam\<lparr>recv_pool := recv_pool beam\<rparr>"
      by (auto simp: beam_set_recv_pool_def)
    then show ?thesis by blast
  qed
  obtain rp where rp: "beam_set_recv_pool beam (Some (brigade_p bb)) = beam\<lparr>recv_pool := rp\<rparr>"
    using b1 by blast
  have "beam2 = beam\<lparr>recv_pool := rp, recv_buffer := recv_buffer beam2\<rparr>"
    using a unfolding recv_stage1_def Let_def rp
    by (auto split: option.splits prod.splits)
  then show ?thesis by blast
qed

lemma recv_file_frame:
  "recv_file env bbp beam r rest bbl remain tr = (st, beam', bbl', remain', tr') \<Longrightarrow>
   beam' = beam \<or>
   (\<exists>fb. beam' = beam\<lparr>files_beamed := fb, send_list := rest, hold_list := hold_list beam @ [r]\<rparr>)"
proof -
  assume a: "recv_file env bbp beam r rest bbl remain tr = (st, beam', bbl', remain', tr')"
  show ?thesis
  proof (cases "st = APR_SUCCESS")
    case False
    then show ?thesis using a
      by (auto simp: recv_file_def Let_def split: prod.splits if_splits)
  next
    case True
    then have "beam' = beam\<lparr>files_beamed := files_beamed beam', send_list := rest,
        hold_list := hold_list beam @ [r]\<rparr>"
      using a by (auto simp: recv_file_def Let_def split: prod.splits if_splits)
    then show ?thesis by blast
  qed
qed

lemma recv_put_back_frame:
  assumes "recv_put_back env beam readbytes bbl remain = Ret (beam', bbl', remain')"
  shows "\<exists>ps pm h pu rb. beam' = beam\<lparr>proxies := ps, proxy_mem := pm, hold_list := h,
            purge_list := pu, recv_buffer := rb\<rparr>"
proof -
  have triv: "\<exists>ps pm h pu rb. beam = beam\<lparr>proxies := ps, proxy_mem := pm, hold_list := h,
            purge_list := pu, recv_buffer := rb\<rparr>"
  proof -
    have "beam = beam\<lparr>proxies := proxies beam, proxy_mem := proxy_mem beam,
        hold_list := hold_list beam, purge_list := purge_list beam,
        recv_buffer := recv_buffer beam\<rparr>" by simp
    then show ?thesis by blast
  qed
  show ?thesis
  proof (cases "0 <s readbytes \<and> remain <s 0")
    case False
    then have "beam' = beam" using assms by (auto simp: recv_put_back_def)
    then show ?thesis using triv by simp
  next
    case True
    show ?thesis
    proof (cases "find_overshoot bbl readbytes")
      case (Inl r)
      then have "beam' = beam" using assms True by (auto simp: recv_put_back_def)
      then show ?thesis using triv by simp
    next
      case (Inr t)
      obtain pre g post r where t: "t = (pre, g, post, r)" by (cases t) auto
      obtain g' ins beam1 where
        gs: "green_split env beam g (blength g + r) = Ret (g', ins, beam1)"
        using assms True Inr t by (auto simp: recv_put_back_def split: outcome.splits)
      have f1: "\<exists>pm. beam1 = beam\<lparr>proxy_mem := pm\<rparr>"
      proof -
        have "beam1 = beam\<lparr>proxy_mem := proxy_mem beam1\<rparr>"
          using gs
          by (auto simp: green_split_def proxy_store_def
              split: if_splits option.splits prod.splits)
        then show ?thesis by blast
      qed
      then obtain pm1 where b1: "beam1 = beam\<lparr>proxy_mem := pm1\<rparr>" by blast
      obtain beam2 where
        c: "(case recv_buffer beam1 of
               Some old \<Rightarrow> (if old \<noteq> [] then brigade_cleanup beam1 old else Ret beam1)
             | None \<Rightarrow> Ret beam1) = Ret beam2"
        and fin: "beam' = beam2\<lparr>recv_buffer := Some (ins @ post)\<rparr>"
        using assms True Inr t gs by (auto simp: recv_put_back_def split: outcome.splits)
      have "\<exists>ps pm h pu. beam2 = beam1\<lparr>proxies := ps, proxy_mem := pm, hold_list := h,
          purge_list := pu\<rparr>"
      proof (cases "\<exists>old. recv_buffer beam1 = Some old \<and> old \<noteq> []")
        case True
        then show ?thesis using c cleanup_frame by auto
      next
        case False
        then have "beam2 = beam1" using c by (auto split: option.splits if_splits)
        then have "beam2 = beam1\<lparr>proxies := proxies beam1, proxy_mem := proxy_mem beam1,
            hold_list := hold_list beam1, purge_list := purge_list beam1\<rparr>" by simp
        then show ?thesis by blast
      qed
      then obtain ps pm h pu where
        b2: "beam2 = beam1\<lparr>proxies := ps, proxy_mem := pm, hold_list := h, purge_list := pu\<rparr>"
        by blast
      have "beam' = beam\<lparr>proxies := ps, proxy_mem := pm, hold_list := h, purge_list := pu,
          recv_buffer := Some (ins @ post)\<rparr>"
        unfolding fin b2 b1 by simp
      then show ?thesis by blast
    qed
  qed
qed

lemma recv_close_step_frame:
  "recv_close_step beam bbl tr = (beam', bbl', tr') \<Longrightarrow>
   \<exists>cs n. beam' = beam\<lparr>close_sent := cs, close_eos_made := n\<rparr>"
proof -
  assume a: "recv_close_step beam bbl tr = (beam', bbl', tr')"
  have "beam' = beam\<lparr>close_sent := close_sent beam', close_eos_made := close_eos_made beam'\<rparr>"
    using a by (auto simp: recv_close_step_def split: if_splits)
  then show ?thesis by blast
qed

lemma recv_pass_aborted:
  assumes "aborted beam"
    and "recv_pass env beam bb block readbytes remain tr mutex = Ret (st, b', bb', r', t')"
  shows "st = Some APR_ECONNABORTED \<and> bb' = bb \<and> r' = remain \<and> t' = tr
       \<and> (recv_buffer b' = None \<or> recv_buffer b' = Some [])
       \<and> (\<exists>ps pm h pu rb. b' = beam\<lparr>proxies := ps, proxy_mem := pm, hold_list := h,
            purge_list := pu, recv_buffer := rb\<rparr>)"
proof (cases "\<exists>gs. recv_buffer beam = Some gs \<and> gs \<noteq> []")
  case False
  then have e: "b' = beam" "st = Some APR_ECONNABORTED" "bb' = bb" "r' = remain" "t' = tr"
    using assms by (auto simp: recv_pass_def split: option.splits if_splits)
  have "b' = beam\<lparr>proxies := proxies beam, proxy_mem := proxy_mem beam,
        hold_list := hold_list beam, purge_list := purge_list beam,
        recv_buffer := recv_buffer beam\<rparr>" using e by simp
  then have "\<exists>ps pm h pu rb. b' = beam\<lparr>proxies := ps, proxy_mem := pm, hold_list := h,
            purge_list := pu, recv_buffer := rb\<rparr>" by blast
  then show ?thesis using e False by (cases "recv_buffer beam") auto
next
  case True
  then obtain gs where gs: "recv_buffer beam = Some gs" "gs \<noteq> []" by blast
  then obtain b1 where c: "brigade_cleanup beam gs = Ret b1"
    and e: "b' = b1\<lparr>recv_buffer := Some []\<rparr>" "st = Some APR_ECONNABORTED" "bb' = bb"
      "r' = remain" "t' = tr"
    using assms by (auto simp: recv_pass_def split: outcome.splits)
  from cleanup_frame [OF c] obtain ps pm h pu where
    "b1 = beam\<lparr>proxies := ps, proxy_mem := pm, hold_list := h, purge_list := pu\<rparr>" by blast
  then have "b' = beam\<lparr>proxies := ps, proxy_mem := pm, hold_list := h, purge_list := pu,
      recv_buffer := Some []\<rparr>" using e by simp
  then have "\<exists>ps pm h pu rb. b' = beam\<lparr>proxies := ps, proxy_mem := pm, hold_list := h,
            purge_list := pu, recv_buffer := rb\<rparr>" by blast
  then show ?thesis using e by auto
qed

section \<open>Send: admission and splitting\<close>

text \<open>
  C2, as claimed, fails for a heap bucket. On a fresh beam with \<open>max_buf_size\<close> 10000
  the space left is 10000; a heap bucket of 20000 bytes, longer than the space left
  and than the 8000 of \<^verbatim>\<open>APR_BUCKET_BUFF_SIZE\<close>, is admitted whole: the send list
  holds all 20000 bytes and nothing stays in the producer's brigade.
\<close>

theorem append_heap_admitted_whole:
  "calc_space_left (h2_beam_create 0 H2_BEAM_OWNER_SEND 10000) = 10000
   \<and> append_bucket plain_env (h2_beam_create 0 H2_BEAM_OWNER_SEND 10000)
        (red_bucket 1 BT_HEAP 20000) [] APR_NONBLOCK_READ False [] =
      Ret (APR_SUCCESS,
           (h2_beam_create 0 H2_BEAM_OWNER_SEND 10000)
             \<lparr>send_list := [red_bucket 1 BT_HEAP 20000], sent_bytes := 20000\<rparr>,
           [], [])"
  by (simp add: append_bucket_def append_space_def append_normalize_def r_wait_space_def
      r_wait_space_loop.simps calc_space_left_def calc_buffered_def h2_beam_create_def
      red_bucket_def APR_BUCKET_IS_METADATA_def APR_BUCKET_IS_FILE_def
      APR_BUCKET_IS_TRANSIENT_def APR_BUCKET_IS_HEAP_def Let_def)

text \<open>
  C2, amended. Let the space check of a data bucket (not metadata, not file) succeed
  with \<open>space_left\<close>. A heap bucket is then admitted whole. A bucket of a kind the
  beam does not know is split only on this path: when it is longer than the larger
  of \<open>space_left\<close> and \<^verbatim>\<open>APR_BUCKET_BUFF_SIZE\<close>, it is split there, the head is read,
  set aside and admitted, and the tail stays first in the producer's brigade; when it
  is not longer, it is read, set aside and admitted without a split.
\<close>

theorem append_bucket_split_fallback:
  assumes data: "\<not> APR_BUCKET_IS_METADATA b" "\<not> APR_BUCKET_IS_FILE b"
    and adm: "append_space env beam b block mutex sched =
                Ret (APR_SUCCESS, beam1, b1, ins1, space_left, sched1)"
  shows "(btype b1 = BT_HEAP \<longrightarrow>
            append_bucket env beam b rest block mutex sched =
              Ret (APR_SUCCESS,
                   beam1\<lparr>send_list := send_list beam1 @ [b1],
                         sent_bytes := sent_bytes beam1 + blength b1\<rparr>,
                   ins1 @ rest, sched1))
       \<and> (\<forall>st h tl data h' ins st' h''.
            btype b1 = BT_OTHER \<longrightarrow>
            max space_left (APR_BUCKET_BUFF_SIZE env) < blength b1 \<longrightarrow>
            apr_bucket_split env b1 (max space_left (APR_BUCKET_BUFF_SIZE env)) = (st, h, tl) \<longrightarrow>
            apr_bucket_read env h = (APR_SUCCESS, data, h', ins) \<longrightarrow>
            apr_bucket_setaside env h' (send_pool beam1) = (st', h'') \<longrightarrow>
            (st' = APR_SUCCESS \<or> st' = APR_ENOTIMPL) \<longrightarrow>
            append_bucket env beam b rest block mutex sched =
              Ret (APR_SUCCESS,
                   beam1\<lparr>send_list := send_list beam1 @ [h''],
                         sent_bytes := sent_bytes beam1 + blength h''\<rparr>,
                   ins @ tl @ ins1 @ rest, sched1))
       \<and> (\<forall>data b' ins st' b''.
            btype b1 = BT_OTHER \<longrightarrow>
            blength b1 \<le> max space_left (APR_BUCKET_BUFF_SIZE env) \<longrightarrow>
            apr_bucket_read env b1 = (APR_SUCCESS, data, b', ins) \<longrightarrow>
            apr_bucket_setaside env b' (send_pool beam1) = (st', b'') \<longrightarrow>
            (st' = APR_SUCCESS \<or> st' = APR_ENOTIMPL) \<longrightarrow>
            append_bucket env beam b rest block mutex sched =
              Ret (APR_SUCCESS,
                   beam1\<lparr>send_list := send_list beam1 @ [b''],
                         sent_bytes := sent_bytes beam1 + blength b''\<rparr>,
                   ins @ ins1 @ rest, sched1))"
proof -
  define point where "point = max space_left (APR_BUCKET_BUFF_SIZE env)"
  have mx: "(if space_left < APR_BUCKET_BUFF_SIZE env then APR_BUCKET_BUFF_SIZE env
             else space_left) = point"
    by (auto simp: max_def point_def)
  have heap: "btype b1 = BT_HEAP \<Longrightarrow>
      append_bucket env beam b rest block mutex sched =
        Ret (APR_SUCCESS,
             beam1\<lparr>send_list := send_list beam1 @ [b1],
                   sent_bytes := sent_bytes beam1 + blength b1\<rparr>,
             ins1 @ rest, sched1)"
    using data adm
    by (simp add: append_bucket_def append_normalize_def Let_def
        APR_BUCKET_IS_TRANSIENT_def APR_BUCKET_IS_HEAP_def)
  have other: "btype b1 = BT_OTHER \<Longrightarrow>
      append_bucket env beam b rest block mutex sched =
        (case append_fallback env beam1 b1 space_left of
           (status3, b3, ins3) \<Rightarrow>
             (if status3 \<noteq> APR_SUCCESS \<and> status3 \<noteq> APR_ENOTIMPL then
                Ret (status3, beam1, b3 # ins3 @ ins1 @ rest, sched1)
              else
                Ret (APR_SUCCESS,
                     beam1\<lparr>send_list := send_list beam1 @ [b3],
                           sent_bytes := sent_bytes beam1 + blength b3\<rparr>,
                     ins3 @ ins1 @ rest, sched1)))"
    using data adm
    by (simp add: append_bucket_def append_normalize_def Let_def
        APR_BUCKET_IS_TRANSIENT_def APR_BUCKET_IS_HEAP_def APR_BUCKET_IS_POOL_def
        APR_BUCKET_IS_FILE_def split: prod.splits)
  have split: "point < blength b1 \<Longrightarrow> apr_bucket_split env b1 point = (st, h, tl) \<Longrightarrow>
      apr_bucket_read env h = (APR_SUCCESS, data, h', ins) \<Longrightarrow>
      apr_bucket_setaside env h' (send_pool beam1) = (st', h'') \<Longrightarrow>
      append_fallback env beam1 b1 space_left = (st', h'', ins @ tl)"
    for st h tl data h' ins st' h''
    by (simp add: append_fallback_def Let_def mx)
  have whole: "blength b1 \<le> point \<Longrightarrow>
      apr_bucket_read env b1 = (APR_SUCCESS, data, b', ins) \<Longrightarrow>
      apr_bucket_setaside env b' (send_pool beam1) = (st', b'') \<Longrightarrow>
      append_fallback env beam1 b1 space_left = (st', b'', ins)"
    for data b' ins st' b''
    by (auto simp: append_fallback_def Let_def mx)
  show ?thesis
    unfolding point_def [symmetric]
    using heap other split whole by auto
qed

text \<open>
  The amended statement at a bucket of unknown kind of 20000 bytes on the beam with
  \<open>max_buf_size\<close> 10000: the head of 10000 bytes is admitted and the tail of 10000
  bytes stays in the brigade.
\<close>

theorem append_bucket_split_fallback_witness:
  "append_bucket plain_env (h2_beam_create 0 H2_BEAM_OWNER_SEND 10000)
      (red_bucket 1 BT_OTHER 20000) [] APR_NONBLOCK_READ False [] =
     Ret (APR_SUCCESS,
          (h2_beam_create 0 H2_BEAM_OWNER_SEND 10000)
            \<lparr>send_list := [red_bucket 1 BT_OTHER 10000], sent_bytes := 10000\<rparr>,
          [(red_bucket 1001 BT_OTHER 10000)\<lparr>bstart := 10000\<rparr>], [])"
proof -
  define B where "B = h2_beam_create 0 H2_BEAM_OWNER_SEND 10000"
  define b where "b = red_bucket 1 BT_OTHER 20000"
  have data: "\<not> APR_BUCKET_IS_METADATA b" "\<not> APR_BUCKET_IS_FILE b"
    by (simp_all add: b_def red_bucket_def APR_BUCKET_IS_METADATA_def APR_BUCKET_IS_FILE_def)
  have adm: "append_space plain_env B b APR_NONBLOCK_READ False [] =
      Ret (APR_SUCCESS, B, b, [], 10000, [])"
    by (simp add: append_space_def r_wait_space_def r_wait_space_loop.simps calc_space_left_def
        calc_buffered_def B_def b_def h2_beam_create_def red_bucket_def Let_def)
  have pt: "max (10000 :: apr_size_t) (APR_BUCKET_BUFF_SIZE plain_env) = 10000"
    by (simp add: plain_env_def)
  have sp: "apr_bucket_split plain_env b 10000 =
      (APR_SUCCESS, red_bucket 1 BT_OTHER 10000,
       [(red_bucket 1001 BT_OTHER 10000)\<lparr>bstart := 10000\<rparr>])"
    by (simp add: plain_env_def b_def red_bucket_def)
  have rd: "apr_bucket_read plain_env (red_bucket 1 BT_OTHER 10000) =
      (APR_SUCCESS, replicate 10000 0, red_bucket 1 BT_OTHER 10000, [])"
    by (simp add: plain_env_def red_bucket_def)
  have sa: "apr_bucket_setaside plain_env (red_bucket 1 BT_OTHER 10000) (send_pool B) =
      (APR_SUCCESS, red_bucket 1 BT_OTHER 10000)"
    by (simp add: plain_env_def red_bucket_def)
  have ty: "btype b = BT_OTHER" "(10000 :: apr_size_t) < blength b"
    by (simp_all add: b_def red_bucket_def)
  from append_bucket_split_fallback [OF data adm, of "[]"] ty pt sp rd sa
  have "append_bucket plain_env B b [] APR_NONBLOCK_READ False [] =
     Ret (APR_SUCCESS,
          B\<lparr>send_list := send_list B @ [red_bucket 1 BT_OTHER 10000],
            sent_bytes := sent_bytes B + blength (red_bucket 1 BT_OTHER 10000)\<rparr>,
          [] @ [(red_bucket 1001 BT_OTHER 10000)\<lparr>bstart := 10000\<rparr>] @ [] @ [], [])"
    by simp
  then show ?thesis
    by (simp add: B_def b_def h2_beam_create_def red_bucket_def)
qed

section \<open>Waits that time out\<close>

lemma full_beam_space: "calc_space_left full_beam = 0"
  by (simp add: full_beam_def calc_space_left_def calc_buffered_def locked_beam_eq
      h2_beam_create_def red_bucket_def APR_BUCKET_IS_FILE_def Let_def)

text \<open>
  C8, as claimed, fails for send. On \<open>full_beam\<close> a blocking send of one byte finds no
  space and waits; the wait times out. The wait itself hands the beam back as it was,
  but the send then runs its reports, and \<open>reported_consumed_bytes\<close> is 2 where it
  was 0 when the wait began.
\<close>

theorem send_timeout_reports_consumption:
  "r_wait_space full_beam APR_BLOCK_READ True [Elapse] = Ret (APR_TIMEUP, full_beam, 0, [])
   \<and> h2_beam_send plain_env 1 full_beam (Some (brigade 1 [red_bucket 3 BT_HEAP 1]))
        APR_BLOCK_READ [Elapse] =
      Ret (APR_TIMEUP, full_beam\<lparr>reported_consumed_bytes := 2\<rparr>,
           Some (brigade 1 [red_bucket 3 BT_HEAP 1]))
   \<and> reported_consumed_bytes full_beam = 0"
proof -
  have rp: "report_production full_beam True = full_beam"
    by (simp add: report_production_eq full_beam_def locked_beam_eq h2_beam_create_def)
  have w: "wait_cond full_beam [Elapse] = Ret (APR_TIMEUP, full_beam, [])"
    by (simp add: full_beam_def locked_beam_eq h2_beam_create_def word_sless_alt)
  have na: "\<not> aborted full_beam" "m_cond full_beam" "0 <s timeout full_beam"
    by (simp_all add: full_beam_def locked_beam_eq h2_beam_create_def word_sless_alt)
  have a: "r_wait_space full_beam APR_BLOCK_READ True [Elapse] = Ret (APR_TIMEUP, full_beam, 0, [])"
    by (simp add: r_wait_space_def r_wait_space_loop.simps full_beam_space rp w na)
  have e: "enter_yellow full_beam = (APR_SUCCESS, True)"
    by (simp add: full_beam_def locked_beam_eq h2_beam_create_def enter_yellow_def)
  have p: "r_purge_sent full_beam = full_beam"
    "\<And>pl. beam_set_send_pool full_beam pl = full_beam"
    by (simp_all add: full_beam_def locked_beam_eq h2_beam_create_def r_purge_sent_def
        beam_set_send_pool_def)
  have ab: "append_bucket plain_env full_beam (red_bucket 3 BT_HEAP 1) [] APR_BLOCK_READ True
      [Elapse] = Ret (APR_TIMEUP, full_beam, [red_bucket 3 BT_HEAP 1], [])"
    by (simp add: append_bucket_def append_space_def full_beam_space a Let_def)
       (simp add: red_bucket_def APR_BUCKET_IS_METADATA_def APR_BUCKET_IS_FILE_def)
  have rc: "report_consumption full_beam False = full_beam\<lparr>reported_consumed_bytes := 2\<rparr>"
    by (simp add: report_consumption_eq full_beam_def locked_beam_eq h2_beam_create_def)
  have b: "h2_beam_send plain_env 1 full_beam (Some (brigade 1 [red_bucket 3 BT_HEAP 1]))
        APR_BLOCK_READ [Elapse] =
      Ret (APR_TIMEUP, full_beam\<lparr>reported_consumed_bytes := 2\<rparr>,
           Some (brigade 1 [red_bucket 3 BT_HEAP 1]))"
    by (simp add: h2_beam_send_def e p na brigade_def ab rp rc Let_def)
  have c: "reported_consumed_bytes full_beam = 0"
    by (simp add: full_beam_def locked_beam_eq h2_beam_create_def)
  show ?thesis using a b c by simp
qed

section \<open>Send and receive after abort\<close>

lemma emitted_scan_keeps:
  "x \<in> set hold \<Longrightarrow> bid x \<noteq> a \<Longrightarrow> \<not> APR_BUCKET_IS_METADATA x \<Longrightarrow>
   x \<in> set (fst (emitted_scan hold a))"
  by (induction hold) (auto split: prod.splits)

lemma proxies_soundD:
  "proxies_sound b \<Longrightarrow> i < length (proxy_mem b) \<Longrightarrow> bred (proxy_mem b ! i) = Some a \<Longrightarrow>
   (\<exists>x \<in> set (hold_list b). bid x = a \<and> \<not> APR_BUCKET_IS_METADATA x)
   \<and> (\<forall>j < length (proxy_mem b). j \<noteq> i \<longrightarrow> bred (proxy_mem b ! j) \<noteq> Some a)"
  unfolding proxies_sound_def by blast

lemma proxies_sound_cong:
  "proxies_sound b \<Longrightarrow> hold_list b' = hold_list b \<Longrightarrow>
   length (proxy_mem b') = length (proxy_mem b) \<Longrightarrow>
   (\<And>i. i < length (proxy_mem b) \<Longrightarrow> bred (proxy_mem b' ! i) = bred (proxy_mem b ! i)) \<Longrightarrow>
   proxies_sound b'"
  unfolding proxies_sound_def by simp

lemma emitted_sound:
  assumes snd: "proxies_sound b" and lt: "a < length (proxy_mem b)"
  shows "\<exists>b'. h2_beam_emitted b a = Ret b' \<and> proxies_sound b'
           \<and> length (proxy_mem b') = length (proxy_mem b)"
proof (cases "fst (enter_yellow b) = APR_SUCCESS")
  case False
  then have "h2_beam_emitted b a = Ret b"
    by (cases "enter_yellow b"; cases "fst (enter_yellow b)") (auto simp: h2_beam_emitted_def)
  then show ?thesis using snd by simp
next
  case True
  then obtain m where e: "enter_yellow b = (APR_SUCCESS, m)" by (cases "enter_yellow b") auto
  define d where "d = proxy_mem b ! a"
  define beam1 where "beam1 = b\<lparr>proxies := remove1 a (proxies b)\<rparr>"
  have px: "proxy_at beam1 a = Some d" using lt by (simp add: proxy_at_def beam1_def d_def)
  show ?thesis
  proof (cases "bred d")
    case None
    then have r: "h2_beam_emitted b a = Ret (if \<not> m then r_purge_sent beam1 else beam1)"
      using e px by (simp add: h2_beam_emitted_def Let_def beam1_def [symmetric])
    have "proxies_sound (if \<not> m then r_purge_sent beam1 else beam1)"
      by (rule proxies_sound_cong [OF snd]) (simp_all add: beam1_def r_purge_sent_def)
    moreover have "length (proxy_mem (if \<not> m then r_purge_sent beam1 else beam1)) =
        length (proxy_mem b)"
      by (simp add: beam1_def r_purge_sent_def)
    ultimately show ?thesis using r by simp
  next
    case (Some r)
    have ex: "\<exists>x \<in> set (hold_list beam1). bid x = r"
      using proxies_soundD [OF snd lt, of r] Some by (auto simp: d_def beam1_def)
    obtain hold moved where sc: "emitted_scan (hold_list beam1) r = (hold, moved)"
      by (cases "emitted_scan (hold_list beam1) r") auto
    define beam2 where "beam2 = proxy_store
        (beam1\<lparr>hold_list := hold, purge_list := purge_list beam1 @ moved\<rparr>) a (d\<lparr>bred := None\<rparr>)"
    have res: "h2_beam_emitted b a = Ret (if \<not> m then r_purge_sent beam2 else beam2)"
      using e px Some ex sc
      by (simp add: h2_beam_emitted_def Let_def beam1_def [symmetric] beam2_def)
    have mem2: "proxy_mem beam2 = (proxy_mem b)[a := d\<lparr>bred := None\<rparr>]"
      and hold2: "hold_list beam2 = hold"
      by (simp_all add: beam2_def proxy_store_def beam1_def)
    have hold1: "hold_list beam1 = hold_list b" by (simp add: beam1_def)
    have s2: "proxies_sound beam2"
      unfolding proxies_sound_def mem2 hold2
    proof (intro allI impI)
      fix i a'
      assume i: "i < length ((proxy_mem b)[a := d\<lparr>bred := None\<rparr>])"
        and br: "bred ((proxy_mem b)[a := d\<lparr>bred := None\<rparr>] ! i) = Some a'"
      have ia: "i \<noteq> a" using br i by (auto simp: nth_list_update split: if_splits)
      then have bi: "bred (proxy_mem b ! i) = Some a'" and il: "i < length (proxy_mem b)"
        using br i by (auto simp: nth_list_update)
      from proxies_soundD [OF snd il bi] obtain x where
        x: "x \<in> set (hold_list b)" "bid x = a'" "\<not> APR_BUCKET_IS_METADATA x"
        and dis: "\<forall>j < length (proxy_mem b). j \<noteq> i \<longrightarrow> bred (proxy_mem b ! j) \<noteq> Some a'"
        by blast
      have "a' \<noteq> r" using dis lt ia Some by (auto simp: d_def)
      then have "x \<in> set hold"
        using emitted_scan_keeps [of x "hold_list b" r] x sc hold1 by simp
      then have one: "\<exists>x \<in> set hold. bid x = a' \<and> \<not> APR_BUCKET_IS_METADATA x"
        using x by blast
      have two: "\<forall>j < length ((proxy_mem b)[a := d\<lparr>bred := None\<rparr>]). j \<noteq> i \<longrightarrow>
          bred ((proxy_mem b)[a := d\<lparr>bred := None\<rparr>] ! j) \<noteq> Some a'"
        using dis lt by (auto simp: nth_list_update split: if_splits)
      show "(\<exists>x \<in> set hold. bid x = a' \<and> \<not> APR_BUCKET_IS_METADATA x)
          \<and> (\<forall>j < length ((proxy_mem b)[a := d\<lparr>bred := None\<rparr>]). j \<noteq> i \<longrightarrow>
              bred ((proxy_mem b)[a := d\<lparr>bred := None\<rparr>] ! j) \<noteq> Some a')"
        using one two by blast
    qed
    have "proxies_sound (if \<not> m then r_purge_sent beam2 else beam2)"
      by (rule proxies_sound_cong [OF s2]) (simp_all add: r_purge_sent_def)
    moreover have "length (proxy_mem (if \<not> m then r_purge_sent beam2 else beam2)) =
        length (proxy_mem b)"
      by (simp add: mem2 r_purge_sent_def)
    ultimately show ?thesis using res by simp
  qed
qed

lemma destroy_sound:
  assumes snd: "proxies_sound b" and lt: "a < length (proxy_mem b)"
  shows "\<exists>b'. beam_bucket_destroy b a = Ret b' \<and> proxies_sound b'
           \<and> length (proxy_mem b') = length (proxy_mem b)"
proof -
  define d' where "d' = (proxy_mem b ! a)\<lparr>refcount := refcount (proxy_mem b ! a) - 1\<rparr>"
  define beam1 where "beam1 = proxy_store b a d'"
  have s1: "proxies_sound beam1"
  proof (rule proxies_sound_cong [OF snd])
    show "hold_list beam1 = hold_list b" by (simp add: beam1_def proxy_store_def)
    show "length (proxy_mem beam1) = length (proxy_mem b)"
      by (simp add: beam1_def proxy_store_def)
    show "bred (proxy_mem beam1 ! i) = bred (proxy_mem b ! i)" if "i < length (proxy_mem b)" for i
      using that by (cases "i = a") (simp_all add: beam1_def proxy_store_def d'_def)
  qed
  have l1: "length (proxy_mem beam1) = length (proxy_mem b)"
    by (simp add: beam1_def proxy_store_def)
  have un: "beam_bucket_destroy b a =
      (if refcount d' = 0 then (if pbeam d' then h2_beam_emitted beam1 a else Ret beam1)
       else Ret beam1)"
    using lt by (simp add: beam_bucket_destroy_def proxy_at_def Let_def d'_def beam1_def)
  show ?thesis
  proof (cases "refcount d' = 0 \<and> pbeam d'")
    case True
    from emitted_sound [OF s1] lt l1 obtain b' where
      "h2_beam_emitted beam1 a = Ret b'" "proxies_sound b'"
      "length (proxy_mem b') = length (proxy_mem beam1)" by auto
    then show ?thesis using un True l1 by simp
  next
    case False
    then have "beam_bucket_destroy b a = Ret beam1" using un by auto
    then show ?thesis using s1 l1 by simp
  qed
qed

lemma cleanup_sound:
  "proxies_sound b \<Longrightarrow> buckets_allocated b gs \<Longrightarrow>
   \<exists>b'. brigade_cleanup b gs = Ret b' \<and> proxies_sound b'
         \<and> length (proxy_mem b') = length (proxy_mem b)"
proof (induction gs arbitrary: b)
  case Nil
  then show ?case by simp
next
  case (Cons g gs)
  have "\<exists>b1. bucket_delete b g = Ret b1 \<and> proxies_sound b1
         \<and> length (proxy_mem b1) = length (proxy_mem b)"
  proof (cases "btype g = BT_BEAM")
    case True
    then have "bproxy g < length (proxy_mem b)"
      using Cons.prems(2) by (simp add: buckets_allocated_def)
    from destroy_sound [OF Cons.prems(1) this] True show ?thesis
      by (simp add: bucket_delete_def)
  next
    case False
    then show ?thesis using Cons.prems(1) by (simp add: bucket_delete_def)
  qed
  then obtain b1 where b1: "bucket_delete b g = Ret b1" "proxies_sound b1"
    "length (proxy_mem b1) = length (proxy_mem b)" by blast
  have "buckets_allocated b1 gs"
    using Cons.prems(2) b1(3) by (simp add: buckets_allocated_def)
  from Cons.IH [OF b1(2) this] b1 show ?case by auto
qed


lemma abort_sets_aborted:
  "enter_yellow b = (APR_SUCCESS, m) \<Longrightarrow> aborted (h2_beam_abort b)"
  by (simp add: abort_locked report_consumption_eq)

lemma aborted_send:
  assumes ab: "aborted beam" and lock: "enter_yellow beam = (APR_SUCCESS, mutex)"
  shows "\<exists>F. h2_beam_send env fuel beam red block sched =
             Ret (APR_ECONNABORTED, F, map_option (\<lambda>bb. bb\<lparr>brigade_list := []\<rparr>) red)
           \<and> send_list F = send_list beam @ (case red of None \<Rightarrow> [] | Some bb \<Rightarrow> brigade_list bb)
           \<and> aborted F"
proof -
  define beam2 where "beam2 = (case red of
      Some bb \<Rightarrow> beam_set_send_pool (r_purge_sent beam) (Some (brigade_p bb))
    | None \<Rightarrow> r_purge_sent beam)"
  have a2: "aborted beam2" and s2: "send_list beam2 = send_list beam"
    using ab by (auto simp: beam2_def r_purge_sent_def beam_set_send_pool_def split: option.splits)
  have "h2_beam_send env fuel beam red block sched =
      (case move_to_hold beam2 red of
         (beam3, red') \<Rightarrow> Ret (APR_ECONNABORTED, report_consumption beam3 False, red'))"
    using lock a2 by (simp add: h2_beam_send_def Let_def beam2_def [symmetric])
  then show ?thesis
    using a2 s2
    by (cases red) (simp_all add: move_to_hold_def report_consumption_eq)
qed

lemma aborted_receive_result:
  assumes ab: "aborted beam" and lock: "enter_yellow beam = (APR_SUCCESS, mutex)"
    and ret: "h2_beam_receive env beam bb block readbytes sched = Ret (st, F, bb')"
  shows "st = APR_ECONNABORTED \<and> bb' = bb \<and> (recv_buffer F = None \<or> recv_buffer F = Some [])
       \<and> aborted F"
proof -
  from ret lock obtain sto r' t' where
    p: "recv_pass env beam bb block readbytes readbytes 0 mutex = Ret (sto, F, bb', r', t')"
    and sto: "sto = Some st"
    by (auto simp: h2_beam_receive_def recv_transfer.simps recv_pass_def ab
        split: outcome.splits option.splits if_splits)
  from recv_pass_aborted [OF ab p] sto ab show ?thesis by auto
qed

lemma aborted_receive_returns:
  assumes ab: "aborted beam" and lock: "enter_yellow beam = (APR_SUCCESS, mutex)"
    and snd: "proxies_sound beam"
    and alloc: "buckets_allocated beam (case recv_buffer beam of None \<Rightarrow> [] | Some gs \<Rightarrow> gs)"
  shows "\<exists>F. h2_beam_receive env beam bb block readbytes sched = Ret (APR_ECONNABORTED, F, bb)"
proof (cases "\<exists>gs. recv_buffer beam = Some gs \<and> gs \<noteq> []")
  case False
  then show ?thesis using ab lock
    by (cases "recv_buffer beam")
       (auto simp: h2_beam_receive_def recv_transfer.simps recv_pass_def)
next
  case True
  then obtain gs where gs: "recv_buffer beam = Some gs" "gs \<noteq> []" by blast
  from cleanup_sound [OF snd, of gs] alloc gs obtain b' where
    "brigade_cleanup beam gs = Ret b'" by auto
  then show ?thesis using ab lock gs
    by (simp add: h2_beam_receive_def recv_transfer.simps recv_pass_def)
qed

text \<open>
  C3. On a beam that is aborted (as abort leaves it, and nothing resets the flag:
  \<open>aborted_stays\<close> in the last section), with the lock taken: every send returns connection-aborted and all its input has
  gone to the end of the send list as it was, without normalization; every receive
  that returns gives connection-aborted, adds nothing to the destination and leaves
  the receive buffer empty; and with sound proxy bookkeeping the receive does return.
\<close>

theorem aborted_send_receive:
  assumes ab: "aborted beam" and lock: "enter_yellow beam = (APR_SUCCESS, mutex)"
  shows "(\<exists>F. h2_beam_send env fuel beam red block sched =
               Ret (APR_ECONNABORTED, F, map_option (\<lambda>bb. bb\<lparr>brigade_list := []\<rparr>) red)
             \<and> send_list F =
                 send_list beam @ (case red of None \<Rightarrow> [] | Some bb \<Rightarrow> brigade_list bb)
             \<and> aborted F)
       \<and> (\<forall>st F bb'.
            h2_beam_receive env beam bb block' readbytes sched' = Ret (st, F, bb') \<longrightarrow>
            st = APR_ECONNABORTED \<and> bb' = bb
            \<and> (recv_buffer F = None \<or> recv_buffer F = Some []) \<and> aborted F)
       \<and> (proxies_sound beam \<longrightarrow>
            buckets_allocated beam (case recv_buffer beam of None \<Rightarrow> [] | Some gs \<Rightarrow> gs) \<longrightarrow>
            (\<exists>F. h2_beam_receive env beam bb block' readbytes sched' =
                   Ret (APR_ECONNABORTED, F, bb)))"
  using aborted_send [OF ab lock] aborted_receive_result [OF ab lock]
    aborted_receive_returns [OF ab lock]
  by blast

text \<open>
  The statement at \<open>buffered_beam\<close> after abort: a send of a transient bucket returns
  connection-aborted and the bucket, still transient, is in the send list; a receive
  returns connection-aborted, hands out nothing and has emptied the receive buffer.
\<close>

theorem aborted_send_receive_witness:
  "aborted (h2_beam_abort buffered_beam)
   \<and> (\<exists>F. h2_beam_send plain_env 5 (h2_beam_abort buffered_beam)
              (Some (brigade 1 [red_bucket 9 BT_TRANSIENT 3])) APR_BLOCK_READ [] =
            Ret (APR_ECONNABORTED, F, Some (brigade 1 []))
          \<and> send_list F = [red_bucket 9 BT_TRANSIENT 3])
   \<and> (\<exists>F. h2_beam_receive plain_env (h2_beam_abort buffered_beam) (brigade 7 [])
              APR_BLOCK_READ 0 [] =
            Ret (APR_ECONNABORTED, F, brigade 7 [])
          \<and> recv_buffer F = Some [])"
proof -
  define A where "A = h2_beam_abort buffered_beam"
  have e0: "enter_yellow buffered_beam = (APR_SUCCESS, True)"
    by (simp add: buffered_beam_def locked_beam_eq h2_beam_create_def enter_yellow_def)
  have ab: "aborted A" unfolding A_def by (rule abort_sets_aborted [OF e0])
  have lock: "enter_yellow A = (APR_SUCCESS, True)" unfolding A_def using e0 by simp
  have A2: "A = report_consumption
                  (buffered_beam\<lparr>aborted := True, purge_list := [], send_list := []\<rparr>) False"
    unfolding A_def abort_locked [OF e0]
    by (simp add: buffered_beam_def locked_beam_eq h2_beam_create_def)
  have f: "send_list A = []" "hold_list A = hold_list buffered_beam"
    "proxy_mem A = proxy_mem buffered_beam"
    "recv_buffer A = Some [(green_bucket BT_BEAM)\<lparr>bstart := 3, blength := 4, bproxy := 1\<rparr>]"
    by (simp_all add: A2 report_consumption_eq buffered_beam_def locked_beam_eq
        h2_beam_create_def)
  have snd: "proxies_sound A"
    unfolding proxies_sound_def f
    by (simp add: buffered_beam_def red_bucket_def APR_BUCKET_IS_METADATA_def
        less_Suc_eq numeral_2_eq_2 all_conj_distrib nth_Cons')
  have alloc: "buckets_allocated A (case recv_buffer A of None \<Rightarrow> [] | Some gs \<Rightarrow> gs)"
    by (simp add: buckets_allocated_def f buffered_beam_def green_bucket_def)
  note main = aborted_send_receive [OF ab lock, where env = plain_env and fuel = 5
      and red = "Some (brigade 1 [red_bucket 9 BT_TRANSIENT 3])" and block = APR_BLOCK_READ
      and sched = "[]" and bb = "brigade 7 []" and block' = APR_BLOCK_READ and readbytes = 0
      and sched' = "[]"]
  from main [THEN conjunct1]
  have s: "\<exists>F. h2_beam_send plain_env 5 A
              (Some (brigade 1 [red_bucket 9 BT_TRANSIENT 3])) APR_BLOCK_READ [] =
            Ret (APR_ECONNABORTED, F, Some (brigade 1 []))
          \<and> send_list F = [red_bucket 9 BT_TRANSIENT 3]"
    by (auto simp: f brigade_def)
  from main [THEN conjunct2, THEN conjunct2, rule_format, OF snd alloc]
  obtain F where r: "h2_beam_receive plain_env A (brigade 7 []) APR_BLOCK_READ 0 [] =
      Ret (APR_ECONNABORTED, F, brigade 7 [])" by blast
  from main [THEN conjunct2, THEN conjunct1, rule_format, OF r]
  have "recv_buffer F = None \<or> recv_buffer F = Some []" by simp
  moreover have "recv_buffer F \<noteq> None"
    using r lock ab f(4)
    by (auto simp: h2_beam_receive_def recv_transfer.simps recv_pass_def
        split: outcome.splits)
  ultimately have "recv_buffer F = Some []" by simp
  with r have rr: "\<exists>F. h2_beam_receive plain_env A (brigade 7 []) APR_BLOCK_READ 0 [] =
            Ret (APR_ECONNABORTED, F, brigade 7 []) \<and> recv_buffer F = Some []" by blast
  show ?thesis using ab s rr unfolding A_def by (intro conjI)
qed

section \<open>Invariants of the waiting loops and frames of the two sides\<close>

lemma r_wait_space_loop_keeps:
  "r_wait_space_loop beam premain block mutex sched = Ret (st, beam', space, sched') \<Longrightarrow>
   (\<forall>b. P b \<longrightarrow> P (report_production b True)) \<Longrightarrow> (\<forall>b. P b \<longrightarrow> P (r_purge_sent b)) \<Longrightarrow>
   P beam \<Longrightarrow> sched_keeps P sched \<Longrightarrow> P beam' \<and> sched_keeps P sched'"
proof (induction beam premain block mutex sched rule: r_wait_space_loop.induct)
  case (1 beam premain block mutex sched)
  show ?case
  proof (cases "\<not> aborted beam \<and> premain \<le> 0 \<and> block = APR_BLOCK_READ \<and> mutex")
    case False
    then have "beam' = beam" "sched' = sched" using "1.prems"(1)
      by (subst (asm) r_wait_space_loop.simps; auto split: if_splits)+
    then show ?thesis using "1.prems" by simp
  next
    case True
    define beam1 where "beam1 = report_production beam True"
    have P1: "P beam1" using "1.prems"(2,4) by (simp add: beam1_def)
    obtain status beam2 sched1 where w: "wait_cond beam1 sched = Ret (status, beam2, sched1)"
      using "1.prems"(1) True
      by (subst (asm) r_wait_space_loop.simps)
         (auto simp: Let_def beam1_def split: outcome.splits)
    from wait_cond_keeps [OF w P1 "1.prems"(5)] have P2: "P beam2" "sched_keeps P sched1"
      by simp_all
    show ?thesis
    proof (cases "status = APR_TIMEUP")
      case t: True
      then have "beam' = beam2" "sched' = sched1" using "1.prems"(1) True w
        by (subst (asm) r_wait_space_loop.simps; simp add: Let_def beam1_def [symmetric])+
      then show ?thesis using P2 by simp
    next
      case False
      then have r: "r_wait_space_loop (r_purge_sent beam2) (calc_space_left (r_purge_sent beam2))
          block mutex sched1 = Ret (st, beam', space, sched')"
        using "1.prems"(1) True w
        by (subst (asm) r_wait_space_loop.simps)
           (simp add: Let_def beam1_def [symmetric] del: r_wait_space_loop.simps)
      have P3: "P (r_purge_sent beam2)" using "1.prems"(3) P2 by simp
      from "1.IH" [OF True refl w [unfolded beam1_def] refl refl False refl r "1.prems"(2,3) P3 P2(2)]
      show ?thesis .
    qed
  qed
qed

lemma wait_empty_loop_keeps:
  "wait_empty_loop beam block mutex sched = Ret (st, beam') \<Longrightarrow>
   P beam \<Longrightarrow> sched_keeps P sched \<Longrightarrow> P beam'"
proof (induction beam block mutex sched rule: wait_empty_loop.induct)
  case (1 beam block mutex sched)
  show ?case
  proof (cases "send_list beam \<noteq> [] \<and> proxies beam \<noteq> []
                 \<and> \<not> (block = APR_NONBLOCK_READ \<or> \<not> mutex)")
    case False
    then have "beam' = beam" using "1.prems"(1)
      by (subst (asm) wait_empty_loop.simps) (auto split: if_splits)
    then show ?thesis using "1.prems" by simp
  next
    case True
    obtain status beam2 sched1 where w: "wait_cond beam sched = Ret (status, beam2, sched1)"
      using "1.prems"(1) True
      by (subst (asm) wait_empty_loop.simps) (auto split: outcome.splits)
    from wait_cond_keeps [OF w "1.prems"(2,3)] have P2: "P beam2" "sched_keeps P sched1"
      by simp_all
    show ?thesis
    proof (cases "status = APR_SUCCESS")
      case False
      then have "beam' = beam2" using "1.prems"(1) True w
        by (subst (asm) wait_empty_loop.simps) simp
      then show ?thesis using P2 by simp
    next
      case s: True
      then have r: "wait_empty_loop beam2 block mutex sched1 = Ret (st, beam')"
        using "1.prems"(1) True w
        by (subst (asm) wait_empty_loop.simps) (simp del: wait_empty_loop.simps)
      from True have c1: "send_list beam \<noteq> [] \<and> proxies beam \<noteq> []"
        and c2: "\<not> (block = APR_NONBLOCK_READ \<or> \<not> mutex)" by simp_all
      from "1.IH" [OF c1 c2 w refl refl s r P2] show ?thesis .
    qed
  qed
qed


lemma recv_frame_refl [simp]: "recv_frame b b"
  by (simp add: recv_frame_def)

lemma recv_frame_trans: "recv_frame a b \<Longrightarrow> recv_frame b c \<Longrightarrow> recv_frame a c"
proof -
  assume ab: "recv_frame a b" and bc: "recv_frame b c"
  have "c = b\<lparr>send_list := send_list c, hold_list := hold_list c, purge_list := purge_list c,
             recv_buffer := recv_buffer c, proxies := proxies c, recv_pool := recv_pool c,
             received_bytes := received_bytes c, buckets_sent := buckets_sent c,
             files_beamed := files_beamed c, close_sent := close_sent c,
             proxy_mem := proxy_mem c, close_eos_made := close_eos_made c\<rparr>"
    using bc by (simp add: recv_frame_def)
  also have "\<dots> = a\<lparr>send_list := send_list c, hold_list := hold_list c, purge_list := purge_list c,
             recv_buffer := recv_buffer c, proxies := proxies c, recv_pool := recv_pool c,
             received_bytes := received_bytes c, buckets_sent := buckets_sent c,
             files_beamed := files_beamed c, close_sent := close_sent c,
             proxy_mem := proxy_mem c, close_eos_made := close_eos_made c\<rparr>"
    by (subst ab [unfolded recv_frame_def]) simp
  finally show ?thesis by (simp add: recv_frame_def)
qed

lemma recv_frame_upd:
  "recv_frame b (b\<lparr>send_list := sl, hold_list := h, purge_list := pu, recv_buffer := rb,
      proxies := ps, recv_pool := rp, received_bytes := rcv, buckets_sent := bs,
      files_beamed := fb, close_sent := cs, proxy_mem := pm, close_eos_made := ce\<rparr>)"
  by (simp add: recv_frame_def)

lemma emitted_recv_frame: "h2_beam_emitted b a = Ret b' \<Longrightarrow> recv_frame b b'"
  by (drule emitted_frame) (auto simp: recv_frame_def)

lemma destroy_recv_frame: "beam_bucket_destroy b a = Ret b' \<Longrightarrow> recv_frame b b'"
  by (drule destroy_frame) (auto simp: recv_frame_def)

lemma cleanup_recv_frame: "brigade_cleanup b gs = Ret b' \<Longrightarrow> recv_frame b b'"
  by (drule cleanup_frame) (auto simp: recv_frame_def)

lemma stage1_recv_frame:
  "recv_stage1 beam bb readbytes remain tr = (beam2, bbl2, remain2, tr2) \<Longrightarrow> recv_frame beam beam2"
  by (drule recv_stage1_frame) (auto simp: recv_frame_def)

lemma put_back_recv_frame:
  "recv_put_back env beam readbytes bbl remain = Ret (beam', bbl', remain') \<Longrightarrow>
   recv_frame beam beam'"
  by (drule recv_put_back_frame) (auto simp: recv_frame_def)

lemma close_step_recv_frame:
  "recv_close_step beam bbl tr = (beam', bbl', tr') \<Longrightarrow> recv_frame beam beam'"
  by (drule recv_close_step_frame) (auto simp: recv_frame_def)

lemma recv_file_recv_frame:
  "recv_file env bbp beam r rest bbl remain tr = (st, beam', bbl', remain', tr') \<Longrightarrow>
   recv_frame beam beam'"
  by (drule recv_file_frame) (auto simp: recv_frame_def)

lemma recv_place_recv_frame:
  "recv_place env beam r rest bbl remain tr = (beam', bbl', remain', tr') \<Longrightarrow>
   recv_frame beam beam'"
  by (auto simp: recv_place_def recv_make_green_def h2_beam_bucket_create_def Let_def
      recv_frame_def split: prod.splits option.splits if_splits)

lemma recv_send_loop_recv_frame:
  "recv_send_loop env bbp readbytes sl beam bbl remain tr = (st, beam', bbl', remain', tr') \<Longrightarrow>
   recv_frame beam beam'"
proof (induction sl arbitrary: beam bbl remain tr)
  case Nil
  then show ?case by simp
next
  case (Cons x rest)
  show ?case
  proof (cases "(readbytes \<le>s 0 \<or> 0 \<le>s remain)
                 \<and> \<not> (0 <s readbytes \<and> blength x > 0 \<and> remain \<le>s 0)")
    case False
    then have "beam' = beam" using Cons.prems by (auto split: if_splits)
    then show ?thesis by simp
  next
    case True
    show ?thesis
    proof (cases "\<not> APR_BUCKET_IS_METADATA x \<and> APR_BUCKET_IS_FILE x")
      case isf: True
      obtain s1 b1 bbl1 r1 t1 where
        f: "recv_file env bbp beam x rest bbl remain tr = (s1, b1, bbl1, r1, t1)"
        by (cases "recv_file env bbp beam x rest bbl remain tr") auto
      note f1 = recv_file_recv_frame [OF f]
      show ?thesis
      proof (cases "s1 = APR_SUCCESS")
        case False
        then have "beam' = b1" using Cons.prems True isf f by auto
        then show ?thesis using f1 by simp
      next
        case s: True
        then have "recv_send_loop env bbp readbytes rest b1 bbl1 r1 t1 =
            (st, beam', bbl', remain', tr')"
          using Cons.prems True isf f by auto
        from recv_frame_trans [OF f1 Cons.IH [OF this]] show ?thesis .
      qed
    next
      case False
      obtain b1 bbl1 r1 t1 where
        p: "recv_place env beam x rest bbl remain tr = (b1, bbl1, r1, t1)"
        by (cases "recv_place env beam x rest bbl remain tr") auto
      have "recv_send_loop env bbp readbytes rest b1 bbl1 r1 t1 =
            (st, beam', bbl', remain', tr')"
        using Cons.prems True False p by auto
      from recv_frame_trans [OF recv_place_recv_frame [OF p] Cons.IH [OF this]]
      show ?thesis .
    qed
  qed
qed

lemma recv_pass_recv_frame:
  assumes "recv_pass env beam bb block readbytes remain tr mutex = Ret (st, b', bb', r', t')"
  shows "recv_frame beam b'"
proof (cases "aborted beam")
  case True
  from recv_pass_aborted [OF True assms] show ?thesis by (auto simp: recv_frame_def)
next
  case False
  from False assms show ?thesis
  proof (cases rule: recv_pass_steps)
    case (leave beam2 bbl2 remain2 tr2 status)
    from recv_frame_trans [OF stage1_recv_frame [OF leave(1)]
        recv_send_loop_recv_frame [OF leave(2)]]
    show ?thesis .
  next
    case (finish beam2 bbl2 remain2 tr2 beam3 bbl3 remain3 tr3 beam4 bbl4)
    from recv_frame_trans [OF recv_frame_trans [OF recv_frame_trans
          [OF stage1_recv_frame [OF finish(1)] recv_send_loop_recv_frame [OF finish(2)]]
          put_back_recv_frame [OF finish(3)]] close_step_recv_frame [OF finish(4)]]
    show ?thesis .
  qed
qed

lemma send_frame_upd:
  "closed b \<longrightarrow> c \<Longrightarrow>
   send_frame b (b\<lparr>send_list := sl, sent_bytes := sb, last_beamed := lb, closed := c,
                   purge_list := pu, send_pool := sp\<rparr>)"
  by (simp add: send_frame_def)

lemma send_frame_purge: "send_frame b (r_purge_sent b)"
  by (simp add: send_frame_def r_purge_sent_def)

lemma send_frame_pool: "send_frame b (beam_set_send_pool b p)"
  by (simp add: send_frame_def beam_set_send_pool_def)

lemma append_normalize_frame:
  "append_normalize env beam b = (st, beam', b', ins) \<Longrightarrow> send_frame beam beam'"
  by (auto simp: append_normalize_def send_frame_def Let_def split: if_splits prod.splits)

lemma append_space_cases:
  "append_space env beam b block mutex sched = Ret (st, beam', b', ins, sp, sched') \<Longrightarrow>
   (beam' = beam \<and> sched' = sched) \<or>
   (\<exists>s2 sp2. r_wait_space beam block mutex sched = Ret (s2, beam', sp2, sched'))"
  unfolding append_space_def Let_def
  by (auto split: prod.splits if_splits outcome.splits)

lemma append_space_keeps:
  assumes stable: "\<forall>b b'. send_frame b b' \<longrightarrow> P b \<longrightarrow> P b'"
    and rp: "\<forall>b. P b \<longrightarrow> P (report_production b True)"
    and ret: "append_space env beam b block mutex sched = Ret (st, beam', b', ins, sp, sched')"
    and P: "P beam" and k: "sched_keeps P sched"
  shows "P beam' \<and> sched_keeps P sched'"
  using append_space_cases [OF ret]
proof (elim disjE exE)
  assume "beam' = beam \<and> sched' = sched"
  then show ?thesis using P k by simp
next
  fix s2 sp2
  assume "r_wait_space beam block mutex sched = Ret (s2, beam', sp2, sched')"
  then have w: "r_wait_space_loop beam (calc_space_left beam) block mutex sched =
            Ret (s2, beam', sp2, sched')"
    unfolding r_wait_space_def .
  have pu: "\<forall>b. P b \<longrightarrow> P (r_purge_sent b)" using stable send_frame_purge by blast
  from r_wait_space_loop_keeps [OF w rp pu P k] show ?thesis .
qed

lemma append_bucket_keeps:
  assumes stable: "\<forall>b b'. send_frame b b' \<longrightarrow> P b \<longrightarrow> P b'"
    and rp: "\<forall>b. P b \<longrightarrow> P (report_production b True)"
    and ret: "append_bucket env beam b rest block mutex sched = Ret (st, beam', rest', sched')"
    and P: "P beam" and k: "sched_keeps P sched"
  shows "P beam' \<and> sched_keeps P sched'"
proof (cases "APR_BUCKET_IS_METADATA b")
  case True
  then have e: "beam' = (if APR_BUCKET_IS_EOS b then beam\<lparr>closed := True\<rparr> else beam)
                   \<lparr>send_list := send_list beam @ [b]\<rparr>" "sched' = sched"
    using ret by (simp_all add: append_bucket_def)
  have "send_frame beam beam'" unfolding e by (simp add: send_frame_def)
  then show ?thesis using stable P k e(2) by blast
next
  case False
  obtain s1 beam1 b1 ins1 sp sched1 where
    a: "(if APR_BUCKET_IS_FILE b then Ret (APR_SUCCESS, beam, b, [], 0, sched)
         else append_space env beam b block mutex sched) =
        Ret (s1, beam1, b1, ins1, sp, sched1)"
    using ret False by (auto simp: append_bucket_def split: outcome.splits)
  have P1: "P beam1 \<and> sched_keeps P sched1"
  proof (cases "APR_BUCKET_IS_FILE b")
    case True
    then show ?thesis using a P k by simp
  next
    case False
    then have "append_space env beam b block mutex sched = Ret (s1, beam1, b1, ins1, sp, sched1)"
      using a by simp
    from append_space_keeps [OF stable rp this P k] show ?thesis .
  qed
  show ?thesis
  proof (cases "s1 = APR_SUCCESS")
    case False
    then have "beam' = beam1" "sched' = sched1"
      using ret \<open>\<not> APR_BUCKET_IS_METADATA b\<close> a by (auto simp: append_bucket_def)
    then show ?thesis using P1 by simp
  next
    case True
    obtain s2 beam2 b2 ins2 where n: "append_normalize env beam1 b1 = (s2, beam2, b2, ins2)"
      by (cases "append_normalize env beam1 b1") auto
    have f2: "send_frame beam1 beam2" using append_normalize_frame [OF n] .
    obtain s3 b3 ins3 where
      f: "(if s2 = APR_ENOTIMPL then append_fallback env beam2 b2 sp else (s2, b2, [])) =
          (s3, b3, ins3)"
      by (cases "if s2 = APR_ENOTIMPL then append_fallback env beam2 b2 sp else (s2, b2, [])")
        auto
    have e: "sched' = sched1"
      "beam' = beam2 \<or> beam' = beam2\<lparr>send_list := send_list beam2 @ [b3],
                                       sent_bytes := sent_bytes beam2 + blength b3\<rparr>"
      using ret \<open>\<not> APR_BUCKET_IS_METADATA b\<close> a True n f
      by (auto simp: append_bucket_def split: if_splits)
    have "send_frame beam2 beam'" using e(2) by (auto simp: send_frame_def)
    then have "P beam'" using stable f2 P1 by blast
    then show ?thesis using P1 e(1) by simp
  qed
qed

lemma send_loop_keeps:
  assumes stable: "\<forall>b b'. send_frame b b' \<longrightarrow> P b \<longrightarrow> P b'"
    and rp: "\<forall>b. P b \<longrightarrow> P (report_production b True)"
  shows "send_loop env fuel beam bl block mutex sched = Ret (st, beam', rest') \<Longrightarrow>
     P beam \<Longrightarrow> sched_keeps P sched \<Longrightarrow> P beam'"
proof (induction fuel arbitrary: beam bl sched)
  case 0
  then show ?case by (cases bl) auto
next
  case (Suc fuel)
  show ?case
  proof (cases bl)
    case Nil
    then show ?thesis using Suc.prems by simp
  next
    case (Cons b rest)
    then obtain s1 beam1 rest1 sched1 where
      a: "append_bucket env beam b rest block mutex sched = Ret (s1, beam1, rest1, sched1)"
      using Suc.prems(1) by (auto split: outcome.splits)
    from append_bucket_keeps [OF stable rp a Suc.prems(2,3)]
    have P1: "P beam1" "sched_keeps P sched1" by simp_all
    show ?thesis
    proof (cases "s1 = APR_SUCCESS")
      case True
      then have "send_loop env fuel beam1 rest1 block mutex sched1 = Ret (st, beam', rest')"
        using Suc.prems(1) Cons a by simp
      from Suc.IH [OF this P1] show ?thesis .
    next
      case False
      then have "beam' = beam1" using Suc.prems(1) Cons a by simp
      then show ?thesis using P1 by simp
    qed
  qed
qed

lemma h2_beam_send_keeps:
  assumes stable: "\<forall>b b'. send_frame b b' \<longrightarrow> P b \<longrightarrow> P b'"
    and rp: "\<forall>b f. P b \<longrightarrow> P (report_production b f)"
    and rc: "\<forall>b. P b \<longrightarrow> P (report_consumption b False)"
    and ret: "h2_beam_send env fuel beam red block sched = Ret (st, beam', red')"
    and P: "P beam" and k: "sched_keeps P sched"
  shows "P beam'"
proof (cases "fst (enter_yellow beam) = APR_SUCCESS")
  case False
  then have "beam' = beam" using ret
    by (cases "enter_yellow beam"; cases "fst (enter_yellow beam)")
       (auto simp: h2_beam_send_def)
  then show ?thesis using P by simp
next
  case True
  then obtain m where e: "enter_yellow beam = (APR_SUCCESS, m)"
    by (cases "enter_yellow beam") auto
  have P1: "P (r_purge_sent beam)" using stable P send_frame_purge by blast
  show ?thesis
  proof (cases red)
    case None
    then have "beam' = report_consumption (r_purge_sent beam) False"
      using ret e by (simp add: h2_beam_send_def Let_def move_to_hold_def split: if_splits)
    then show ?thesis using rc P1 by simp
  next
    case (Some bb)
    define beam2 where "beam2 = beam_set_send_pool (r_purge_sent beam) (Some (brigade_p bb))"
    have "send_frame (r_purge_sent beam) beam2" unfolding beam2_def by (rule send_frame_pool)
    then have P2: "P beam2" using stable P1 by blast
    have ret2: "(if aborted beam2 then
                (case move_to_hold beam2 (Some bb) of
                   (beam3, red') \<Rightarrow> Ret (APR_ECONNABORTED, report_consumption beam3 False, red'))
              else
                     (case send_loop env fuel beam2 (brigade_list bb) block m sched of
                           Blocked \<Rightarrow> Blocked
                         | Crash \<Rightarrow> Crash
                         | Ret (status, beam3, rest) \<Rightarrow>
                             Ret (status,
                                  report_consumption (report_production beam3 (brigade_list bb \<noteq> [])) False,
                                  Some (bb\<lparr>brigade_list := rest\<rparr>)))) = Ret (st, beam', red')"
      using ret e Some by (auto simp: h2_beam_send_def Let_def beam2_def split: if_splits)
    show ?thesis
    proof (cases "aborted beam2")
      case True
      then have b': "beam' = report_consumption
                        (beam2\<lparr>send_list := send_list beam2 @ brigade_list bb\<rparr>) False"
        using ret2 by (simp add: move_to_hold_def)
      have "send_frame beam2 (beam2\<lparr>send_list := send_list beam2 @ brigade_list bb\<rparr>)"
        by (simp add: send_frame_def)
      then have "P (beam2\<lparr>send_list := send_list beam2 @ brigade_list bb\<rparr>)"
        using stable P2 by blast
      then show ?thesis using rc b' by simp
    next
      case False
      then obtain s3 beam3 rest where
        l: "send_loop env fuel beam2 (brigade_list bb) block m sched = Ret (s3, beam3, rest)"
        and b': "beam' = report_consumption
                     (report_production beam3 (brigade_list bb \<noteq> [])) False"
        using ret2 by (auto split: outcome.splits)
      have rp1: "\<forall>b. P b \<longrightarrow> P (report_production b True)" using rp by blast
      from send_loop_keeps [OF stable rp1 l P2 k] have "P beam3" .
      then show ?thesis using rp rc b' by simp
    qed
  qed
qed

section \<open>Callback accounting\<close>

lemma status_case:
  "(case s of APR_SUCCESS \<Rightarrow> a | APR_EAGAIN \<Rightarrow> c | APR_TIMEUP \<Rightarrow> c | APR_ECONNABORTED \<Rightarrow> c
      | APR_ECONNRESET \<Rightarrow> c | APR_EOF \<Rightarrow> c | APR_ENOTIMPL \<Rightarrow> c | APR_ENOMEM \<Rightarrow> c
      | APR_EOTHER n \<Rightarrow> c) =
   (if s = APR_SUCCESS then a else c)"
  by (cases s) simp_all

lemma accounted_report_consumption: "accounted b \<Longrightarrow> accounted (report_consumption b f)"
  by (simp add: accounted_def report_consumption_eq)

lemma accounted_report_production: "accounted b \<Longrightarrow> accounted (report_production b f)"
  by (simp add: accounted_def report_production_eq)

lemma accounted_recv_frame: "recv_frame b b' \<Longrightarrow> accounted b \<Longrightarrow> accounted b'"
proof -
  assume f: "recv_frame b b'" and a: "accounted b"
  have "accounted (b\<lparr>send_list := x1, hold_list := x2, purge_list := x3, recv_buffer := x4,
      proxies := x5, recv_pool := x6, received_bytes := x7, buckets_sent := x8,
      files_beamed := x9, close_sent := x10, proxy_mem := x11, close_eos_made := x12\<rparr>)"
    for x1 x2 x3 x4 x5 x6 x7 x8 x9 x10 x11 x12
    using a by (simp add: accounted_def)
  then show ?thesis using f unfolding recv_frame_def by metis
qed

lemma accounted_send_frame: "send_frame b b' \<Longrightarrow> accounted b \<Longrightarrow> accounted b'"
proof -
  assume f: "send_frame b b'" and a: "accounted b"
  have "accounted (b\<lparr>send_list := x1, sent_bytes := x2, last_beamed := x3, closed := x4,
                purge_list := x5, send_pool := x6\<rparr>)" for x1 x2 x3 x4 x5 x6
    using a by (simp add: accounted_def)
  then show ?thesis using f unfolding send_frame_def by metis
qed

lemma receive_accounted:
  assumes "h2_beam_receive env b bb block readbytes sched = Ret (st, b', bb')"
    and "accounted b" and "sched_keeps accounted sched"
  shows "accounted b'"
proof (cases "fst (enter_yellow b) = APR_SUCCESS")
  case False
  then have "b' = b" using assms(1)
    by (cases "enter_yellow b"; cases "fst (enter_yellow b)") (auto simp: h2_beam_receive_def)
  then show ?thesis using assms(2) by simp
next
  case True
  then obtain m where e: "enter_yellow b = (APR_SUCCESS, m)" by (cases "enter_yellow b") auto
  then have t: "recv_transfer env b bb block readbytes readbytes 0 m sched = Ret (st, b', bb')"
    using assms(1) by (simp add: h2_beam_receive_def)
  have pass: "\<forall>b bb remain tr st b' bb' r' t'.
          accounted b \<longrightarrow> recv_pass env b bb block readbytes remain tr m = Ret (st, b', bb', r', t')
          \<longrightarrow> accounted b'"
    using recv_pass_recv_frame accounted_recv_frame by blast
  from recv_transfer_keeps [where P = accounted, OF t pass assms(2,3)] show ?thesis .
qed

lemma send_accounted:
  assumes "h2_beam_send env fuel b red block sched = Ret (st, b', red')"
    and "accounted b" and "sched_keeps accounted sched"
  shows "accounted b'"
proof -
  have stable: "\<forall>b b'. send_frame b b' \<longrightarrow> accounted b \<longrightarrow> accounted b'"
    using accounted_send_frame by blast
  have rp: "\<forall>b f. accounted b \<longrightarrow> accounted (report_production b f)"
    using accounted_report_production by blast
  have rc: "\<forall>b. accounted b \<longrightarrow> accounted (report_consumption b False)"
    using accounted_report_consumption by blast
  from h2_beam_send_keeps [where P = accounted, OF stable rp rc assms] show ?thesis .
qed

lemma close_accounted: "accounted b \<Longrightarrow> accounted (snd (h2_beam_close b))"
  by (simp add: h2_beam_close_def Let_def status_case beam_close_def r_purge_sent_def
      accounted_def report_consumption_eq split: prod.splits)

lemma abort_accounted: "accounted b \<Longrightarrow> accounted (h2_beam_abort b)"
  by (simp add: h2_beam_abort_def Let_def status_case r_purge_sent_def
      accounted_def report_consumption_eq split: prod.splits)

lemma send_cleanup_accounted: "accounted b \<Longrightarrow> accounted (beam_send_cleanup b)"
  by (simp add: beam_send_cleanup_eq accounted_def report_consumption_eq)

lemma cleanup_accounted:
  "brigade_cleanup b gs = Ret b' \<Longrightarrow> accounted b \<Longrightarrow> accounted b'"
  using cleanup_recv_frame accounted_recv_frame by blast

lemma accounted_recv_fields:
  "accounted (b\<lparr>recv_buffer := rb, recv_pool := rp\<rparr>) = accounted b"
  by (simp add: accounted_def)

lemma accounted_closed: "accounted (beam_close b) = accounted b"
  by (simp add: accounted_def beam_close_def)

lemma destroy_accounted:
  assumes "h2_beam_destroy b = Ret (st, b')" and "accounted b"
  shows "accounted b'"
proof (cases "owner (beam_close b)")
  case H2_BEAM_OWNER_SEND
  then have "b' = (beam_send_cleanup (beam_close b))\<lparr>recv_buffer := None, recv_pool := None\<rparr>"
    using assms(1) by (simp add: h2_beam_destroy_def beam_cleanup_def Let_def)
  then show ?thesis
    using assms(2) by (simp add: accounted_recv_fields send_cleanup_accounted accounted_closed)
next
  case H2_BEAM_OWNER_RECV
  then obtain b2 where
    c: "(case recv_buffer (beam_close b) of
           Some gs \<Rightarrow> brigade_cleanup (beam_close b) gs | None \<Rightarrow> Ret (beam_close b)) = Ret b2"
    and r: "b' = b2\<lparr>recv_buffer := None, recv_pool := None\<rparr>
            \<or> b' = beam_send_cleanup (b2\<lparr>recv_buffer := None, recv_pool := None\<rparr>)"
    using assms(1)
    by (auto simp: h2_beam_destroy_def beam_cleanup_def Let_def
        split: outcome.splits if_splits)
  have "accounted b2"
    using c assms(2) cleanup_accounted [of "beam_close b" _ b2]
    by (auto simp: accounted_closed split: option.splits)
  then show ?thesis
    using r by (auto simp: accounted_recv_fields send_cleanup_accounted)
qed

lemma wait_empty_accounted:
  assumes "h2_beam_wait_empty b block sched = Ret (st, b')"
    and "accounted b" and "sched_keeps accounted sched"
  shows "accounted b'"
proof (cases "fst (enter_yellow b) = APR_SUCCESS")
  case False
  then have "b' = b" using assms(1)
    by (cases "enter_yellow b"; cases "fst (enter_yellow b)") (auto simp: h2_beam_wait_empty_def)
  then show ?thesis using assms(2) by simp
next
  case True
  then obtain m where e: "enter_yellow b = (APR_SUCCESS, m)" by (cases "enter_yellow b") auto
  then have t: "wait_empty_loop b block m sched = Ret (st, b')"
    using assms(1) by (simp add: h2_beam_wait_empty_def)
  from wait_empty_loop_keeps [OF t assms(2,3)] show ?thesis .
qed

lemma apply_op_accounted:
  assumes "apply_op env b x = Ret b'" and "accounted b" and "\<not> uninstalls x"
    and "sched_keeps accounted (op_sched x)"
  shows "accounted b'"
proof (cases x)
  case (Op_send red block fuel sched)
  then obtain st red' where "h2_beam_send env fuel b red block sched = Ret (st, b', red')"
    using assms(1) by (auto split: outcome.splits)
  from send_accounted [OF this assms(2)] assms(4) Op_send show ?thesis by simp
next
  case (Op_receive bb block readbytes sched)
  then obtain st bb' where "h2_beam_receive env b bb block readbytes sched = Ret (st, b', bb')"
    using assms(1) by (auto split: outcome.splits)
  from receive_accounted [OF this assms(2)] assms(4) Op_receive show ?thesis by simp
next
  case Op_close
  then show ?thesis using assms(1,2) close_accounted by auto
next
  case Op_abort
  then show ?thesis using assms(1,2) abort_accounted by auto
next
  case Op_destroy
  then obtain st where "h2_beam_destroy b = Ret (st, b')"
    using assms(1) by (auto split: outcome.splits)
  from destroy_accounted [OF this assms(2)] show ?thesis .
next
  case (Op_wait_empty block sched)
  then obtain st where "h2_beam_wait_empty b block sched = Ret (st, b')"
    using assms(1) by (auto split: outcome.splits)
  from wait_empty_accounted [OF this assms(2)] assms(4) Op_wait_empty show ?thesis by simp
next
  case (Op_bucket_destroy a)
  then have "beam_bucket_destroy b a = Ret b'" using assms(1) by simp
  from accounted_recv_frame [OF destroy_recv_frame [OF this] assms(2)] show ?thesis .
next
  case (Op_bucket_share a)
  then show ?thesis using assms(1,2)
    by (auto simp: proxy_store_def accounted_def split: option.splits)
next
  case (Op_buffer_size_set n)
  then show ?thesis using assms(1,2)
    by (auto simp: h2_beam_buffer_size_set_def status_case accounted_def split: prod.splits)
next
  case (Op_timeout_set t)
  then show ?thesis using assms(1,2)
    by (auto simp: h2_beam_timeout_set_def status_case accounted_def split: prod.splits)
next
  case (Op_mutex_set enter cond ctx)
  then show ?thesis using assms(1,2)
    by (auto simp: h2_beam_mutex_set_def status_case accounted_def split: prod.splits)
next
  case (Op_on_consumed cb)
  then show ?thesis using assms(1,2,3)
    by (auto simp: h2_beam_on_consumed_def status_case accounted_def split: prod.splits)
next
  case (Op_on_produced cb)
  then show ?thesis using assms(1,2,3)
    by (auto simp: h2_beam_on_produced_def status_case accounted_def split: prod.splits)
next
  case (Op_on_file_beam cb)
  then show ?thesis using assms(1,2)
    by (auto simp: h2_beam_on_file_beam_def status_case accounted_def split: prod.splits)
next
  case Op_send_pool_cleanup
  then show ?thesis using assms(1,2) send_cleanup_accounted by (auto split: if_splits)
next
  case Op_recv_pool_cleanup
  then show ?thesis using assms(1,2)
    by (auto simp: beam_recv_cleanup_def accounted_recv_fields split: if_splits)
qed

lemma run_ops_accounted:
  "run_ops env b ops = Ret b' \<Longrightarrow> accounted b \<Longrightarrow>
   \<forall>x \<in> set ops. \<not> uninstalls x \<and> sched_keeps accounted (op_sched x) \<Longrightarrow> accounted b'"
proof (induction ops arbitrary: b)
  case Nil
  then show ?case by simp
next
  case (Cons x xs)
  then obtain b1 where a: "apply_op env b x = Ret b1" and r: "run_ops env b1 xs = Ret b'"
    by (auto split: outcome.splits)
  have "accounted b1" using apply_op_accounted [OF a Cons.prems(2)] Cons.prems(3) by simp
  from Cons.IH [OF r this] Cons.prems(3) show ?case by simp
qed

lemma accounted_created:
  "accounted (h2_beam_on_produced (h2_beam_on_consumed (h2_beam_create pool own max_size) True)
                True)"
  by (simp add: accounted_def h2_beam_on_produced_def h2_beam_on_consumed_def h2_beam_create_def
      enter_yellow_def)

text \<open>
  C7, as claimed, fails when the consumed callback is installed after a report. On a
  fresh beam without callbacks: the producer sends 3 bytes, the consumer receives them,
  the producer sends 2 more (the report at the end of that send sets
  \<open>reported_consumed_bytes\<close> to 3 and calls nobody), then the consumed callback is
  installed, the consumer receives the 2 bytes and the beam is closed. The callback was
  called once, with delta 2, while \<open>received_bytes\<close> and \<open>reported_consumed_bytes\<close>
  are 5.
\<close>

theorem late_callback_misses_bytes:
  "map_outcome consumed_calls
     (run_ops plain_env (h2_beam_create 0 H2_BEAM_OWNER_SEND 0)
        [Op_send (Some (brigade 1 [red_bucket 1 BT_HEAP 3])) APR_BLOCK_READ 5 [],
         Op_receive (brigade 2 []) APR_BLOCK_READ 0 [],
         Op_send (Some (brigade 1 [red_bucket 2 BT_HEAP 2])) APR_BLOCK_READ 5 [],
         Op_on_consumed True,
         Op_receive (brigade 2 []) APR_BLOCK_READ 0 [],
         Op_close]) = Ret [2]
   \<and> map_outcome received_bytes
     (run_ops plain_env (h2_beam_create 0 H2_BEAM_OWNER_SEND 0)
        [Op_send (Some (brigade 1 [red_bucket 1 BT_HEAP 3])) APR_BLOCK_READ 5 [],
         Op_receive (brigade 2 []) APR_BLOCK_READ 0 [],
         Op_send (Some (brigade 1 [red_bucket 2 BT_HEAP 2])) APR_BLOCK_READ 5 [],
         Op_on_consumed True,
         Op_receive (brigade 2 []) APR_BLOCK_READ 0 [],
         Op_close]) = Ret 5
   \<and> map_outcome reported_consumed_bytes
     (run_ops plain_env (h2_beam_create 0 H2_BEAM_OWNER_SEND 0)
        [Op_send (Some (brigade 1 [red_bucket 1 BT_HEAP 3])) APR_BLOCK_READ 5 [],
         Op_receive (brigade 2 []) APR_BLOCK_READ 0 [],
         Op_send (Some (brigade 1 [red_bucket 2 BT_HEAP 2])) APR_BLOCK_READ 5 [],
         Op_on_consumed True,
         Op_receive (brigade 2 []) APR_BLOCK_READ 0 [],
         Op_close]) = Ret 5"
  by code_simp

text \<open>
  C7 for a beam whose two callbacks are installed and stay so. Start from a beam on
  which both callbacks are installed and the deltas so far add up to the reported
  counters (a beam just created, once both callbacks are set, is one); run any
  operations none of which takes a callback away, the other thread keeping the same
  accounting while a call waits. If the run returns, the deltas handed to the consumed
  callback add up to \<open>reported_consumed_bytes\<close>, the value of \<open>received_bytes\<close> at the
  last report, and after one more report they add up to \<open>received_bytes\<close>; likewise for
  the produced callback, \<open>reported_produced_bytes\<close> and \<open>sent_bytes\<close>.
\<close>

theorem callback_deltas_account:
  assumes start: "accounted b"
    and ops: "\<forall>x \<in> set ops. \<not> uninstalls x \<and> sched_keeps accounted (op_sched x)"
    and run: "run_ops env b ops = Ret b'"
  shows "sum_list (consumed_calls b') = reported_consumed_bytes b'
       \<and> sum_list (produced_calls b') = reported_produced_bytes b'
       \<and> sum_list (consumed_calls (report_consumption b' f)) = received_bytes b'
       \<and> sum_list (produced_calls (report_production b' f)) = sent_bytes b'"
proof -
  have a: "accounted b'" using run_ops_accounted [OF run start ops] .
  have c: "accounted (report_consumption b' f)" using a by (rule accounted_report_consumption)
  have p: "accounted (report_production b' f)" using a by (rule accounted_report_production)
  have "reported_consumed_bytes (report_consumption b' f) = received_bytes b'"
    "reported_produced_bytes (report_production b' f) = sent_bytes b'"
    by (auto simp: report_consumption_eq report_production_eq)
  then show ?thesis using a c p by (simp add: accounted_def)
qed

text \<open>
  The statement on a beam created with both callbacks: 3 bytes sent and received, 2
  bytes sent and received. The second send reported the 3 bytes consumed; the 2 bytes
  of the second receive are not yet reported, and the next report accounts for them.
\<close>

theorem callback_deltas_account_witness:
  "\<exists>b'. run_ops plain_env
       (h2_beam_on_produced (h2_beam_on_consumed (h2_beam_create 0 H2_BEAM_OWNER_SEND 0) True) True)
       [Op_send (Some (brigade 1 [red_bucket 1 BT_HEAP 3])) APR_BLOCK_READ 5 [],
        Op_receive (brigade 2 []) APR_BLOCK_READ 0 [],
        Op_send (Some (brigade 1 [red_bucket 2 BT_HEAP 2])) APR_BLOCK_READ 5 [],
        Op_receive (brigade 2 []) APR_BLOCK_READ 0 []] = Ret b'
     \<and> consumed_calls b' = [3]
     \<and> received_bytes b' = 5
     \<and> produced_calls b' = [3, 2]
     \<and> sent_bytes b' = 5
     \<and> sum_list (consumed_calls b') = reported_consumed_bytes b'
     \<and> sum_list (produced_calls b') = reported_produced_bytes b'
     \<and> sum_list (consumed_calls (report_consumption b' False)) = received_bytes b'
     \<and> sum_list (produced_calls (report_production b' False)) = sent_bytes b'"
proof -
  let ?b = "h2_beam_on_produced (h2_beam_on_consumed (h2_beam_create 0 H2_BEAM_OWNER_SEND 0) True)
              True"
  let ?ops = "[Op_send (Some (brigade 1 [red_bucket 1 BT_HEAP 3])) APR_BLOCK_READ 5 [],
        Op_receive (brigade 2 []) APR_BLOCK_READ 0 [],
        Op_send (Some (brigade 1 [red_bucket 2 BT_HEAP 2])) APR_BLOCK_READ 5 [],
        Op_receive (brigade 2 []) APR_BLOCK_READ 0 []]"
  have v: "map_outcome (\<lambda>b. (consumed_calls b, received_bytes b, produced_calls b, sent_bytes b))
             (run_ops plain_env ?b ?ops) = Ret ([3], 5, [3, 2], 5)"
    by code_simp
  then obtain b' where r: "run_ops plain_env ?b ?ops = Ret b'"
    and f: "consumed_calls b' = [3]" "received_bytes b' = 5" "produced_calls b' = [3, 2]"
      "sent_bytes b' = 5"
    by (cases "run_ops plain_env ?b ?ops") auto
  have s: "accounted ?b"
    by (simp add: accounted_def h2_beam_on_produced_def h2_beam_on_consumed_def
        h2_beam_create_def enter_yellow_def)
  have o: "\<forall>x \<in> set ?ops. \<not> uninstalls x \<and> sched_keeps accounted (op_sched x)" by simp
  from callback_deltas_account [OF s o r, of False] r f show ?thesis by auto
qed

section \<open>End-of-stream markers: at most one closing marker\<close>

lemma marks_kept_refl [simp]: "marks_kept b b"
  by (simp add: marks_kept_def)

lemma marks_kept_trans: "marks_kept a b \<Longrightarrow> marks_kept b c \<Longrightarrow> marks_kept a c"
  by (simp add: marks_kept_def)

lemma marks_kept_frame5:
  "marks_kept b (b\<lparr>proxies := ps, proxy_mem := pm, hold_list := h, purge_list := pu,
                   recv_buffer := rb\<rparr>)"
  by (simp add: marks_kept_def)

lemma marks_kept_frame4:
  "marks_kept b (b\<lparr>proxies := ps, proxy_mem := pm, hold_list := h, purge_list := pu\<rparr>)"
  by (simp add: marks_kept_def)


lemma recv_file_marks:
  "recv_file env bbp beam r rest bbl remain tr = (st, beam', bbl', remain', tr') \<Longrightarrow>
   marks_kept beam beam'"
  using recv_file_frame [of env bbp beam r rest bbl remain tr st beam' bbl' remain' tr']
  by (auto simp: marks_kept_def)

lemma recv_place_marks:
  "recv_place env beam r rest bbl remain tr = (beam', bbl', remain', tr') \<Longrightarrow>
   marks_kept beam beam'"
  by (auto simp: recv_place_def recv_make_green_def h2_beam_bucket_create_def Let_def
      marks_kept_def split: prod.splits option.splits if_splits)

lemma recv_send_loop_marks:
  "recv_send_loop env bbp readbytes sl beam bbl remain tr = (st, beam', bbl', remain', tr') \<Longrightarrow>
   marks_kept beam beam'"
proof (induction sl arbitrary: beam bbl remain tr)
  case Nil
  then show ?case by simp
next
  case (Cons x rest)
  show ?case
  proof (cases "(readbytes \<le>s 0 \<or> 0 \<le>s remain)
                 \<and> \<not> (0 <s readbytes \<and> blength x > 0 \<and> remain \<le>s 0)")
    case False
    then have "beam' = beam" using Cons.prems by (auto split: if_splits)
    then show ?thesis by simp
  next
    case True
    show ?thesis
    proof (cases "\<not> APR_BUCKET_IS_METADATA x \<and> APR_BUCKET_IS_FILE x")
      case isf: True
      obtain s1 b1 bbl1 r1 t1 where
        f: "recv_file env bbp beam x rest bbl remain tr = (s1, b1, bbl1, r1, t1)"
        by (cases "recv_file env bbp beam x rest bbl remain tr") auto
      note f1 = recv_file_marks [OF f]
      show ?thesis
      proof (cases "s1 = APR_SUCCESS")
        case False
        then have "beam' = b1" using Cons.prems True isf f by auto
        then show ?thesis using f1 by simp
      next
        case s: True
        then have "recv_send_loop env bbp readbytes rest b1 bbl1 r1 t1 =
            (st, beam', bbl', remain', tr')"
          using Cons.prems True isf f by auto
        from marks_kept_trans [OF f1 Cons.IH [OF this]] show ?thesis .
      qed
    next
      case False
      obtain b1 bbl1 r1 t1 where
        p: "recv_place env beam x rest bbl remain tr = (b1, bbl1, r1, t1)"
        by (cases "recv_place env beam x rest bbl remain tr") auto
      have "recv_send_loop env bbp readbytes rest b1 bbl1 r1 t1 =
            (st, beam', bbl', remain', tr')"
        using Cons.prems True False p by auto
      from marks_kept_trans [OF recv_place_marks [OF p] Cons.IH [OF this]]
      show ?thesis .
    qed
  qed
qed


lemma close_step_cases:
  "recv_close_step beam bbl tr = (beam', bbl', tr') \<Longrightarrow>
   (beam' = beam \<and> bbl' = bbl \<and> tr' = tr) \<or>
   (closed beam \<and> (recv_buffer beam = None \<or> recv_buffer beam = Some [])
    \<and> send_list beam = [] \<and> \<not> close_sent beam
    \<and> beam' = beam\<lparr>close_sent := True, close_eos_made := close_eos_made beam + 1\<rparr>
    \<and> bbl' = bbl @ [green_bucket BT_EOS] \<and> tr' = tr + 1)"
  by (auto simp: recv_close_step_def split: if_splits)



lemma eos_inv_marks: "marks_kept b b' \<Longrightarrow> eos_inv b \<Longrightarrow> eos_inv b'"
  by (auto simp: eos_inv_def marks_kept_def)


















text \<open>
  Nor is one the most: every end-of-stream bucket of the producer is forwarded, so two
  of them give the consumer two.
\<close>

lemma two_eos_chunks_two_markers:
  "eos_delivered plain_env (h2_beam_create 0 H2_BEAM_OWNER_SEND 0)
     [Op_send (Some (brigade 1 [red_bucket 1 BT_EOS 0, red_bucket 2 BT_EOS 0])) APR_BLOCK_READ 5 [],
      Op_receive (brigade 2 []) APR_BLOCK_READ 0 [],
      Op_receive (brigade 2 []) APR_NONBLOCK_READ 0 []] = Ret 2"
  by code_simp

section \<open>An aborted beam has reported its consumption\<close>

text \<open>
  The condition under which close and abort commute up to observation holds in every
  state that operations reach from creation.
\<close>

lemma abort_reported_report_consumption:
  "abort_reported b \<Longrightarrow> abort_reported (report_consumption b f)"
  by (simp add: abort_reported_def report_consumption_eq)

lemma abort_reported_report_production:
  "abort_reported b \<Longrightarrow> abort_reported (report_production b f)"
  by (simp add: abort_reported_def report_production_eq)

lemma abort_reported_send_frame: "send_frame b b' \<Longrightarrow> abort_reported b \<Longrightarrow> abort_reported b'"
proof -
  assume f: "send_frame b b'" and a: "abort_reported b"
  have "abort_reported (b\<lparr>send_list := x1, sent_bytes := x2, last_beamed := x3, closed := x4,
                purge_list := x5, send_pool := x6\<rparr>)" for x1 x2 x3 x4 x5 x6
    using a by (simp add: abort_reported_def)
  then show ?thesis using f unfolding send_frame_def by metis
qed

lemma abort_reported_frame4:
  "abort_reported (b\<lparr>proxies := ps, proxy_mem := pm, hold_list := h, purge_list := pu\<rparr>) =
   abort_reported b"
  by (simp add: abort_reported_def)

lemma recv_frame_aborted: "recv_frame b b' \<Longrightarrow> aborted b' = aborted b"
proof -
  assume f: "recv_frame b b'"
  have "aborted (b\<lparr>send_list := x1, hold_list := x2, purge_list := x3, recv_buffer := x4,
      proxies := x5, recv_pool := x6, received_bytes := x7, buckets_sent := x8,
      files_beamed := x9, close_sent := x10, proxy_mem := x11, close_eos_made := x12\<rparr>) =
      aborted b"
    for x1 x2 x3 x4 x5 x6 x7 x8 x9 x10 x11 x12
    by simp
  then show ?thesis using f unfolding recv_frame_def by metis
qed

lemma recv_pass_abort_reported:
  assumes "recv_pass env beam bb block readbytes remain tr mutex = Ret (st, b', bb', r', t')"
    and "abort_reported beam"
  shows "abort_reported b'"
proof (cases "aborted beam")
  case True
  from recv_pass_aborted [OF True assms(1)] assms(2) show ?thesis
    by (auto simp: abort_reported_def)
next
  case False
  have "aborted b' = aborted beam"
    using recv_frame_aborted [OF recv_pass_recv_frame [OF assms(1)]] .
  then show ?thesis using False by (simp add: abort_reported_def)
qed

lemma receive_abort_reported:
  assumes "h2_beam_receive env b bb block readbytes sched = Ret (st, b', bb')"
    and "abort_reported b" and "sched_keeps abort_reported sched"
  shows "abort_reported b'"
proof (cases "fst (enter_yellow b) = APR_SUCCESS")
  case False
  then have "b' = b" using assms(1)
    by (cases "enter_yellow b"; cases "fst (enter_yellow b)") (auto simp: h2_beam_receive_def)
  then show ?thesis using assms(2) by simp
next
  case True
  then obtain m where e: "enter_yellow b = (APR_SUCCESS, m)" by (cases "enter_yellow b") auto
  then have t: "recv_transfer env b bb block readbytes readbytes 0 m sched = Ret (st, b', bb')"
    using assms(1) by (simp add: h2_beam_receive_def)
  have pass: "\<forall>b bb remain tr st b' bb' r' t'.
          abort_reported b \<longrightarrow> recv_pass env b bb block readbytes remain tr m = Ret (st, b', bb', r', t')
          \<longrightarrow> abort_reported b'"
    using recv_pass_abort_reported by blast
  from recv_transfer_keeps [where P = abort_reported, OF t pass assms(2,3)] show ?thesis .
qed

lemma send_abort_reported:
  assumes "h2_beam_send env fuel b red block sched = Ret (st, b', red')"
    and "abort_reported b" and "sched_keeps abort_reported sched"
  shows "abort_reported b'"
proof -
  have stable: "\<forall>b b'. send_frame b b' \<longrightarrow> abort_reported b \<longrightarrow> abort_reported b'"
    using abort_reported_send_frame by blast
  have rp: "\<forall>b f. abort_reported b \<longrightarrow> abort_reported (report_production b f)"
    using abort_reported_report_production by blast
  have rc: "\<forall>b. abort_reported b \<longrightarrow> abort_reported (report_consumption b False)"
    using abort_reported_report_consumption by blast
  from h2_beam_send_keeps [where P = abort_reported, OF stable rp rc assms] show ?thesis .
qed

lemma close_abort_reported: "abort_reported b \<Longrightarrow> abort_reported (snd (h2_beam_close b))"
  by (simp add: h2_beam_close_def Let_def status_case beam_close_def r_purge_sent_def
      abort_reported_def report_consumption_eq split: prod.splits)

lemma abort_abort_reported: "abort_reported b \<Longrightarrow> abort_reported (h2_beam_abort b)"
  by (simp add: h2_beam_abort_def Let_def status_case r_purge_sent_def
      abort_reported_def report_consumption_eq split: prod.splits)

lemma send_cleanup_abort_reported: "abort_reported b \<Longrightarrow> abort_reported (beam_send_cleanup b)"
  by (simp add: beam_send_cleanup_eq abort_reported_def report_consumption_eq)

lemma cleanup_abort_reported:
  "brigade_cleanup b gs = Ret b' \<Longrightarrow> abort_reported b \<Longrightarrow> abort_reported b'"
  using cleanup_frame [of b gs b'] by (auto simp: abort_reported_def)

lemma abort_reported_recv_fields:
  "abort_reported (b\<lparr>recv_buffer := rb, recv_pool := rp\<rparr>) = abort_reported b"
  by (simp add: abort_reported_def)

lemma abort_reported_closed: "abort_reported (beam_close b) = abort_reported b"
  by (simp add: abort_reported_def beam_close_def)

lemma destroy_abort_reported:
  assumes "h2_beam_destroy b = Ret (st, b')" and "abort_reported b"
  shows "abort_reported b'"
proof (cases "owner (beam_close b)")
  case H2_BEAM_OWNER_SEND
  then have "b' = (beam_send_cleanup (beam_close b))\<lparr>recv_buffer := None, recv_pool := None\<rparr>"
    using assms(1) by (simp add: h2_beam_destroy_def beam_cleanup_def Let_def)
  then show ?thesis
    using assms(2) by (simp add: abort_reported_recv_fields send_cleanup_abort_reported abort_reported_closed)
next
  case H2_BEAM_OWNER_RECV
  then obtain b2 where
    c: "(case recv_buffer (beam_close b) of
           Some gs \<Rightarrow> brigade_cleanup (beam_close b) gs | None \<Rightarrow> Ret (beam_close b)) = Ret b2"
    and r: "b' = b2\<lparr>recv_buffer := None, recv_pool := None\<rparr>
            \<or> b' = beam_send_cleanup (b2\<lparr>recv_buffer := None, recv_pool := None\<rparr>)"
    using assms(1)
    by (auto simp: h2_beam_destroy_def beam_cleanup_def Let_def
        split: outcome.splits if_splits)
  have "abort_reported b2"
    using c assms(2) cleanup_abort_reported [of "beam_close b" _ b2]
    by (auto simp: abort_reported_closed split: option.splits)
  then show ?thesis
    using r by (auto simp: abort_reported_recv_fields send_cleanup_abort_reported)
qed

lemma wait_empty_abort_reported:
  assumes "h2_beam_wait_empty b block sched = Ret (st, b')"
    and "abort_reported b" and "sched_keeps abort_reported sched"
  shows "abort_reported b'"
proof (cases "fst (enter_yellow b) = APR_SUCCESS")
  case False
  then have "b' = b" using assms(1)
    by (cases "enter_yellow b"; cases "fst (enter_yellow b)") (auto simp: h2_beam_wait_empty_def)
  then show ?thesis using assms(2) by simp
next
  case True
  then obtain m where e: "enter_yellow b = (APR_SUCCESS, m)" by (cases "enter_yellow b") auto
  then have t: "wait_empty_loop b block m sched = Ret (st, b')"
    using assms(1) by (simp add: h2_beam_wait_empty_def)
  from wait_empty_loop_keeps [OF t assms(2,3)] show ?thesis .
qed

lemma apply_op_abort_reported:
  assumes "apply_op env b x = Ret b'" and "abort_reported b"
    and "sched_keeps abort_reported (op_sched x)"
  shows "abort_reported b'"
proof (cases x)
  case (Op_send red block fuel sched)
  then obtain st red' where "h2_beam_send env fuel b red block sched = Ret (st, b', red')"
    using assms(1) by (auto split: outcome.splits)
  from send_abort_reported [OF this assms(2)] assms(3) Op_send show ?thesis by simp
next
  case (Op_receive bb block readbytes sched)
  then obtain st bb' where "h2_beam_receive env b bb block readbytes sched = Ret (st, b', bb')"
    using assms(1) by (auto split: outcome.splits)
  from receive_abort_reported [OF this assms(2)] assms(3) Op_receive show ?thesis by simp
next
  case Op_close
  then show ?thesis using assms(1,2) close_abort_reported by auto
next
  case Op_abort
  then show ?thesis using assms(1,2) abort_abort_reported by auto
next
  case Op_destroy
  then obtain st where "h2_beam_destroy b = Ret (st, b')"
    using assms(1) by (auto split: outcome.splits)
  from destroy_abort_reported [OF this assms(2)] show ?thesis .
next
  case (Op_wait_empty block sched)
  then obtain st where "h2_beam_wait_empty b block sched = Ret (st, b')"
    using assms(1) by (auto split: outcome.splits)
  from wait_empty_abort_reported [OF this assms(2)] assms(3) Op_wait_empty show ?thesis by simp
next
  case (Op_bucket_destroy a)
  then have "beam_bucket_destroy b a = Ret b'" using assms(1) by simp
  from destroy_frame [OF this] assms(2) show ?thesis by (auto simp: abort_reported_def)
next
  case (Op_bucket_share a)
  then show ?thesis using assms(1,2)
    by (auto simp: proxy_store_def abort_reported_def split: option.splits)
next
  case (Op_buffer_size_set n)
  then show ?thesis using assms(1,2)
    by (auto simp: h2_beam_buffer_size_set_def status_case abort_reported_def split: prod.splits if_splits)
next
  case (Op_timeout_set t)
  then show ?thesis using assms(1,2)
    by (auto simp: h2_beam_timeout_set_def status_case abort_reported_def split: prod.splits if_splits)
next
  case (Op_mutex_set enter cond ctx)
  then show ?thesis using assms(1,2)
    by (auto simp: h2_beam_mutex_set_def status_case abort_reported_def split: prod.splits if_splits)
next
  case (Op_on_consumed cb)
  then show ?thesis using assms(1,2)
    by (auto simp: h2_beam_on_consumed_def status_case abort_reported_def split: prod.splits if_splits)
next
  case (Op_on_produced cb)
  then show ?thesis using assms(1,2)
    by (auto simp: h2_beam_on_produced_def status_case abort_reported_def split: prod.splits if_splits)
next
  case (Op_on_file_beam cb)
  then show ?thesis using assms(1,2)
    by (auto simp: h2_beam_on_file_beam_def status_case abort_reported_def split: prod.splits if_splits)
next
  case Op_send_pool_cleanup
  then show ?thesis using assms(1,2) send_cleanup_abort_reported by (auto split: if_splits)
next
  case Op_recv_pool_cleanup
  then show ?thesis using assms(1,2)
    by (auto simp: beam_recv_cleanup_def abort_reported_recv_fields split: if_splits)
qed

lemma run_ops_abort_reported:
  "run_ops env b ops = Ret b' \<Longrightarrow> abort_reported b \<Longrightarrow>
   \<forall>x \<in> set ops. sched_keeps abort_reported (op_sched x) \<Longrightarrow> abort_reported b'"
proof (induction ops arbitrary: b)
  case Nil
  then show ?case by simp
next
  case (Cons x xs)
  then obtain b1 where a: "apply_op env b x = Ret b1" and r: "run_ops env b1 xs = Ret b'"
    by (auto split: outcome.splits)
  have "abort_reported b1" using apply_op_abort_reported [OF a Cons.prems(2)] Cons.prems(3) by simp
  from Cons.IH [OF r this] Cons.prems(3) show ?case by simp
qed

lemma abort_reported_created: "abort_reported (h2_beam_create pool own max_size)"
  by (simp add: abort_reported_def h2_beam_create_def)

lemma reached_abort_reported:
  assumes "run_ops env (h2_beam_create pool own max_size) ops = Ret b"
    and "\<forall>x \<in> set ops. sched_keeps abort_reported (op_sched x)"
  shows "aborted b \<longrightarrow> received_bytes b = reported_consumed_bytes b"
  using run_ops_abort_reported [OF assms(1) abort_reported_created assms(2)]
  by (simp add: abort_reported_def)

section \<open>Flags that stay set\<close>

text \<open>
  A property of the beam that the frames of the two sides, the reports, the abort
  flag and the setters keep is kept by every operation, and so by every sequence of
  operations.
\<close>

lemma send_cleanup_keeps:
  assumes sf: "\<forall>b b'. send_frame b b' \<longrightarrow> P b \<longrightarrow> P b'"
    and rf: "\<forall>b b'. recv_frame b b' \<longrightarrow> P b \<longrightarrow> P b'"
    and rc: "\<forall>b. P b \<longrightarrow> P (report_consumption b False)"
    and P: "P b"
  shows "P (beam_send_cleanup b)"
proof -
  let ?r = "report_consumption b False"
  let ?s = "?r\<lparr>send_list := [], sent_bytes := sent_bytes ?r, last_beamed := last_beamed ?r,
               closed := closed ?r, purge_list := [], send_pool := None\<rparr>"
  have 1: "P ?r" using rc P by blast
  have "send_frame ?r ?s" by (rule send_frame_upd) simp
  then have 2: "P ?s" using sf 1 by blast
  have e: "beam_send_cleanup b =
      ?s\<lparr>hold_list := [], proxies := [],
         proxy_mem := detach_proxies (proxies b) (proxy_mem b)\<rparr>"
    by (simp add: beam_send_cleanup_eq report_consumption_eq)
  have "recv_frame ?s (beam_send_cleanup b)"
    unfolding e by (simp add: recv_frame_def)
  then show ?thesis using rf 2 by blast
qed

lemma apply_op_keeps:
  assumes sf: "\<forall>b b'. send_frame b b' \<longrightarrow> P b \<longrightarrow> P b'"
    and rf: "\<forall>b b'. recv_frame b b' \<longrightarrow> P b \<longrightarrow> P b'"
    and rp: "\<forall>b f. P b \<longrightarrow> P (report_production b f)"
    and rc: "\<forall>b. P b \<longrightarrow> P (report_consumption b False)"
    and ab: "\<forall>b. P b \<longrightarrow> P (b\<lparr>aborted := True\<rparr>)"
    and cfg: "\<forall>b mb t me mx mc cf pf cb. P b \<longrightarrow>
               P (b\<lparr>max_buf_size := mb\<rparr>) \<and> P (b\<lparr>timeout := t\<rparr>)
               \<and> P (b\<lparr>m_enter := me, m_ctx := mx, m_cond := mc\<rparr>)
               \<and> P (b\<lparr>consumed_fn := cf\<rparr>) \<and> P (b\<lparr>produced_fn := pf\<rparr>)
               \<and> P (b\<lparr>can_beam_fn := cb\<rparr>)"
    and run: "apply_op env b x = Ret b'" and P: "P b"
    and k: "sched_keeps P (op_sched x)"
  shows "P b'"
proof (cases x)
  case (Op_send red block fuel sched)
  then obtain st red' where s: "h2_beam_send env fuel b red block sched = Ret (st, b', red')"
    using run by (auto split: outcome.splits)
  have k': "sched_keeps P sched" using k Op_send by simp
  from h2_beam_send_keeps [where P = P, OF sf rp rc s P k'] show ?thesis .
next
  case (Op_receive bb block readbytes sched)
  then obtain st bb' where r: "h2_beam_receive env b bb block readbytes sched = Ret (st, b', bb')"
    using run by (auto split: outcome.splits)
  have k': "sched_keeps P sched" using k Op_receive by simp
  show ?thesis
  proof (cases "fst (enter_yellow b) = APR_SUCCESS")
    case False
    then have "b' = b" using r
      by (cases "enter_yellow b"; cases "fst (enter_yellow b)") (auto simp: h2_beam_receive_def)
    then show ?thesis using P by simp
  next
    case True
    then obtain m where e: "enter_yellow b = (APR_SUCCESS, m)" by (cases "enter_yellow b") auto
    then have t: "recv_transfer env b bb block readbytes readbytes 0 m sched = Ret (st, b', bb')"
      using r by (simp add: h2_beam_receive_def)
    have pass: "\<forall>b bb remain tr st b' bb' r' t'.
          P b \<longrightarrow> recv_pass env b bb block readbytes remain tr m = Ret (st, b', bb', r', t')
          \<longrightarrow> P b'"
      using recv_pass_recv_frame rf by blast
    from recv_transfer_keeps [where P = P, OF t pass P k'] show ?thesis .
  qed
next
  case Op_close
  show ?thesis
  proof (cases "fst (enter_yellow b) = APR_SUCCESS")
    case False
    then show ?thesis using run P Op_close by (simp add: close_unlocked)
  next
    case True
    then obtain m where e: "enter_yellow b = (APR_SUCCESS, m)" by (cases "enter_yellow b") auto
    let ?c = "b\<lparr>send_list := send_list b, sent_bytes := sent_bytes b,
                last_beamed := last_beamed b, closed := True, purge_list := [],
                send_pool := send_pool b\<rparr>"
    have "send_frame b ?c" by (rule send_frame_upd) simp
    then have "P ?c" using sf P by blast
    then have "P (report_consumption ?c False)" using rc by blast
    moreover have "b' = report_consumption ?c False"
      using run Op_close by (auto simp: close_locked [OF e] report_consumption_eq)
    ultimately show ?thesis by simp
  qed
next
  case Op_abort
  show ?thesis
  proof (cases "fst (enter_yellow b) = APR_SUCCESS")
    case False
    then show ?thesis using run P Op_abort by (simp add: abort_unlocked)
  next
    case True
    then obtain m where e: "enter_yellow b = (APR_SUCCESS, m)" by (cases "enter_yellow b") auto
    show ?thesis
    proof (cases "aborted b")
      case True
      then show ?thesis using run P Op_abort by (simp add: abort_locked [OF e])
    next
      case False
      let ?a = "b\<lparr>aborted := True\<rparr>"
      let ?c = "?a\<lparr>send_list := [], sent_bytes := sent_bytes ?a,
                last_beamed := last_beamed ?a, closed := closed ?a, purge_list := [],
                send_pool := send_pool ?a\<rparr>"
      have 1: "P ?a" using ab P by blast
      have "send_frame ?a ?c" by (rule send_frame_upd) simp
      then have "P ?c" using sf 1 by blast
      then have "P (report_consumption ?c False)" using rc by blast
      moreover have "b' = report_consumption ?c False"
        using run Op_abort False by (auto simp: abort_locked [OF e] report_consumption_eq)
      ultimately show ?thesis by simp
    qed
  qed
next
  case Op_destroy
  then obtain st where d: "h2_beam_destroy b = Ret (st, b')"
    using run by (auto split: outcome.splits)
  have c: "P (beam_close b)"
  proof -
    let ?c = "b\<lparr>send_list := send_list b, sent_bytes := sent_bytes b,
                last_beamed := last_beamed b, closed := True, purge_list := purge_list b,
                send_pool := send_pool b\<rparr>"
    have "send_frame b ?c" by (rule send_frame_upd) simp
    then have "P ?c" using sf P by blast
    moreover have "beam_close b = (if closed b then b else ?c)" by (simp add: beam_close_def)
    ultimately show ?thesis using P by simp
  qed
  have rfields: "P y \<Longrightarrow> P (y\<lparr>recv_buffer := None, recv_pool := None\<rparr>)" for y
  proof -
    assume "P y"
    moreover have "recv_frame y (y\<lparr>recv_buffer := None, recv_pool := None\<rparr>)"
      by (simp add: recv_frame_def)
    ultimately show ?thesis using rf by blast
  qed
  show ?thesis
  proof (cases "owner (beam_close b)")
    case H2_BEAM_OWNER_SEND
    then have "b' = (beam_send_cleanup (beam_close b))\<lparr>recv_buffer := None, recv_pool := None\<rparr>"
      using d by (simp add: h2_beam_destroy_def beam_cleanup_def Let_def)
    then show ?thesis using rfields [OF send_cleanup_keeps [OF sf rf rc c]] by simp
  next
    case H2_BEAM_OWNER_RECV
    then obtain b2 where
      cl: "(case recv_buffer (beam_close b) of
           Some gs \<Rightarrow> brigade_cleanup (beam_close b) gs | None \<Rightarrow> Ret (beam_close b)) = Ret b2"
      and r: "b' = b2\<lparr>recv_buffer := None, recv_pool := None\<rparr>
            \<or> b' = beam_send_cleanup (b2\<lparr>recv_buffer := None, recv_pool := None\<rparr>)"
      using d
      by (auto simp: h2_beam_destroy_def beam_cleanup_def Let_def
          split: outcome.splits if_splits)
    have "P b2"
    proof (cases "recv_buffer (beam_close b)")
      case None
      then show ?thesis using cl c by simp
    next
      case (Some gs)
      then have "brigade_cleanup (beam_close b) gs = Ret b2" using cl by simp
      from cleanup_recv_frame [OF this] rf c show ?thesis by blast
    qed
    then have "P (b2\<lparr>recv_buffer := None, recv_pool := None\<rparr>)" by (rule rfields)
    then show ?thesis using r send_cleanup_keeps [OF sf rf rc] by auto
  qed
next
  case (Op_wait_empty block sched)
  then obtain st where w: "h2_beam_wait_empty b block sched = Ret (st, b')"
    using run by (auto split: outcome.splits)
  have k': "sched_keeps P sched" using k Op_wait_empty by simp
  show ?thesis
  proof (cases "fst (enter_yellow b) = APR_SUCCESS")
    case False
    then have "b' = b" using w
      by (cases "enter_yellow b"; cases "fst (enter_yellow b)")
         (auto simp: h2_beam_wait_empty_def)
    then show ?thesis using P by simp
  next
    case True
    then obtain m where e: "enter_yellow b = (APR_SUCCESS, m)" by (cases "enter_yellow b") auto
    then have t: "wait_empty_loop b block m sched = Ret (st, b')"
      using w by (simp add: h2_beam_wait_empty_def)
    from wait_empty_loop_keeps [OF t P k'] show ?thesis .
  qed
next
  case (Op_bucket_destroy a)
  then have "beam_bucket_destroy b a = Ret b'" using run by simp
  from destroy_recv_frame [OF this] rf P show ?thesis by blast
next
  case (Op_bucket_share a)
  then obtain d where "b' = proxy_store b a (d\<lparr>refcount := refcount d + 1\<rparr>)"
    using run by (auto split: option.splits)
  then have "recv_frame b b'" by (simp add: recv_frame_def proxy_store_def)
  then show ?thesis using rf P by blast
next
  case (Op_buffer_size_set n)
  then have "b' = b \<or> b' = b\<lparr>max_buf_size := n\<rparr>" using run
    by (auto simp: h2_beam_buffer_size_set_def status_case split: prod.splits if_splits)
  then show ?thesis using cfg P by blast
next
  case (Op_timeout_set t)
  then have "b' = b \<or> b' = b\<lparr>timeout := t\<rparr>" using run
    by (auto simp: h2_beam_timeout_set_def status_case split: prod.splits if_splits)
  then show ?thesis using cfg P by blast
next
  case (Op_mutex_set enter cond ctx)
  then have "b' = b \<or> b' = b\<lparr>m_enter := enter, m_ctx := ctx, m_cond := cond\<rparr>" using run
    by (auto simp: h2_beam_mutex_set_def status_case split: prod.splits if_splits)
  then show ?thesis using cfg P by blast
next
  case (Op_on_consumed cb)
  then have "b' = b \<or> b' = b\<lparr>consumed_fn := cb\<rparr>" using run
    by (auto simp: h2_beam_on_consumed_def status_case split: prod.splits if_splits)
  then show ?thesis using cfg P by blast
next
  case (Op_on_produced cb)
  then have "b' = b \<or> b' = b\<lparr>produced_fn := cb\<rparr>" using run
    by (auto simp: h2_beam_on_produced_def status_case split: prod.splits if_splits)
  then show ?thesis using cfg P by blast
next
  case (Op_on_file_beam cb)
  then have "b' = b \<or> b' = b\<lparr>can_beam_fn := cb\<rparr>" using run
    by (auto simp: h2_beam_on_file_beam_def status_case split: prod.splits if_splits)
  then show ?thesis using cfg P by blast
next
  case Op_send_pool_cleanup
  then have "b' = b \<or> b' = beam_send_cleanup b" using run by (auto split: if_splits)
  then show ?thesis using P send_cleanup_keeps [OF sf rf rc P] by auto
next
  case Op_recv_pool_cleanup
  then have "b' = b \<or> b' = b\<lparr>recv_buffer := None, recv_pool := None\<rparr>"
    using run by (auto simp: beam_recv_cleanup_def split: if_splits)
  moreover have "recv_frame b (b\<lparr>recv_buffer := None, recv_pool := None\<rparr>)"
    by (simp add: recv_frame_def)
  ultimately show ?thesis using rf P by blast
qed

lemma run_ops_keeps:
  assumes sf: "\<forall>b b'. send_frame b b' \<longrightarrow> P b \<longrightarrow> P b'"
    and rf: "\<forall>b b'. recv_frame b b' \<longrightarrow> P b \<longrightarrow> P b'"
    and rp: "\<forall>b f. P b \<longrightarrow> P (report_production b f)"
    and rc: "\<forall>b. P b \<longrightarrow> P (report_consumption b False)"
    and ab: "\<forall>b. P b \<longrightarrow> P (b\<lparr>aborted := True\<rparr>)"
    and cfg: "\<forall>b mb t me mx mc cf pf cb. P b \<longrightarrow>
               P (b\<lparr>max_buf_size := mb\<rparr>) \<and> P (b\<lparr>timeout := t\<rparr>)
               \<and> P (b\<lparr>m_enter := me, m_ctx := mx, m_cond := mc\<rparr>)
               \<and> P (b\<lparr>consumed_fn := cf\<rparr>) \<and> P (b\<lparr>produced_fn := pf\<rparr>)
               \<and> P (b\<lparr>can_beam_fn := cb\<rparr>)"
  shows "run_ops env b ops = Ret b' \<Longrightarrow> P b \<Longrightarrow>
         \<forall>x \<in> set ops. sched_keeps P (op_sched x) \<Longrightarrow> P b'"
proof (induction ops arbitrary: b)
  case Nil
  then show ?case by simp
next
  case (Cons x xs)
  then obtain b1 where a: "apply_op env b x = Ret b1" and r: "run_ops env b1 xs = Ret b'"
    by (auto split: outcome.splits)
  have k: "sched_keeps P (op_sched x)" using Cons.prems(3) by simp
  have "P b1" using apply_op_keeps [where P = P, OF sf rf rp rc ab cfg a Cons.prems(2) k] .
  from Cons.IH [OF r this] Cons.prems(3) show ?case by simp
qed

lemma send_frame_aborted: "send_frame b b' \<Longrightarrow> aborted b' = aborted b"
proof -
  assume f: "send_frame b b'"
  have "aborted (b\<lparr>send_list := x1, sent_bytes := x2, last_beamed := x3, closed := x4,
                purge_list := x5, send_pool := x6\<rparr>) = aborted b" for x1 x2 x3 x4 x5 x6
    by simp
  then show ?thesis using f unfolding send_frame_def by metis
qed

lemma recv_frame_closed: "recv_frame b b' \<Longrightarrow> closed b' = closed b"
proof -
  assume f: "recv_frame b b'"
  have "closed (b\<lparr>send_list := x1, hold_list := x2, purge_list := x3, recv_buffer := x4,
      proxies := x5, recv_pool := x6, received_bytes := x7, buckets_sent := x8,
      files_beamed := x9, close_sent := x10, proxy_mem := x11, close_eos_made := x12\<rparr>) =
      closed b"
    for x1 x2 x3 x4 x5 x6 x7 x8 x9 x10 x11 x12
    by simp
  then show ?thesis using f unfolding recv_frame_def by metis
qed

text \<open>
  Nothing resets \<open>aborted\<close>, and nothing resets \<open>closed\<close>: once set, a flag is set
  after any further operations, as long as the other thread, while a call waits, does
  not reset it either.
\<close>

lemma aborted_stays:
  assumes "run_ops env b ops = Ret b'" and "aborted b"
    and "\<forall>x \<in> set ops. sched_keeps aborted (op_sched x)"
  shows "aborted b'"
proof (rule run_ops_keeps [where P = aborted, OF _ _ _ _ _ _ assms])
  show "\<forall>b b'. send_frame b b' \<longrightarrow> aborted b \<longrightarrow> aborted b'"
    using send_frame_aborted by blast
  show "\<forall>b b'. recv_frame b b' \<longrightarrow> aborted b \<longrightarrow> aborted b'"
    using recv_frame_aborted by blast
  show "\<forall>b f. aborted b \<longrightarrow> aborted (report_production b f)"
    by (simp add: report_production_eq)
  show "\<forall>b. aborted b \<longrightarrow> aborted (report_consumption b False)"
    by (simp add: report_consumption_eq)
qed simp_all

lemma closed_stays:
  assumes "run_ops env b ops = Ret b'" and "closed b"
    and "\<forall>x \<in> set ops. sched_keeps closed (op_sched x)"
  shows "closed b'"
proof (rule run_ops_keeps [where P = closed, OF _ _ _ _ _ _ assms])
  show "\<forall>b b'. send_frame b b' \<longrightarrow> closed b \<longrightarrow> closed b'"
    by (simp add: send_frame_def)
  show "\<forall>b b'. recv_frame b b' \<longrightarrow> closed b \<longrightarrow> closed b'"
    using recv_frame_closed by blast
  show "\<forall>b f. closed b \<longrightarrow> closed (report_production b f)"
    by (simp add: report_production_eq)
  show "\<forall>b. closed b \<longrightarrow> closed (report_consumption b False)"
    by (simp add: report_consumption_eq)
qed simp_all

section \<open>What a pass of receive takes from the send list\<close>

lemma counted_bytes_append [simp]:
  "counted_bytes (xs @ ys) = counted_bytes xs + counted_bytes ys"
  by (simp add: counted_bytes_def)

lemma counted_bytes_Nil [simp]: "counted_bytes [] = 0"
  by (simp add: counted_bytes_def)

lemma counted_bytes_single:
  "counted_bytes [r] = (if btype r = BT_FILE then 0 else blength r)"
  by (simp add: counted_bytes_def)

lemma counted_bytes_Cons:
  "counted_bytes (x # xs) = (if btype x = BT_FILE then 0 else blength x) + counted_bytes xs"
  by (simp add: counted_bytes_def)

lemma counted_bytes_files:
  "\<forall>x \<in> set bs. btype x = BT_FILE \<Longrightarrow> counted_bytes bs = 0"
  by (induction bs) (simp_all add: counted_bytes_def)

lemma eos_count_append [simp]: "eos_count (xs @ ys) = eos_count xs + eos_count ys"
  by (simp add: eos_count_def)

lemma eos_count_Nil [simp]: "eos_count [] = 0"
  by (simp add: eos_count_def)

lemma eos_count_Cons:
  "eos_count (x # xs) = (if APR_BUCKET_IS_EOS x then 1 else 0) + eos_count xs"
  by (simp add: eos_count_def)

lemma taken_prefix:
  "send_list b = t @ send_list b' \<Longrightarrow> taken_from_send b b' = t"
  by (simp add: taken_from_send_def)

lemma recv_file_step:
  assumes "recv_file env bbp beam r rest bbl remain tr = (st, b1, bbl1, r1, t1)"
  shows "(st \<noteq> APR_SUCCESS \<longrightarrow> b1 = beam \<and> bbl1 = bbl)
       \<and> (st = APR_SUCCESS \<longrightarrow>
            send_list b1 = rest \<and> received_bytes b1 = received_bytes beam
            \<and> close_sent b1 = close_sent beam \<and> recv_buffer b1 = recv_buffer beam
            \<and> (\<exists>g. bbl1 = bbl @ [g] \<and> btype g = BT_FILE))"
  using assms
  by (auto simp: recv_file_def Let_def green_bucket_def split: prod.splits if_splits)

lemma h2_beam_bucket_eos:
  "\<forall>f \<in> set bs. \<forall>r. eos_count (f r) = 0 \<Longrightarrow> eos_count (h2_beam_bucket bs r) = 0"
  by (induction bs) auto

lemma recv_place_step:
  assumes "recv_place env beam r rest bbl remain tr = (b1, bbl1, r1, t1)"
  shows "send_list b1 = rest \<and> received_bytes b1 = received_bytes beam + blength r
       \<and> recv_buffer b1 = recv_buffer beam
       \<and> (close_sent beam \<longrightarrow> close_sent b1)
       \<and> (APR_BUCKET_IS_EOS r \<longrightarrow> close_sent b1)
       \<and> (eos_neutral env \<longrightarrow>
            eos_count bbl1 = eos_count bbl + (if APR_BUCKET_IS_EOS r then 1 else 0))"
proof -
  have e: "eos_neutral env \<Longrightarrow> eos_count (h2_beam_bucket (beamers env) r) = 0"
    by (rule h2_beam_bucket_eos) (simp add: eos_neutral_def)
  show ?thesis
    using assms e
    by (auto simp: recv_place_def recv_make_green_def h2_beam_bucket_create_def Let_def
        green_bucket_def eos_count_Cons APR_BUCKET_IS_EOS_def APR_BUCKET_IS_METADATA_def
        APR_BUCKET_IS_FLUSH_def AP_BUCKET_IS_ERROR_def
        split: prod.splits option.splits if_splits)
qed

lemma recv_send_loop_taken:
  "recv_send_loop env bbp readbytes sl beam bbl remain tr = (st, beam', bbl', remain', tr') \<Longrightarrow>
   send_list beam = sl \<Longrightarrow>
   \<exists>taken. sl = taken @ send_list beam'
     \<and> received_bytes beam' = received_bytes beam + counted_bytes taken
     \<and> recv_buffer beam' = recv_buffer beam
     \<and> (close_sent beam \<longrightarrow> close_sent beam')
     \<and> (0 < eos_count taken \<longrightarrow> close_sent beam')
     \<and> (eos_neutral env \<longrightarrow> eos_count bbl' = eos_count bbl + eos_count taken)"
proof (induction sl arbitrary: beam bbl remain tr)
  case Nil
  then show ?case by simp
next
  case (Cons x rest)
  show ?case
  proof (cases "(readbytes \<le>s 0 \<or> 0 \<le>s remain)
                 \<and> \<not> (0 <s readbytes \<and> blength x > 0 \<and> remain \<le>s 0)")
    case False
    then have "beam' = beam" "bbl' = bbl" using Cons.prems(1) by (auto split: if_splits)
    then show ?thesis using Cons.prems(2) by (intro exI [of _ "[]"]) simp
  next
    case True
    show ?thesis
    proof (cases "\<not> APR_BUCKET_IS_METADATA x \<and> APR_BUCKET_IS_FILE x")
      case isf: True
      then have ft: "btype x = BT_FILE" by (simp add: APR_BUCKET_IS_FILE_def)
      obtain s1 b1 bbl1 r1 t1 where
        f: "recv_file env bbp beam x rest bbl remain tr = (s1, b1, bbl1, r1, t1)"
        by (cases "recv_file env bbp beam x rest bbl remain tr") auto
      note f1 = recv_file_step [OF f]
      show ?thesis
      proof (cases "s1 = APR_SUCCESS")
        case False
        then have "beam' = b1" "bbl' = bbl1" using Cons.prems(1) True isf f by auto
        then have "beam' = beam" "bbl' = bbl" using f1 False by auto
        then show ?thesis using Cons.prems(2) by (intro exI [of _ "[]"]) simp
      next
        case s: True
        then have l: "recv_send_loop env bbp readbytes rest b1 bbl1 r1 t1 =
            (st, beam', bbl', remain', tr')"
          using Cons.prems(1) True isf f by auto
        have sl1: "send_list b1 = rest" using f1 s by simp
        from Cons.IH [OF l sl1] obtain taken where
          tt: "rest = taken @ send_list beam'
          \<and> received_bytes beam' = received_bytes b1 + counted_bytes taken
          \<and> recv_buffer beam' = recv_buffer b1
          \<and> (close_sent b1 \<longrightarrow> close_sent beam')
          \<and> (0 < eos_count taken \<longrightarrow> close_sent beam')
          \<and> (eos_neutral env \<longrightarrow> eos_count bbl' = eos_count bbl1 + eos_count taken)" ..
        note t = tt [THEN conjunct1] tt [THEN conjunct2, THEN conjunct1]
          tt [THEN conjunct2, THEN conjunct2, THEN conjunct2, THEN conjunct1]
          tt [THEN conjunct2, THEN conjunct2, THEN conjunct2, THEN conjunct2, THEN conjunct1]
          tt [THEN conjunct2, THEN conjunct2, THEN conjunct2, THEN conjunct2, THEN conjunct2]
          tt [THEN conjunct2, THEN conjunct2, THEN conjunct1]
        have ne: "\<not> APR_BUCKET_IS_EOS x" using ft by (simp add: APR_BUCKET_IS_EOS_def)
        from f1 s obtain g where g: "bbl1 = bbl @ [g]" "btype g = BT_FILE" by blast
        have e1: "eos_count bbl1 = eos_count bbl"
          using g by (simp add: eos_count_Cons APR_BUCKET_IS_EOS_def)
        have c1: "x # rest = (x # taken) @ send_list beam'" using t(1) by simp
        have c2: "received_bytes beam' = received_bytes beam + counted_bytes (x # taken)"
          using t(2) f1 s ft by (simp add: counted_bytes_Cons)
        have c3: "close_sent beam \<longrightarrow> close_sent beam'" using t(3) f1 s by simp
        have c4: "0 < eos_count (x # taken) \<longrightarrow> close_sent beam'"
          using t(4) ne by (simp add: eos_count_Cons)
        have c5: "eos_neutral env \<longrightarrow> eos_count bbl' = eos_count bbl + eos_count (x # taken)"
          using t(5) e1 ne by (simp add: eos_count_Cons)
        have c6: "recv_buffer beam' = recv_buffer beam" using t(6) f1 s by simp
        show ?thesis using c1 c2 c3 c4 c5 c6 by (intro exI [of _ "x # taken"]) simp
      qed
    next
      case False
      then have nf: "btype x \<noteq> BT_FILE"
        by (auto simp: APR_BUCKET_IS_FILE_def APR_BUCKET_IS_METADATA_def)
      obtain b1 bbl1 r1 t1 where
        p: "recv_place env beam x rest bbl remain tr = (b1, bbl1, r1, t1)"
        by (cases "recv_place env beam x rest bbl remain tr") auto
      note p1 = recv_place_step [OF p]
      have l: "recv_send_loop env bbp readbytes rest b1 bbl1 r1 t1 =
            (st, beam', bbl', remain', tr')"
        using Cons.prems(1) True False p by auto
      have sl1: "send_list b1 = rest" using p1 by simp
      from Cons.IH [OF l sl1] obtain taken where
        tt: "rest = taken @ send_list beam'
        \<and> received_bytes beam' = received_bytes b1 + counted_bytes taken
        \<and> recv_buffer beam' = recv_buffer b1
        \<and> (close_sent b1 \<longrightarrow> close_sent beam')
        \<and> (0 < eos_count taken \<longrightarrow> close_sent beam')
        \<and> (eos_neutral env \<longrightarrow> eos_count bbl' = eos_count bbl1 + eos_count taken)" ..
        note t = tt [THEN conjunct1] tt [THEN conjunct2, THEN conjunct1]
        tt [THEN conjunct2, THEN conjunct2, THEN conjunct2, THEN conjunct1]
        tt [THEN conjunct2, THEN conjunct2, THEN conjunct2, THEN conjunct2, THEN conjunct1]
        tt [THEN conjunct2, THEN conjunct2, THEN conjunct2, THEN conjunct2, THEN conjunct2]
        tt [THEN conjunct2, THEN conjunct2, THEN conjunct1]
      have c1: "x # rest = (x # taken) @ send_list beam'" using t(1) by simp
      have c2: "received_bytes beam' = received_bytes beam + counted_bytes (x # taken)"
        using t(2) p1 nf by (simp add: counted_bytes_Cons add.assoc)
      have c3: "close_sent beam \<longrightarrow> close_sent beam'" using t(3) p1 by simp
      have c4: "0 < eos_count (x # taken) \<longrightarrow> close_sent beam'"
        using t(3,4) p1 by (auto simp: eos_count_Cons split: if_splits)
      have c5: "eos_neutral env \<longrightarrow> eos_count bbl' = eos_count bbl + eos_count (x # taken)"
        using t(5) p1 by (simp add: eos_count_Cons)
      have c6: "recv_buffer beam' = recv_buffer beam" using t(6) p1 by simp
      show ?thesis using c1 c2 c3 c4 c5 c6 by (intro exI [of _ "x # taken"]) simp
    qed
  qed
qed


lemma recv_buffer_loop_moves:
  "recv_buffer_loop readbytes gs bbl remain tr = (gs', bbl', remain', tr') \<Longrightarrow>
   bbl' @ gs' = bbl @ gs"
proof (induction gs arbitrary: bbl remain tr)
  case Nil
  then show ?case by simp
next
  case (Cons g gs)
  show ?case
  proof (cases "(readbytes \<le>s 0 \<or> 0 \<le>s remain)
                 \<and> \<not> (0 <s readbytes \<and> blength g > 0 \<and> remain \<le>s 0)")
    case False
    then have "gs' = g # gs" "bbl' = bbl" using Cons.prems by (auto split: if_splits)
    then show ?thesis by simp
  next
    case True
    then have "recv_buffer_loop readbytes gs (bbl @ [g]) (remain - blength g) (tr + 1) =
        (gs', bbl', remain', tr')"
      using Cons.prems by (auto split: if_splits)
    from Cons.IH [OF this] show ?thesis by simp
  qed
qed

lemma stage1_moves:
  assumes "recv_stage1 beam bb readbytes remain tr = (beam2, bbl2, remain2, tr2)"
  shows "bbl2 @ recv_buffered beam2 = brigade_list bb @ recv_buffered beam
       \<and> send_list beam2 = send_list beam \<and> received_bytes beam2 = received_bytes beam
       \<and> close_sent beam2 = close_sent beam \<and> close_eos_made beam2 = close_eos_made beam
       \<and> closed beam2 = closed beam"
proof -
  define beam1 where "beam1 = beam_set_recv_pool beam (Some (brigade_p bb))"
  have b1: "recv_buffer beam1 = recv_buffer beam" "send_list beam1 = send_list beam"
    "received_bytes beam1 = received_bytes beam" "close_sent beam1 = close_sent beam"
    "close_eos_made beam1 = close_eos_made beam" "closed beam1 = closed beam"
    by (simp_all add: beam1_def beam_set_recv_pool_def)
  show ?thesis
  proof (cases "recv_buffer beam")
    case None
    then have "beam2 = beam1" "bbl2 = brigade_list bb"
      using assms b1 by (auto simp: recv_stage1_def Let_def beam1_def [symmetric])
    then show ?thesis using b1 None by (simp add: recv_buffered_def)
  next
    case (Some gs)
    obtain gs' bbl r' t' where
      l: "recv_buffer_loop readbytes gs (brigade_list bb) remain tr = (gs', bbl, r', t')"
      by (cases "recv_buffer_loop readbytes gs (brigade_list bb) remain tr") auto
    then have "beam2 = beam1\<lparr>recv_buffer := Some gs'\<rparr>" "bbl2 = bbl"
      using assms b1 Some by (auto simp: recv_stage1_def Let_def beam1_def [symmetric])
    then show ?thesis using b1 Some recv_buffer_loop_moves [OF l] by (simp add: recv_buffered_def)
  qed
qed

lemma find_overshoot_split:
  "find_overshoot bbl remain = Inr (pre, g, post, r) \<Longrightarrow> bbl = pre @ g # post"
proof (induction bbl arbitrary: remain pre)
  case Nil
  then show ?case by simp
next
  case (Cons x xs)
  show ?case
  proof (cases "remain - blength x <s 0")
    case True
    then show ?thesis using Cons.prems by (simp add: Let_def)
  next
    case False
    then obtain pre' where
      f: "find_overshoot xs (remain - blength x) = Inr (pre', g, post, r)" and p: "pre = x # pre'"
      using Cons.prems by (auto simp: Let_def split: sum.splits)
    from Cons.IH [OF f] p show ?thesis by simp
  qed
qed

lemma green_split_eos:
  assumes "green_split env beam g point = Ret (g', ins, beam1)" and "eos_neutral env"
  shows "eos_count (g' # ins) = eos_count [g] \<and> recv_buffer beam1 = recv_buffer beam
       \<and> send_list beam1 = send_list beam \<and> received_bytes beam1 = received_bytes beam
       \<and> close_sent beam1 = close_sent beam \<and> close_eos_made beam1 = close_eos_made beam
       \<and> closed beam1 = closed beam"
proof (cases "btype g = BT_BEAM")
  case True
  then show ?thesis using assms(1)
    by (auto simp: green_split_def proxy_store_def eos_count_Cons APR_BUCKET_IS_EOS_def
        split: if_splits option.splits)
next
  case False
  obtain st h i where s: "apr_bucket_split env g point = (st, h, i)"
    by (cases "apr_bucket_split env g point") auto
  have "eos_count (h # i) = eos_count [g]"
    using assms(2) s unfolding eos_neutral_def by (auto split: prod.splits)
  then show ?thesis using assms(1) False s by (auto simp: green_split_def)
qed

lemma sle_not_sless: "(x \<le>s 0) = (\<not> 0 <s x)" for x :: "'a::len word"
  by (auto simp: word_sle_eq word_sless_alt)

lemma put_back_eos:
  assumes pb: "recv_put_back env beam readbytes bbl remain = Ret (beam', bbl', remain')"
    and en: "eos_neutral env"
  shows "eos_count bbl' + eos_count (recv_buffered beam') \<le>
           eos_count bbl + eos_count (recv_buffered beam)
       \<and> (recv_buffered beam = [] \<or> readbytes \<le>s 0 \<longrightarrow>
            eos_count bbl' + eos_count (recv_buffered beam') =
              eos_count bbl + eos_count (recv_buffered beam))"
proof (cases "0 <s readbytes \<and> remain <s 0")
  case False
  then have "beam' = beam" "bbl' = bbl" using pb by (auto simp: recv_put_back_def)
  then show ?thesis by simp
next
  case True
  then have nle: "\<not> readbytes \<le>s 0" by (simp add: sle_not_sless)
  show ?thesis
  proof (cases "find_overshoot bbl readbytes")
    case (Inl r)
    then have "beam' = beam" "bbl' = bbl" using pb True by (auto simp: recv_put_back_def)
    then show ?thesis by simp
  next
    case (Inr q)
    then obtain pre g post r where q: "find_overshoot bbl readbytes = Inr (pre, g, post, r)"
      by (cases q) auto
    have bbl: "bbl = pre @ g # post" using find_overshoot_split [OF q] .
    obtain g' ins beam1 where gs: "green_split env beam g (blength g + r) = Ret (g', ins, beam1)"
      using pb True q by (auto simp: recv_put_back_def split: outcome.splits)
    note g1 = green_split_eos [OF gs en]
    obtain beam2 where
      c: "(case recv_buffer beam1 of
             Some old \<Rightarrow> (if old \<noteq> [] then brigade_cleanup beam1 old else Ret beam1)
           | None \<Rightarrow> Ret beam1) = Ret beam2"
      and r: "beam' = beam2\<lparr>recv_buffer := Some (ins @ post)\<rparr>" "bbl' = pre @ [g']"
      using pb True q gs by (auto simp: recv_put_back_def split: outcome.splits)
    have "eos_count bbl' + eos_count (recv_buffered beam') =
          eos_count pre + eos_count (g' # ins) + eos_count post"
      using r by (simp add: recv_buffered_def eos_count_Cons)
    also have "\<dots> = eos_count bbl" using g1 bbl by (simp add: eos_count_Cons)
    finally have e: "eos_count bbl' + eos_count (recv_buffered beam') = eos_count bbl" .
    then show ?thesis using nle by auto
  qed
qed

lemma put_back_keeps:
  assumes "recv_put_back env beam readbytes bbl remain = Ret (beam', bbl', remain')"
  shows "send_list beam' = send_list beam \<and> received_bytes beam' = received_bytes beam
       \<and> close_sent beam' = close_sent beam \<and> close_eos_made beam' = close_eos_made beam
       \<and> closed beam' = closed beam"
  using recv_put_back_frame [OF assms] by auto

lemma stage1_empty:
  assumes "recv_stage1 beam bb readbytes remain tr = (beam2, bbl2, remain2, tr2)"
    and "recv_buffered beam = []"
  shows "recv_buffered beam2 = []"
proof -
  define beam1 where "beam1 = beam_set_recv_pool beam (Some (brigade_p bb))"
  have b1: "recv_buffer beam1 = recv_buffer beam"
    by (simp add: beam1_def beam_set_recv_pool_def)
  show ?thesis
  proof (cases "recv_buffer beam")
    case None
    then have "beam2 = beam1"
      using assms(1) b1 by (auto simp: recv_stage1_def Let_def beam1_def [symmetric])
    then show ?thesis using b1 None by (simp add: recv_buffered_def)
  next
    case (Some gs)
    then have "gs = []" using assms(2) by (simp add: recv_buffered_def)
    then have "beam2 = beam1\<lparr>recv_buffer := Some []\<rparr>"
      using assms(1) b1 Some by (auto simp: recv_stage1_def Let_def beam1_def [symmetric])
    then show ?thesis by (simp add: recv_buffered_def)
  qed
qed

lemma recv_pass_taken:
  assumes pass: "recv_pass env beam bb block readbytes remain tr mutex = Ret (st, b', bb', r', t')"
  shows "\<exists>taken. send_list beam = taken @ send_list b'
     \<and> received_bytes b' = received_bytes beam + counted_bytes taken
     \<and> (0 < eos_count taken \<longrightarrow> close_sent b')
     \<and> close_eos_made beam \<le> close_eos_made b'
     \<and> (eos_neutral env \<longrightarrow> \<not> aborted beam \<longrightarrow>
          eos_count (brigade_list bb') + eos_count (recv_buffered b') \<le>
            eos_count (brigade_list bb) + eos_count (recv_buffered beam) + eos_count taken
              + (close_eos_made b' - close_eos_made beam)
          \<and> (recv_buffered beam = [] \<or> readbytes \<le>s 0 \<longrightarrow>
               eos_count (brigade_list bb') + eos_count (recv_buffered b') =
                 eos_count (brigade_list bb) + eos_count (recv_buffered beam) + eos_count taken
                   + (close_eos_made b' - close_eos_made beam)))"
proof (cases "aborted beam")
  case True
  from recv_pass_aborted [OF True pass]
  have "send_list b' = send_list beam" "received_bytes b' = received_bytes beam"
    "close_eos_made b' = close_eos_made beam"
    by auto
  then show ?thesis using True by (intro exI [of _ "[]"]) simp
next
  case False
  from False pass show ?thesis
  proof (cases rule: recv_pass_steps)
    case (leave beam2 bbl2 remain2 tr2 status)
    note s1 = stage1_moves [OF leave(1)]
    from recv_send_loop_taken [OF leave(2) refl] obtain taken where
      tt: "send_list beam2 = taken @ send_list b'
     \<and> received_bytes b' = received_bytes beam2 + counted_bytes taken
     \<and> recv_buffer b' = recv_buffer beam2
     \<and> (close_sent beam2 \<longrightarrow> close_sent b')
     \<and> (0 < eos_count taken \<longrightarrow> close_sent b')
     \<and> (eos_neutral env \<longrightarrow> eos_count (brigade_list bb') = eos_count bbl2 + eos_count taken)" ..
    have m: "marks_kept beam2 b'" using recv_send_loop_marks [OF leave(2)] .
    have ce: "close_eos_made b' = close_eos_made beam"
      using m s1 by (simp add: marks_kept_def)
    have rb: "recv_buffered b' = recv_buffered beam2" using tt by (simp add: recv_buffered_def)
    have cnt: "eos_count bbl2 + eos_count (recv_buffered beam2) =
               eos_count (brigade_list bb) + eos_count (recv_buffered beam)"
      using s1 [THEN conjunct1] by (metis eos_count_append)
    have c1: "send_list beam = taken @ send_list b'" using tt s1 by simp
    have c2: "received_bytes b' = received_bytes beam + counted_bytes taken" using tt s1 by simp
    have c3: "0 < eos_count taken \<longrightarrow> close_sent b'" using tt by simp
    have c5: "eos_neutral env \<longrightarrow>
          eos_count (brigade_list bb') + eos_count (recv_buffered b') =
            eos_count (brigade_list bb) + eos_count (recv_buffered beam) + eos_count taken
              + (close_eos_made b' - close_eos_made beam)"
      using tt rb cnt ce by simp
    show ?thesis using c1 c2 c3 c5 ce by (intro exI [of _ taken]) simp
  next
    case (finish beam2 bbl2 remain2 tr2 beam3 bbl3 remain3 tr3 beam4 bbl4)
    note s1 = stage1_moves [OF finish(1)]
    from recv_send_loop_taken [OF finish(2) refl] obtain taken where
      tt: "send_list beam2 = taken @ send_list beam3
     \<and> received_bytes beam3 = received_bytes beam2 + counted_bytes taken
     \<and> recv_buffer beam3 = recv_buffer beam2
     \<and> (close_sent beam2 \<longrightarrow> close_sent beam3)
     \<and> (0 < eos_count taken \<longrightarrow> close_sent beam3)
     \<and> (eos_neutral env \<longrightarrow> eos_count bbl3 = eos_count bbl2 + eos_count taken)" ..
    have m: "marks_kept beam2 beam3" using recv_send_loop_marks [OF finish(2)] .
    note pk = put_back_keeps [OF finish(3)]
    have cnt: "eos_count bbl2 + eos_count (recv_buffered beam2) =
               eos_count (brigade_list bb) + eos_count (recv_buffered beam)"
      using s1 [THEN conjunct1] by (metis eos_count_append)
    have rb3: "recv_buffered beam3 = recv_buffered beam2" using tt by (simp add: recv_buffered_def)
    have ce4: "close_eos_made beam4 = close_eos_made beam"
      using m s1 pk by (simp add: marks_kept_def)
    have same: "b' = beam4 \<and> brigade_list bb' = bbl4
        \<or> b' = beam4\<lparr>close_sent := True, close_eos_made := close_eos_made beam4 + 1\<rparr>
          \<and> brigade_list bb' = bbl4 @ [green_bucket BT_EOS]"
      using close_step_cases [OF finish(4)] by auto
    have geos: "eos_count [green_bucket BT_EOS] = 1"
      by (simp add: eos_count_Cons APR_BUCKET_IS_EOS_def green_bucket_def)
    have c1: "send_list beam = taken @ send_list b'" using tt s1 pk same by auto
    have c2: "received_bytes b' = received_bytes beam + counted_bytes taken"
      using tt s1 pk same by auto
    have c3: "0 < eos_count taken \<longrightarrow> close_sent b'" using tt pk same by auto
    have c4: "close_eos_made beam \<le> close_eos_made b'" using ce4 same by auto
    have fin: "eos_count (brigade_list bb') + eos_count (recv_buffered b') =
               eos_count bbl4 + eos_count (recv_buffered beam4)
                 + (close_eos_made b' - close_eos_made beam)"
      using same ce4 geos by (auto simp: recv_buffered_def)
    have c5: "eos_count (brigade_list bb') + eos_count (recv_buffered b') \<le>
            eos_count (brigade_list bb) + eos_count (recv_buffered beam) + eos_count taken
              + (close_eos_made b' - close_eos_made beam)
          \<and> (recv_buffered beam = [] \<or> readbytes \<le>s 0 \<longrightarrow>
               eos_count (brigade_list bb') + eos_count (recv_buffered b') =
                 eos_count (brigade_list bb) + eos_count (recv_buffered beam) + eos_count taken
                   + (close_eos_made b' - close_eos_made beam))"
      if en: "eos_neutral env"
    proof -
      note pb = put_back_eos [OF finish(3) en]
      have l3: "eos_count bbl3 = eos_count bbl2 + eos_count taken" using tt en by simp
      have le: "eos_count bbl4 + eos_count (recv_buffered beam4) \<le>
                eos_count (brigade_list bb) + eos_count (recv_buffered beam) + eos_count taken"
        using pb [THEN conjunct1] l3 rb3 cnt by simp
      have eq: "eos_count bbl4 + eos_count (recv_buffered beam4) =
                eos_count (brigade_list bb) + eos_count (recv_buffered beam) + eos_count taken"
        if h: "recv_buffered beam = [] \<or> readbytes \<le>s 0"
      proof -
        have "recv_buffered beam3 = [] \<or> readbytes \<le>s 0"
          using h stage1_empty [OF finish(1)] rb3 by auto
        from pb [THEN conjunct2, rule_format, OF this] l3 rb3 cnt show ?thesis by simp
      qed
      show ?thesis using le eq fin by auto
    qed
    show ?thesis using c1 c2 c3 c4 c5 by (intro exI [of _ taken]) simp
  qed
qed

section \<open>The passes of a call of receive\<close>

lemma wait_cond_suffix_keeps:
  "wait_cond b sched = Ret (st, b', sched') \<Longrightarrow> sched_keeps P sched \<Longrightarrow> sched_keeps P sched'"
  by (induction b sched rule: wait_cond.induct) (auto split: if_splits)

lemma wait_cond_received:
  assumes "wait_cond b sched = Ret (st, b', sched')"
    and "\<forall>c. sched_keeps (\<lambda>b. received_bytes b = c) sched"
  shows "received_bytes b' = received_bytes b"
  using wait_cond_keeps [OF assms(1), of "\<lambda>x. received_bytes x = received_bytes b"] assms(2)
  by simp

lemma recv_transfer_cases:
  assumes "recv_transfer env beam bb block readbytes remain tr m sched = Ret (st, b', bb')"
  obtains (leave) s r1 t1 where
      "recv_pass env beam bb block readbytes remain tr m = Ret (Some s, b', bb', r1, t1)"
      "st = s"
      "recv_passes env beam bb block readbytes remain tr m sched =
         [\<lparr>p_before = beam, p_status = Some s, p_after = b', p_brigade = bb', p_sched = sched\<rparr>]"
  | (timeout) b1 r1 t1 sched2 where
      "recv_pass env beam bb block readbytes remain tr m = Ret (None, b1, bb', r1, t1)"
      "wait_cond b1 sched = Ret (st, b', sched2)" "st \<noteq> APR_SUCCESS"
      "recv_passes env beam bb block readbytes remain tr m sched =
         [\<lparr>p_before = beam, p_status = None, p_after = b1, p_brigade = bb', p_sched = sched\<rparr>]"
  | (again) b1 bb1 r1 t1 b2 sched2 where
      "recv_pass env beam bb block readbytes remain tr m = Ret (None, b1, bb1, r1, t1)"
      "wait_cond b1 sched = Ret (APR_SUCCESS, b2, sched2)"
      "recv_transfer env b2 bb1 block readbytes r1 t1 m sched2 = Ret (st, b', bb')"
      "recv_passes env beam bb block readbytes remain tr m sched =
         \<lparr>p_before = beam, p_status = None, p_after = b1, p_brigade = bb1, p_sched = sched\<rparr> #
         recv_passes env b2 bb1 block readbytes r1 t1 m sched2"
      "length sched2 < length sched"
proof -
  from assms obtain sto b1 bb1 r1 t1 where
    p: "recv_pass env beam bb block readbytes remain tr m = Ret (sto, b1, bb1, r1, t1)"
    by (subst (asm) recv_transfer.simps) (auto split: outcome.splits)
  show ?thesis
  proof (cases sto)
    case (Some s)
    then have e: "b' = b1" "bb' = bb1" "st = s" using assms p
      by (subst (asm) recv_transfer.simps; simp)+
    have "recv_passes env beam bb block readbytes remain tr m sched =
         [\<lparr>p_before = beam, p_status = Some s, p_after = b', p_brigade = bb', p_sched = sched\<rparr>]"
      using p Some e by (subst recv_passes.simps) simp
    then show ?thesis using leave p Some e by simp
  next
    case None
    then obtain s2 b2 sched2 where w: "wait_cond b1 sched = Ret (s2, b2, sched2)"
      using assms p
      by (subst (asm) recv_transfer.simps) (auto split: outcome.splits)
    show ?thesis
    proof (cases "s2 = APR_SUCCESS")
      case True
      then have r: "recv_transfer env b2 bb1 block readbytes r1 t1 m sched2 = Ret (st, b', bb')"
        using assms p None w
        by (subst (asm) recv_transfer.simps) (simp del: recv_transfer.simps)
      have "recv_passes env beam bb block readbytes remain tr m sched =
         \<lparr>p_before = beam, p_status = None, p_after = b1, p_brigade = bb1, p_sched = sched\<rparr> #
         recv_passes env b2 bb1 block readbytes r1 t1 m sched2"
        using p None w True
        by (subst recv_passes.simps) simp
      then show ?thesis using again p None w True r wait_cond_shorter [OF w] by simp
    next
      case False
      then have e: "b' = b2" "bb' = bb1" "st = s2" using assms p None w
        by (subst (asm) recv_transfer.simps; simp)+
      have "recv_passes env beam bb block readbytes remain tr m sched =
         [\<lparr>p_before = beam, p_status = None, p_after = b1, p_brigade = bb', p_sched = sched\<rparr>]"
        using p None w False e by (subst recv_passes.simps) simp
      then show ?thesis using timeout [of b1 r1 t1 sched2] p None w False e by simp
    qed
  qed
qed

text \<open>
  A call counts, for all its passes together, the bytes of what the passes took from
  the send list, files apart.
\<close>

lemma recv_transfer_received:
  "recv_transfer env beam bb block readbytes remain tr m sched = Ret (st, b', bb') \<Longrightarrow>
   \<forall>c. sched_keeps (\<lambda>b. received_bytes b = c) sched \<Longrightarrow>
   received_bytes b' =
     received_bytes beam +
     sum_list (map (\<lambda>p. counted_bytes (taken_from_send (p_before p) (p_after p)))
                (recv_passes env beam bb block readbytes remain tr m sched))"
proof (induction sched arbitrary: beam bb remain tr rule: length_induct)
  case (1 sched)
  from "1.prems"(1) show ?case
  proof (cases rule: recv_transfer_cases)
    case (leave s r1 t1)
    from recv_pass_taken [OF leave(1)] obtain taken where
      "send_list beam = taken @ send_list b'"
      "received_bytes b' = received_bytes beam + counted_bytes taken" by blast
    then show ?thesis using leave(3) by (simp add: taken_prefix)
  next
    case (timeout b1 r1 t1 sched2)
    from recv_pass_taken [OF timeout(1)] obtain taken where
      "send_list beam = taken @ send_list b1"
      "received_bytes b1 = received_bytes beam + counted_bytes taken" by blast
    moreover have "received_bytes b' = received_bytes b1"
      using wait_cond_received [OF timeout(2) "1.prems"(2)] .
    ultimately show ?thesis using timeout(4) by (simp add: taken_prefix)
  next
    case (again b1 bb1 r1 t1 b2 sched2)
    from recv_pass_taken [OF again(1)] obtain taken where
      t: "send_list beam = taken @ send_list b1"
      "received_bytes b1 = received_bytes beam + counted_bytes taken" by blast
    have w: "received_bytes b2 = received_bytes b1"
      using wait_cond_received [OF again(2) "1.prems"(2)] .
    have k: "sched_keeps (\<lambda>b. received_bytes b = c) sched2" for c
      using wait_cond_suffix_keeps [OF again(2)] "1.prems"(2) by blast
    from "1.IH" [rule_format, OF again(5) again(3) k]
    have "received_bytes b' = received_bytes b2 +
        sum_list (map (\<lambda>p. counted_bytes (taken_from_send (p_before p) (p_after p)))
                (recv_passes env b2 bb1 block readbytes r1 t1 m sched2))" .
    then show ?thesis using t w again(4) by (simp add: taken_prefix add.assoc)
  qed
qed


lemma recv_transfer_counts:
  assumes ret: "recv_transfer env beam bb block readbytes remain tr m sched = Ret (st, b', bb')"
    and pass: "\<And>b bb remain tr st b' bb' r' t'.
        I b \<Longrightarrow> recv_pass env b bb block readbytes remain tr m = Ret (st, b', bb', r', t') \<Longrightarrow>
        I b' \<and> g b' = g b + counted_bytes (taken_from_send b b')"
    and I: "I beam"
    and k: "\<And>c. sched_keeps (\<lambda>b. I b \<and> g b = c) sched"
  shows "I b' \<and> g b' =
     g beam +
     sum_list (map (\<lambda>p. counted_bytes (taken_from_send (p_before p) (p_after p)))
                (recv_passes env beam bb block readbytes remain tr m sched))"
  using ret I k
proof (induction sched arbitrary: beam bb remain tr rule: length_induct)
  case (1 sched)
  from "1.prems"(1) show ?case
  proof (cases rule: recv_transfer_cases)
    case (leave s r1 t1)
    from pass [OF "1.prems"(2) leave(1)] show ?thesis using leave(3) by simp
  next
    case (timeout b1 r1 t1 sched2)
    from pass [OF "1.prems"(2) timeout(1)]
    have p1: "I b1 \<and> g b1 = g b1" "g b1 = g beam + counted_bytes (taken_from_send beam b1)"
      by simp_all
    from wait_cond_keeps [OF timeout(2), of "\<lambda>b. I b \<and> g b = g b1", OF p1(1) "1.prems"(3)]
    have "I b' \<and> g b' = g b1" by simp
    then show ?thesis using timeout(4) p1(2) by simp
  next
    case (again b1 bb1 r1 t1 b2 sched2)
    from pass [OF "1.prems"(2) again(1)]
    have p1: "I b1 \<and> g b1 = g b1" "g b1 = g beam + counted_bytes (taken_from_send beam b1)"
      by simp_all
    from wait_cond_keeps [OF again(2), of "\<lambda>b. I b \<and> g b = g b1", OF p1(1) "1.prems"(3)]
    have w: "I b2" "g b2 = g b1" by simp_all
    have k2: "sched_keeps (\<lambda>b. I b \<and> g b = c) sched2" for c
      using wait_cond_suffix_keeps [OF again(2) "1.prems"(3)] .
    from "1.IH" [rule_format, OF again(5) again(3) w(1) k2]
    have "I b' \<and> g b' = g b2 +
        sum_list (map (\<lambda>p. counted_bytes (taken_from_send (p_before p) (p_after p)))
                (recv_passes env b2 bb1 block readbytes r1 t1 m sched2))" .
    then show ?thesis using p1(2) w(2) again(4) by (simp add: add.assoc)
  qed
qed

lemma recv_transfer_log_ends:
  "recv_transfer env beam bb block readbytes remain tr m sched = Ret (st, b', bb') \<Longrightarrow>
   recv_passes env beam bb block readbytes remain tr m sched \<noteq> []
   \<and> p_before (hd (recv_passes env beam bb block readbytes remain tr m sched)) = beam
   \<and> p_after (last (recv_passes env beam bb block readbytes remain tr m sched)) = b'
   \<and> p_brigade (last (recv_passes env beam bb block readbytes remain tr m sched)) = bb'"
proof (induction sched arbitrary: beam bb remain tr rule: length_induct)
  case (1 sched)
  from "1.prems"(1) show ?case
  proof (cases rule: recv_transfer_cases)
    case (leave s r1 t1)
    then show ?thesis by simp
  next
    case (timeout b1 r1 t1 sched2)
    have "st = APR_TIMEUP" using timeout(2,3)
      by (induction b1 sched rule: wait_cond.induct) (auto split: if_splits)
    then have "b' = b1" using timeout(2) wait_cond_timeup by blast
    then show ?thesis using timeout(4) by simp
  next
    case (again b1 bb1 r1 t1 b2 sched2)
    from "1.IH" [rule_format, OF again(5) again(3)] show ?thesis using again(4) by simp
  qed
qed

text \<open>The frame of a pass on the accounting of consumption.\<close>

lemma recv_frame_consumed:
  assumes f: "recv_frame b b'"
  shows "reported_consumed_bytes b' = reported_consumed_bytes b
       \<and> consumed_calls b' = consumed_calls b \<and> consumed_fn b' = consumed_fn b"
proof -
  have "reported_consumed_bytes (b\<lparr>send_list := x1, hold_list := x2, purge_list := x3,
      recv_buffer := x4, proxies := x5, recv_pool := x6, received_bytes := x7,
      buckets_sent := x8, files_beamed := x9, close_sent := x10, proxy_mem := x11,
      close_eos_made := x12\<rparr>) = reported_consumed_bytes b
    \<and> consumed_calls (b\<lparr>send_list := x1, hold_list := x2, purge_list := x3,
      recv_buffer := x4, proxies := x5, recv_pool := x6, received_bytes := x7,
      buckets_sent := x8, files_beamed := x9, close_sent := x10, proxy_mem := x11,
      close_eos_made := x12\<rparr>) = consumed_calls b
    \<and> consumed_fn (b\<lparr>send_list := x1, hold_list := x2, purge_list := x3,
      recv_buffer := x4, proxies := x5, recv_pool := x6, received_bytes := x7,
      buckets_sent := x8, files_beamed := x9, close_sent := x10, proxy_mem := x11,
      close_eos_made := x12\<rparr>) = consumed_fn b"
    for x1 x2 x3 x4 x5 x6 x7 x8 x9 x10 x11 x12
    by simp
  then show ?thesis using f unfolding recv_frame_def by metis
qed

lemma recv_pass_counts:
  assumes pass: "recv_pass env beam bb block readbytes remain tr mutex = Ret (st, b', bb', r', t')"
  shows "send_list beam = taken_from_send beam b' @ send_list b'
       \<and> received_bytes b' = received_bytes beam + counted_bytes (taken_from_send beam b')
       \<and> reported_consumed_bytes b' = reported_consumed_bytes beam
       \<and> consumed_calls b' = consumed_calls beam
       \<and> consumed_fn b' = consumed_fn beam"
proof -
  from recv_pass_taken [OF pass] obtain taken where
    t: "send_list beam = taken @ send_list b'"
    "received_bytes b' = received_bytes beam + counted_bytes taken" by blast
  have e: "taken_from_send beam b' = taken" using taken_prefix [OF t(1)] .
  from recv_frame_consumed [OF recv_pass_recv_frame [OF pass]] t e show ?thesis by simp
qed

text \<open>Every entry of the log is a pass of \<open>recv_pass\<close>.\<close>

lemma recv_passes_cases:
  obtains (none) "recv_passes env beam bb block readbytes remain tr m sched = []"
  | (leave) s b1 bb1 r1 t1 where
      "recv_pass env beam bb block readbytes remain tr m = Ret (Some s, b1, bb1, r1, t1)"
      "recv_passes env beam bb block readbytes remain tr m sched =
         [\<lparr>p_before = beam, p_status = Some s, p_after = b1, p_brigade = bb1, p_sched = sched\<rparr>]"
  | (stop) b1 bb1 r1 t1 where
      "recv_pass env beam bb block readbytes remain tr m = Ret (None, b1, bb1, r1, t1)"
      "recv_passes env beam bb block readbytes remain tr m sched =
         [\<lparr>p_before = beam, p_status = None, p_after = b1, p_brigade = bb1, p_sched = sched\<rparr>]"
      "\<forall>b2 s2. wait_cond b1 sched \<noteq> Ret (APR_SUCCESS, b2, s2)"
  | (again) b1 bb1 r1 t1 b2 sched2 where
      "recv_pass env beam bb block readbytes remain tr m = Ret (None, b1, bb1, r1, t1)"
      "wait_cond b1 sched = Ret (APR_SUCCESS, b2, sched2)"
      "recv_passes env beam bb block readbytes remain tr m sched =
         \<lparr>p_before = beam, p_status = None, p_after = b1, p_brigade = bb1, p_sched = sched\<rparr> #
         recv_passes env b2 bb1 block readbytes r1 t1 m sched2"
      "length sched2 < length sched"
proof (cases "recv_pass env beam bb block readbytes remain tr m")
  case Blocked
  then have "recv_passes env beam bb block readbytes remain tr m sched = []"
    by (subst recv_passes.simps) simp
  then show ?thesis using none by simp
next
  case Crash
  then have "recv_passes env beam bb block readbytes remain tr m sched = []"
    by (subst recv_passes.simps) simp
  then show ?thesis using none by simp
next
  case (Ret x)
  then obtain sto b1 bb1 r1 t1 where
    p: "recv_pass env beam bb block readbytes remain tr m = Ret (sto, b1, bb1, r1, t1)"
    by (cases x) auto
  show ?thesis
  proof (cases sto)
    case (Some s)
    have "recv_passes env beam bb block readbytes remain tr m sched =
         [\<lparr>p_before = beam, p_status = Some s, p_after = b1, p_brigade = bb1, p_sched = sched\<rparr>]"
      using p Some by (subst recv_passes.simps) simp
    then show ?thesis using leave p Some by simp
  next
    case None
    show ?thesis
    proof (cases "\<exists>b2 s2. wait_cond b1 sched = Ret (APR_SUCCESS, b2, s2)")
      case True
      then obtain b2 sched2 where w: "wait_cond b1 sched = Ret (APR_SUCCESS, b2, sched2)" by blast
      have "recv_passes env beam bb block readbytes remain tr m sched =
         \<lparr>p_before = beam, p_status = None, p_after = b1, p_brigade = bb1, p_sched = sched\<rparr> #
         recv_passes env b2 bb1 block readbytes r1 t1 m sched2"
        using p None w by (subst recv_passes.simps) simp
      then show ?thesis using again p None w wait_cond_shorter [OF w] by simp
    next
      case False
      have "recv_passes env beam bb block readbytes remain tr m sched =
         [\<lparr>p_before = beam, p_status = None, p_after = b1, p_brigade = bb1, p_sched = sched\<rparr>]"
        using p None False
        by (subst recv_passes.simps) (auto split: outcome.splits)
      then show ?thesis using stop p None False by simp
    qed
  qed
qed

lemma recv_passes_are_passes:
  "p \<in> set (recv_passes env beam bb block readbytes remain tr m sched) \<Longrightarrow>
   \<exists>bb0 remain0 tr0 r t.
     recv_pass env (p_before p) bb0 block readbytes remain0 tr0 m =
       Ret (p_status p, p_after p, p_brigade p, r, t)"
proof (induction sched arbitrary: beam bb remain tr rule: length_induct)
  case (1 sched)
  show ?case
  proof (cases rule: recv_passes_cases [of env beam bb block readbytes remain tr m sched])
    case none
    then show ?thesis using "1.prems" by simp
  next
    case (leave s b1 bb1 r1 t1)
    then have "p = \<lparr>p_before = beam, p_status = Some s, p_after = b1, p_brigade = bb1,
        p_sched = sched\<rparr>"
      using "1.prems" by simp
    then show ?thesis using leave(1) by (intro exI [of _ bb] exI [of _ remain] exI [of _ tr]
          exI [of _ r1] exI [of _ t1]) simp
  next
    case (stop b1 bb1 r1 t1)
    then have "p = \<lparr>p_before = beam, p_status = None, p_after = b1, p_brigade = bb1,
        p_sched = sched\<rparr>"
      using "1.prems" by simp
    then show ?thesis using stop(1) by (intro exI [of _ bb] exI [of _ remain] exI [of _ tr]
          exI [of _ r1] exI [of _ t1]) simp
  next
    case (again b1 bb1 r1 t1 b2 sched2)
    from "1.prems" again(3) have
      "p = \<lparr>p_before = beam, p_status = None, p_after = b1, p_brigade = bb1, p_sched = sched\<rparr>
       \<or> p \<in> set (recv_passes env b2 bb1 block readbytes r1 t1 m sched2)" by simp
    then show ?thesis
    proof
      assume "p = \<lparr>p_before = beam, p_status = None, p_after = b1, p_brigade = bb1, p_sched = sched\<rparr>"
      then show ?thesis using again(1) by (intro exI [of _ bb] exI [of _ remain] exI [of _ tr]
          exI [of _ r1] exI [of _ t1]) simp
    next
      assume "p \<in> set (recv_passes env b2 bb1 block readbytes r1 t1 m sched2)"
      from "1.IH" [rule_format, OF again(4) this] show ?thesis .
    qed
  qed
qed

text \<open>
  A wait of the log that times out ends the call, with the beam and the brigade as
  they were when the wait began.
\<close>

lemma recv_passes_timeup:
  "p \<in> set (recv_passes env beam bb block readbytes remain tr m sched) \<Longrightarrow>
   p_status p = None \<Longrightarrow>
   wait_cond (p_after p) (p_sched p) = Ret (APR_TIMEUP, W2, s') \<Longrightarrow>
   recv_transfer env beam bb block readbytes remain tr m sched =
     Ret (APR_TIMEUP, p_after p, p_brigade p)"
proof (induction sched arbitrary: beam bb remain tr rule: length_induct)
  case (1 sched)
  show ?case
  proof (cases rule: recv_passes_cases [of env beam bb block readbytes remain tr m sched])
    case none
    then show ?thesis using "1.prems" by simp
  next
    case (leave s b1 bb1 r1 t1)
    then show ?thesis using "1.prems" by auto
  next
    case (stop b1 bb1 r1 t1)
    then have e: "p = \<lparr>p_before = beam, p_status = None, p_after = b1, p_brigade = bb1,
        p_sched = sched\<rparr>"
      using "1.prems"(1) by simp
    then have w: "wait_cond b1 sched = Ret (APR_TIMEUP, W2, s')" using "1.prems"(3) by simp
    then have "W2 = b1" using wait_cond_timeup by blast
    then show ?thesis using stop(1) w e by (subst recv_transfer.simps) simp
  next
    case (again b1 bb1 r1 t1 b2 sched2)
    from "1.prems"(1) again(3) have
      "p = \<lparr>p_before = beam, p_status = None, p_after = b1, p_brigade = bb1, p_sched = sched\<rparr>
       \<or> p \<in> set (recv_passes env b2 bb1 block readbytes r1 t1 m sched2)" by simp
    then show ?thesis
    proof
      assume "p = \<lparr>p_before = beam, p_status = None, p_after = b1, p_brigade = bb1, p_sched = sched\<rparr>"
      then show ?thesis using again(2) "1.prems"(3) by simp
    next
      assume "p \<in> set (recv_passes env b2 bb1 block readbytes r1 t1 m sched2)"
      from "1.IH" [rule_format, OF again(4) this "1.prems"(2,3)]
      have "recv_transfer env b2 bb1 block readbytes r1 t1 m sched2 =
          Ret (APR_TIMEUP, p_after p, p_brigade p)" .
      then show ?thesis using again(1,2)
        by (subst recv_transfer.simps) (simp del: recv_transfer.simps)
    qed
  qed
qed

section \<open>The waits of a call of send\<close>

lemma wait_cond_status:
  "wait_cond b sched = Ret (st, b', sched') \<Longrightarrow> st = APR_SUCCESS \<or> st = APR_TIMEUP"
  by (induction b sched rule: wait_cond.induct) (auto split: if_splits)

lemma r_wait_space_waits_cases:
  obtains (none) "r_wait_space_waits beam premain block m sched = []"
  | (stop) "\<not> aborted beam" "premain \<le> 0" "block = APR_BLOCK_READ" "m"
      "r_wait_space_waits beam premain block m sched = [(report_production beam True, sched)]"
      "\<forall>b2 s2. wait_cond (report_production beam True) sched \<noteq> Ret (APR_SUCCESS, b2, s2)"
  | (again) b2 sched2 where "\<not> aborted beam" "premain \<le> 0" "block = APR_BLOCK_READ" "m"
      "wait_cond (report_production beam True) sched = Ret (APR_SUCCESS, b2, sched2)"
      "r_wait_space_waits beam premain block m sched =
         (report_production beam True, sched) #
         r_wait_space_waits (r_purge_sent b2) (calc_space_left (r_purge_sent b2)) block m sched2"
      "length sched2 < length sched"
proof (cases "\<not> aborted beam \<and> premain \<le> 0 \<and> block = APR_BLOCK_READ \<and> m")
  case False
  then have "r_wait_space_waits beam premain block m sched = []"
    by (subst r_wait_space_waits.simps) auto
  then show ?thesis using none by simp
next
  case True
  show ?thesis
  proof (cases "\<exists>b2 s2. wait_cond (report_production beam True) sched = Ret (APR_SUCCESS, b2, s2)")
    case True
    then obtain b2 sched2 where
      w: "wait_cond (report_production beam True) sched = Ret (APR_SUCCESS, b2, sched2)" by blast
    have "r_wait_space_waits beam premain block m sched =
         (report_production beam True, sched) #
         r_wait_space_waits (r_purge_sent b2) (calc_space_left (r_purge_sent b2)) block m sched2"
      using \<open>\<not> aborted beam \<and> premain \<le> 0 \<and> block = APR_BLOCK_READ \<and> m\<close> w
      by (subst r_wait_space_waits.simps) (simp add: Let_def)
    then show ?thesis
      using again \<open>\<not> aborted beam \<and> premain \<le> 0 \<and> block = APR_BLOCK_READ \<and> m\<close> w
        wait_cond_shorter [OF w] by simp
  next
    case False
    have "r_wait_space_waits beam premain block m sched = [(report_production beam True, sched)]"
    proof (cases "wait_cond (report_production beam True) sched")
      case (Ret x)
      obtain st b2 s2 where x: "x = (st, b2, s2)" by (cases x) auto
      have "st = APR_TIMEUP" using wait_cond_status [of "report_production beam True" sched st b2 s2]
          Ret x False by auto
      then show ?thesis using True Ret x
        by (subst r_wait_space_waits.simps) (simp add: Let_def)
    qed (use True in \<open>subst r_wait_space_waits.simps, simp add: Let_def\<close>)+
    then show ?thesis using stop True False by simp
  qed
qed

lemma r_wait_space_waits_shape:
  "(W, s) \<in> set (r_wait_space_waits beam premain block m sched) \<Longrightarrow>
   \<exists>X. W = report_production X True \<and> \<not> aborted X"
proof (induction sched arbitrary: beam premain rule: length_induct)
  case (1 sched)
  show ?case
  proof (cases rule: r_wait_space_waits_cases [of beam premain block m sched])
    case none
    then show ?thesis using "1.prems" by simp
  next
    case stop
    then show ?thesis using "1.prems" by auto
  next
    case (again b2 sched2)
    from "1.prems" again(6) have
      "(W, s) = (report_production beam True, sched)
       \<or> (W, s) \<in> set (r_wait_space_waits (r_purge_sent b2) (calc_space_left (r_purge_sent b2))
                         block m sched2)" by simp
    then show ?thesis
    proof
      assume "(W, s) = (report_production beam True, sched)"
      then show ?thesis using again(1) by auto
    next
      assume "(W, s) \<in> set (r_wait_space_waits (r_purge_sent b2)
          (calc_space_left (r_purge_sent b2)) block m sched2)"
      from "1.IH" [rule_format, OF again(7) this] show ?thesis .
    qed
  qed
qed

lemma r_wait_space_waits_timeup:
  "(W, s) \<in> set (r_wait_space_waits beam premain block m sched) \<Longrightarrow>
   wait_cond W s = Ret (APR_TIMEUP, W2, s') \<Longrightarrow>
   \<exists>sp. r_wait_space_loop beam premain block m sched = Ret (APR_TIMEUP, W, sp, s')"
proof (induction sched arbitrary: beam premain rule: length_induct)
  case (1 sched)
  show ?case
  proof (cases rule: r_wait_space_waits_cases [of beam premain block m sched])
    case none
    then show ?thesis using "1.prems" by simp
  next
    case stop
    then have e: "W = report_production beam True" "s = sched" using "1.prems"(1) by simp_all
    then have w: "wait_cond (report_production beam True) sched = Ret (APR_TIMEUP, W2, s')"
      using "1.prems"(2) by simp
    then have "W2 = W" using wait_cond_timeup e by blast
    then show ?thesis using stop(1-4) w e
      by (subst r_wait_space_loop.simps) (simp add: Let_def)
  next
    case (again b2 sched2)
    from "1.prems"(1) again(6) have
      "(W, s) = (report_production beam True, sched)
       \<or> (W, s) \<in> set (r_wait_space_waits (r_purge_sent b2) (calc_space_left (r_purge_sent b2))
                         block m sched2)" by simp
    then show ?thesis
    proof
      assume "(W, s) = (report_production beam True, sched)"
      then show ?thesis using again(5) "1.prems"(2) by simp
    next
      assume "(W, s) \<in> set (r_wait_space_waits (r_purge_sent b2)
          (calc_space_left (r_purge_sent b2)) block m sched2)"
      from "1.IH" [rule_format, OF again(7) this "1.prems"(2)] obtain sp where
        "r_wait_space_loop (r_purge_sent b2) (calc_space_left (r_purge_sent b2)) block m sched2 =
           Ret (APR_TIMEUP, W, sp, s')" by blast
      then have "r_wait_space_loop beam premain block m sched = Ret (APR_TIMEUP, W, sp, s')"
        using again(1-5)
        by (subst r_wait_space_loop.simps) (simp add: Let_def del: r_wait_space_loop.simps)
      then show ?thesis by blast
    qed
  qed
qed

lemma append_bucket_waits_shape:
  "(W, s) \<in> set (append_bucket_waits env beam b block m sched) \<Longrightarrow>
   \<exists>X. W = report_production X True \<and> \<not> aborted X"
  by (auto simp: append_bucket_waits_def Let_def split: if_splits prod.splits
      dest: r_wait_space_waits_shape)

lemma append_bucket_waits_timeup:
  assumes "(W, s) \<in> set (append_bucket_waits env beam b block m sched)"
    and "wait_cond W s = Ret (APR_TIMEUP, W2, s')"
  shows "\<exists>b1 ins. append_bucket env beam b rest block m sched =
           Ret (APR_TIMEUP, W, b1 # ins @ rest, s')"
proof -
  have nm: "\<not> APR_BUCKET_IS_METADATA b" "\<not> APR_BUCKET_IS_FILE b"
    using assms(1) by (auto simp: append_bucket_waits_def split: if_splits)
  obtain status data b1 ins where
    rd: "(if calc_space_left beam > 0 \<and> blength b = - 1 then apr_bucket_read env b
          else (APR_SUCCESS, [], b, [])) = (status, data, b1, ins)"
    by (cases "(if calc_space_left beam > 0 \<and> blength b = - 1 then apr_bucket_read env b
          else (APR_SUCCESS, [], b, []))") auto
  have c: "status = APR_SUCCESS" "calc_space_left beam < blength b1"
    and w: "(W, s) \<in> set (r_wait_space_waits beam (calc_space_left beam) block m sched)"
    using assms(1) nm rd
    by (auto simp: append_bucket_waits_def Let_def split: if_splits)
  from r_wait_space_waits_timeup [OF w assms(2)] obtain sp where
    l: "r_wait_space_loop beam (calc_space_left beam) block m sched = Ret (APR_TIMEUP, W, sp, s')"
    by blast
  have "append_space env beam b block m sched = Ret (APR_TIMEUP, W, b1, ins, sp, s')"
    using rd c l
    by (simp add: append_space_def Let_def r_wait_space_def del: r_wait_space_loop.simps)
  then have "append_bucket env beam b rest block m sched =
           Ret (APR_TIMEUP, W, b1 # ins @ rest, s')"
    using nm by (simp add: append_bucket_def)
  then show ?thesis by blast
qed

lemma send_loop_waits_shape:
  "(W, s) \<in> set (send_loop_waits env fuel beam bl block m sched) \<Longrightarrow>
   \<exists>X. W = report_production X True \<and> \<not> aborted X"
proof (induction env fuel beam bl block m sched rule: send_loop_waits.induct)
  case (3 env fuel beam b rest block mutex sched)
  from "3.prems" have
    "(W, s) \<in> set (append_bucket_waits env beam b block mutex sched)
     \<or> (\<exists>beam' rest' sched'. append_bucket env beam b rest block mutex sched =
           Ret (APR_SUCCESS, beam', rest', sched')
         \<and> (W, s) \<in> set (send_loop_waits env fuel beam' rest' block mutex sched'))"
    by (auto split: outcome.splits if_splits)
  then show ?case
  proof
    assume "(W, s) \<in> set (append_bucket_waits env beam b block mutex sched)"
    then show ?thesis by (rule append_bucket_waits_shape)
  next
    assume "\<exists>beam' rest' sched'. append_bucket env beam b rest block mutex sched =
           Ret (APR_SUCCESS, beam', rest', sched')
         \<and> (W, s) \<in> set (send_loop_waits env fuel beam' rest' block mutex sched')"
    then obtain beam' rest' sched' where
      a: "append_bucket env beam b rest block mutex sched = Ret (APR_SUCCESS, beam', rest', sched')"
      and i: "(W, s) \<in> set (send_loop_waits env fuel beam' rest' block mutex sched')" by blast
    from "3.IH" [OF a refl refl refl _ i] show ?thesis by simp
  qed
qed simp_all

lemma send_loop_waits_timeup:
  "(W, s) \<in> set (send_loop_waits env fuel beam bl block m sched) \<Longrightarrow>
   wait_cond W s = Ret (APR_TIMEUP, W2, s') \<Longrightarrow>
   \<exists>rest'. send_loop env fuel beam bl block m sched = Ret (APR_TIMEUP, W, rest') \<and> rest' \<noteq> []"
proof (induction env fuel beam bl block m sched rule: send_loop_waits.induct)
  case (3 env fuel beam b rest block mutex sched)
  from "3.prems"(1) have
    "(W, s) \<in> set (append_bucket_waits env beam b block mutex sched)
     \<or> (\<exists>beam' rest' sched'. append_bucket env beam b rest block mutex sched =
           Ret (APR_SUCCESS, beam', rest', sched')
         \<and> (W, s) \<in> set (send_loop_waits env fuel beam' rest' block mutex sched'))"
    by (auto split: outcome.splits if_splits)
  then show ?case
  proof
    assume "(W, s) \<in> set (append_bucket_waits env beam b block mutex sched)"
    from append_bucket_waits_timeup [OF this "3.prems"(2), of rest] obtain b1 ins where
      "append_bucket env beam b rest block mutex sched = Ret (APR_TIMEUP, W, b1 # ins @ rest, s')"
      by blast
    then show ?thesis by simp
  next
    assume "\<exists>beam' rest' sched'. append_bucket env beam b rest block mutex sched =
           Ret (APR_SUCCESS, beam', rest', sched')
         \<and> (W, s) \<in> set (send_loop_waits env fuel beam' rest' block mutex sched')"
    then obtain beam' rest' sched' where
      a: "append_bucket env beam b rest block mutex sched = Ret (APR_SUCCESS, beam', rest', sched')"
      and i: "(W, s) \<in> set (send_loop_waits env fuel beam' rest' block mutex sched')" by blast
    from "3.IH" [OF a refl refl refl _ i "3.prems"(2)] obtain r where
      "send_loop env fuel beam' rest' block mutex sched' = Ret (APR_TIMEUP, W, r) \<and> r \<noteq> []"
      by auto
    then show ?thesis using a by simp
  qed
qed simp_all

lemma send_loop_waits_nonempty:
  "(W, s) \<in> set (send_loop_waits env fuel beam bl block m sched) \<Longrightarrow> bl \<noteq> []"
  by (cases bl) auto

lemma h2_beam_send_waits_timeup:
  assumes i: "(W, s) \<in> set (h2_beam_send_waits env fuel beam red block sched)"
    and w: "wait_cond W s = Ret (APR_TIMEUP, W2, s')"
  shows "\<exists>bb rest'. red = Some bb \<and> rest' \<noteq> []
       \<and> h2_beam_send env fuel beam red block sched =
           Ret (APR_TIMEUP, report_consumption (report_production W True) False,
                Some (bb\<lparr>brigade_list := rest'\<rparr>))
       \<and> reported_produced_bytes W = sent_bytes W \<and> \<not> aborted W"
proof -
  obtain st m where e0: "enter_yellow beam = (st, m)" by (cases "enter_yellow beam") auto
  have st: "st = APR_SUCCESS" using i e0
    by (cases st) (auto simp: h2_beam_send_waits_def)
  then have e: "enter_yellow beam = (APR_SUCCESS, m)" using e0 by simp
  obtain bb where red: "red = Some bb" using i e
    by (cases red) (auto simp: h2_beam_send_waits_def Let_def split: if_splits)
  define beam2 where "beam2 = beam_set_send_pool (r_purge_sent beam) (Some (brigade_p bb))"
  have na: "\<not> aborted beam2" and l: "(W, s) \<in> set (send_loop_waits env fuel beam2 (brigade_list bb) block m sched)"
    using i e red by (auto simp: h2_beam_send_waits_def Let_def beam2_def split: if_splits)
  from send_loop_waits_timeup [OF l w] obtain rest' where
    sl: "send_loop env fuel beam2 (brigade_list bb) block m sched = Ret (APR_TIMEUP, W, rest')"
    and ne: "rest' \<noteq> []" by blast
  from send_loop_waits_shape [OF l] obtain X where X: "W = report_production X True" "\<not> aborted X"
    by blast
  have f: "brigade_list bb \<noteq> []" using send_loop_waits_nonempty [OF l] .
  have "h2_beam_send env fuel beam red block sched =
      Ret (APR_TIMEUP, report_consumption (report_production W True) False,
           Some (bb\<lparr>brigade_list := rest'\<rparr>))"
    using e red na sl f by (simp add: h2_beam_send_def Let_def beam2_def [symmetric])
  moreover have "reported_produced_bytes W = sent_bytes W" "\<not> aborted W"
    using X by (auto simp: report_production_def Let_def)
  ultimately show ?thesis using red ne by (intro exI [of _ bb] exI [of _ rest']) simp
qed

section \<open>Waits that time out, anywhere in a call\<close>

lemma h2_beam_receive_passes_timeup:
  assumes "p \<in> set (h2_beam_receive_passes env beam bb block readbytes sched)"
    and "p_status p = None"
    and "wait_cond (p_after p) (p_sched p) = Ret (APR_TIMEUP, W2, s')"
  shows "h2_beam_receive env beam bb block readbytes sched =
     Ret (APR_TIMEUP, p_after p, p_brigade p)"
proof -
  obtain st m where e0: "enter_yellow beam = (st, m)" by (cases "enter_yellow beam") auto
  have "st = APR_SUCCESS" using assms(1) e0
    by (cases st) (auto simp: h2_beam_receive_passes_def)
  then have e: "enter_yellow beam = (APR_SUCCESS, m)" using e0 by simp
  then have "p \<in> set (recv_passes env beam bb block readbytes readbytes 0 m sched)"
    using assms(1) by (simp add: h2_beam_receive_passes_def)
  from recv_passes_timeup [OF this assms(2,3)] show ?thesis
    using e by (simp add: h2_beam_receive_def del: recv_transfer.simps)
qed

lemma end_reports_fields:
  assumes "reported_produced_bytes W = sent_bytes W"
  shows "report_consumption (report_production W True) False =
     W\<lparr>produced_calls := produced_calls W @ (if produced_fn W then [0] else []),
       consumed_calls := consumed_calls W @
         (if consumed_fn W \<and> received_bytes W \<noteq> reported_consumed_bytes W
          then [received_bytes W - reported_consumed_bytes W] else []),
       reported_consumed_bytes := received_bytes W\<rparr>"
  using assms by (simp add: report_consumption_def report_production_def Let_def)

text \<open>
  C8, amended, for every wait of a call. \<open>h2_beam_receive_passes\<close> lists the passes
  of a call of receive and \<open>h2_beam_send_waits\<close> the waits of a call of send, each
  with the beam and the schedule on which \<^verbatim>\<open>wait_cond\<close> is called.

  Receive: whichever pass of the call ends in a wait, if that wait times out the call
  returns timed-out with the beam and the consumer's brigade exactly as they were
  when the wait began.

  Send: whichever bucket of the brigade waits for space, and however often the wait
  was woken before, if a wait times out the call returns timed-out and part of the
  brigade is left with the producer. The beam returned is the beam \<open>W\<close> on which the
  wait began after the two reports at the end of \<^verbatim>\<open>h2_beam_send\<close>: it is \<open>W\<close> in
  every field (queues, receive buffer, proxies, byte counters, flags) but three.
  The produced callback, if installed, has been called once more, with 0; the
  consumed callback, if installed, has been handed the bytes received and not yet
  reported, if there are any; and \<open>reported_consumed_bytes\<close> has caught up with
  \<open>received_bytes\<close>.
\<close>

theorem timeout_keeps_queues:
  "(\<forall>p \<in> set (h2_beam_receive_passes env beam bb block readbytes sched).
      p_status p = None \<longrightarrow>
      (\<forall>W2 s'. wait_cond (p_after p) (p_sched p) = Ret (APR_TIMEUP, W2, s') \<longrightarrow>
         h2_beam_receive env beam bb block readbytes sched =
           Ret (APR_TIMEUP, p_after p, p_brigade p)))
   \<and> (\<forall>(W, s) \<in> set (h2_beam_send_waits env fuel beam red block sched).
        \<forall>W2 s'. wait_cond W s = Ret (APR_TIMEUP, W2, s') \<longrightarrow>
          (\<exists>rb rest. red = Some rb \<and> rest \<noteq> []
             \<and> h2_beam_send env fuel beam red block sched =
                 Ret (APR_TIMEUP, report_consumption (report_production W True) False,
                      Some (rb\<lparr>brigade_list := rest\<rparr>))
             \<and> report_consumption (report_production W True) False =
                 W\<lparr>produced_calls := produced_calls W @ (if produced_fn W then [0] else []),
                   consumed_calls := consumed_calls W @
                     (if consumed_fn W \<and> received_bytes W \<noteq> reported_consumed_bytes W
                      then [received_bytes W - reported_consumed_bytes W] else []),
                   reported_consumed_bytes := received_bytes W\<rparr>))"
proof (intro conjI ballI impI allI)
  fix p W2 s'
  assume "p \<in> set (h2_beam_receive_passes env beam bb block readbytes sched)"
    "p_status p = None" "wait_cond (p_after p) (p_sched p) = Ret (APR_TIMEUP, W2, s')"
  then show "h2_beam_receive env beam bb block readbytes sched =
           Ret (APR_TIMEUP, p_after p, p_brigade p)"
    by (rule h2_beam_receive_passes_timeup)
next
  fix x
  assume x: "x \<in> set (h2_beam_send_waits env fuel beam red block sched)"
  obtain W s where xe: "x = (W, s)" by (cases x) auto
  have "\<exists>rb rest. red = Some rb \<and> rest \<noteq> []
             \<and> h2_beam_send env fuel beam red block sched =
                 Ret (APR_TIMEUP, report_consumption (report_production W True) False,
                      Some (rb\<lparr>brigade_list := rest\<rparr>))
             \<and> report_consumption (report_production W True) False =
                 W\<lparr>produced_calls := produced_calls W @ (if produced_fn W then [0] else []),
                   consumed_calls := consumed_calls W @
                     (if consumed_fn W \<and> received_bytes W \<noteq> reported_consumed_bytes W
                      then [received_bytes W - reported_consumed_bytes W] else []),
                   reported_consumed_bytes := received_bytes W\<rparr>"
    if w: "wait_cond W s = Ret (APR_TIMEUP, W2, s')" for W2 s'
  proof -
    from h2_beam_send_waits_timeup [OF x [unfolded xe] w] obtain rb rest where
      r: "red = Some rb" "rest \<noteq> []"
      "h2_beam_send env fuel beam red block sched =
           Ret (APR_TIMEUP, report_consumption (report_production W True) False,
                Some (rb\<lparr>brigade_list := rest\<rparr>))"
      "reported_produced_bytes W = sent_bytes W" by blast
    show ?thesis using r(1,2,3) end_reports_fields [OF r(4)]
      by (intro exI [of _ rb] exI [of _ rest]) simp
  qed
  then show "case x of (W, s) \<Rightarrow>
        \<forall>W2 s'. wait_cond W s = Ret (APR_TIMEUP, W2, s') \<longrightarrow>
          (\<exists>rb rest. red = Some rb \<and> rest \<noteq> []
             \<and> h2_beam_send env fuel beam red block sched =
                 Ret (APR_TIMEUP, report_consumption (report_production W True) False,
                      Some (rb\<lparr>brigade_list := rest\<rparr>))
             \<and> report_consumption (report_production W True) False =
                 W\<lparr>produced_calls := produced_calls W @ (if produced_fn W then [0] else []),
                   consumed_calls := consumed_calls W @
                     (if consumed_fn W \<and> received_bytes W \<noteq> reported_consumed_bytes W
                      then [received_bytes W - reported_consumed_bytes W] else []),
                   reported_consumed_bytes := received_bytes W\<rparr>)"
    unfolding xe prod.case by blast
qed

text \<open>
  The statement at two runs. A blocking receive on the empty \<open>timed_beam\<close> waits, is
  woken without anything having changed, makes its second pass, waits again and
  times out. A blocking send of a bucket of 4 bytes and one of 1 byte on a beam with a
  buffer of 4 bytes takes the first bucket, waits for space for the second and times
  out: the first bucket stays in the send list, the second with the producer.
\<close>

theorem timeout_keeps_queues_witness:
  "h2_beam_receive_passes plain_env timed_beam (brigade 7 []) APR_BLOCK_READ 0
       [Signal (\<lambda>b. b), Elapse] =
     [\<lparr>p_before = timed_beam, p_status = None, p_after = timed_beam\<lparr>recv_pool := Some 7\<rparr>,
       p_brigade = brigade 7 [], p_sched = [Signal (\<lambda>b. b), Elapse]\<rparr>,
      \<lparr>p_before = timed_beam\<lparr>recv_pool := Some 7\<rparr>, p_status = None,
       p_after = timed_beam\<lparr>recv_pool := Some 7\<rparr>,
       p_brigade = brigade 7 [], p_sched = [Elapse]\<rparr>]
   \<and> wait_cond (timed_beam\<lparr>recv_pool := Some 7\<rparr>) [Elapse] =
       Ret (APR_TIMEUP, timed_beam\<lparr>recv_pool := Some 7\<rparr>, [])
   \<and> h2_beam_receive plain_env timed_beam (brigade 7 []) APR_BLOCK_READ 0
       [Signal (\<lambda>b. b), Elapse] =
       Ret (APR_TIMEUP, timed_beam\<lparr>recv_pool := Some 7\<rparr>, brigade 7 [])
   \<and> h2_beam_send_waits plain_env (Suc (Suc 0))
       (h2_beam_timeout_set (locked_beam H2_BEAM_OWNER_SEND 4) 1000)
       (Some (brigade 1 [red_bucket 1 BT_HEAP 4, red_bucket 2 BT_HEAP 1])) APR_BLOCK_READ [Elapse] =
     [((locked_beam H2_BEAM_OWNER_SEND 4)
         \<lparr>timeout := 1000, send_list := [red_bucket 1 BT_HEAP 4], sent_bytes := 4,
          reported_produced_bytes := 4\<rparr>, [Elapse])]
   \<and> h2_beam_send plain_env (Suc (Suc 0))
       (h2_beam_timeout_set (locked_beam H2_BEAM_OWNER_SEND 4) 1000)
       (Some (brigade 1 [red_bucket 1 BT_HEAP 4, red_bucket 2 BT_HEAP 1])) APR_BLOCK_READ [Elapse] =
     Ret (APR_TIMEUP,
          (locked_beam H2_BEAM_OWNER_SEND 4)
            \<lparr>timeout := 1000, send_list := [red_bucket 1 BT_HEAP 4], sent_bytes := 4,
             reported_produced_bytes := 4\<rparr>,
          Some (brigade 1 [red_bucket 2 BT_HEAP 1]))"
proof -
  let ?R = "timed_beam\<lparr>recv_pool := Some 7\<rparr>"
  let ?p2 = "\<lparr>p_before = ?R, p_status = None, p_after = ?R,
       p_brigade = brigade 7 [], p_sched = [Elapse]\<rparr>"
  let ?B = "h2_beam_timeout_set (locked_beam H2_BEAM_OWNER_SEND 4) 1000"
  let ?W = "(locked_beam H2_BEAM_OWNER_SEND 4)
         \<lparr>timeout := 1000, send_list := [red_bucket 1 BT_HEAP 4], sent_bytes := 4,
          reported_produced_bytes := 4\<rparr>"
  let ?red = "Some (brigade 1 [red_bucket 1 BT_HEAP 4, red_bucket 2 BT_HEAP 1])"
  have p1: "recv_pass plain_env timed_beam (brigade 7 []) APR_BLOCK_READ 0 0 0 True =
      Ret (None, ?R, brigade 7 [], 0, 0)"
    by (simp add: recv_pass_def timed_beam_def locked_beam_eq h2_beam_create_def
        beam_set_recv_pool_def brigade_def recv_put_back_def recv_close_step_def Let_def)
  have p2: "recv_pass plain_env ?R (brigade 7 []) APR_BLOCK_READ 0 0 0 True =
      Ret (None, ?R, brigade 7 [], 0, 0)"
    by (simp add: recv_pass_def timed_beam_def locked_beam_eq h2_beam_create_def
        beam_set_recv_pool_def brigade_def recv_put_back_def recv_close_step_def Let_def)
  have w1: "wait_cond ?R [Signal (\<lambda>b. b), Elapse] = Ret (APR_SUCCESS, ?R, [Elapse])"
    by (simp add: timed_beam_def locked_beam_eq h2_beam_create_def)
  have w2: "wait_cond ?R [Elapse] = Ret (APR_TIMEUP, ?R, [])"
    by (simp add: timed_beam_def locked_beam_eq h2_beam_create_def word_sless_alt)
  have m: "m_cond timed_beam" "0 <s timeout timed_beam"
    by (simp_all add: timed_beam_def locked_beam_eq h2_beam_create_def word_sless_alt)
  have e: "enter_yellow timed_beam = (APR_SUCCESS, True)"
    by (simp add: timed_beam_def locked_beam_eq h2_beam_create_def enter_yellow_def)
  have L: "h2_beam_receive_passes plain_env timed_beam (brigade 7 []) APR_BLOCK_READ 0
       [Signal (\<lambda>b. b), Elapse] =
     [\<lparr>p_before = timed_beam, p_status = None, p_after = ?R,
       p_brigade = brigade 7 [], p_sched = [Signal (\<lambda>b. b), Elapse]\<rparr>, ?p2]"
    by (simp add: h2_beam_receive_passes_def e recv_passes.simps p1 p2 m)
  have i: "?p2 \<in> set (h2_beam_receive_passes plain_env timed_beam (brigade 7 []) APR_BLOCK_READ 0
       [Signal (\<lambda>b. b), Elapse])"
    unfolding L by simp
  from timeout_keeps_queues [THEN conjunct1, THEN bspec, OF i]
  have "\<forall>W2 s'. wait_cond ?R [Elapse] = Ret (APR_TIMEUP, W2, s') \<longrightarrow>
      h2_beam_receive plain_env timed_beam (brigade 7 []) APR_BLOCK_READ 0
       [Signal (\<lambda>b. b), Elapse] = Ret (APR_TIMEUP, ?R, brigade 7 [])"
    by simp
  with w2 have a: "h2_beam_receive plain_env timed_beam (brigade 7 []) APR_BLOCK_READ 0
       [Signal (\<lambda>b. b), Elapse] = Ret (APR_TIMEUP, ?R, brigade 7 [])"
    by blast
  have Be: "?B = (locked_beam H2_BEAM_OWNER_SEND 4)\<lparr>timeout := 1000\<rparr>"
    by (simp add: h2_beam_timeout_set_def)
  have S: "h2_beam_send_waits plain_env (Suc (Suc 0)) ?B ?red APR_BLOCK_READ [Elapse] =
      [(?W, [Elapse])]"
    unfolding Be
    by (simp add: h2_beam_send_waits_def send_loop_waits.simps append_bucket_waits_def
        r_wait_space_waits.simps
        locked_beam_eq h2_beam_create_def
        enter_yellow_def Let_def r_purge_sent_def beam_set_send_pool_def
        brigade_def red_bucket_def append_bucket_def append_space_def append_normalize_def
        APR_BUCKET_IS_METADATA_def APR_BUCKET_IS_FILE_def APR_BUCKET_IS_TRANSIENT_def
        APR_BUCKET_IS_HEAP_def calc_space_left_def calc_buffered_def r_wait_space_def
        report_production_def word_sless_alt)
  have j: "(?W, [Elapse]) \<in> set (h2_beam_send_waits plain_env (Suc (Suc 0)) ?B ?red
      APR_BLOCK_READ [Elapse])"
    unfolding S by simp
  have w3: "wait_cond ?W [Elapse] = Ret (APR_TIMEUP, ?W, [])"
    by (simp add: locked_beam_eq h2_beam_create_def word_sless_alt)
  have f: "report_consumption (report_production ?W True) False = ?W"
    by (simp add: report_consumption_def report_production_def locked_beam_eq
        h2_beam_create_def Let_def)
  from timeout_keeps_queues [THEN conjunct2, THEN bspec, OF j]
  have "\<forall>W2 s'. wait_cond ?W [Elapse] = Ret (APR_TIMEUP, W2, s') \<longrightarrow>
          (\<exists>rb rest. ?red = Some rb \<and> rest \<noteq> []
             \<and> h2_beam_send plain_env (Suc (Suc 0)) ?B ?red APR_BLOCK_READ [Elapse] =
                 Ret (APR_TIMEUP, report_consumption (report_production ?W True) False,
                      Some (rb\<lparr>brigade_list := rest\<rparr>)))"
    by (simp only: prod.case) blast
  with w3 obtain rest where
    r: "h2_beam_send plain_env (Suc (Suc 0)) ?B ?red APR_BLOCK_READ [Elapse] =
         Ret (APR_TIMEUP, report_consumption (report_production ?W True) False,
              Some ((brigade 1 [red_bucket 1 BT_HEAP 4, red_bucket 2 BT_HEAP 1])
                      \<lparr>brigade_list := rest\<rparr>))"
    by blast
  have "h2_beam_send plain_env (Suc (Suc 0)) ?B ?red APR_BLOCK_READ [Elapse] =
     Ret (APR_TIMEUP, ?W, Some (brigade 1 [red_bucket 2 BT_HEAP 1]))"
    unfolding Be
    by (simp add: h2_beam_send_def
        locked_beam_eq h2_beam_create_def r_wait_space_loop.simps
        enter_yellow_def Let_def r_purge_sent_def beam_set_send_pool_def
        brigade_def red_bucket_def append_bucket_def append_space_def append_normalize_def
        APR_BUCKET_IS_METADATA_def APR_BUCKET_IS_FILE_def APR_BUCKET_IS_TRANSIENT_def
        APR_BUCKET_IS_HEAP_def calc_space_left_def calc_buffered_def r_wait_space_def
        report_production_def report_consumption_def word_sless_alt)
  then show ?thesis using L w2 a S r by simp
qed

section \<open>Beams for the runs below\<close>

lemma unreported_beam_reached:
  "run_ops plain_env (locked_beam H2_BEAM_OWNER_RECV 0)
     [Op_on_consumed True,
      Op_send (Some (brigade 1 [red_bucket 1 BT_HEAP 3])) APR_BLOCK_READ 1 [],
      Op_receive (brigade 7 []) APR_NONBLOCK_READ 0 []] = Ret unreported_beam"
  by (simp add: locked_beam_eq unreported_beam_def h2_beam_on_consumed_def h2_beam_create_def
      enter_yellow_def h2_beam_send_def Let_def r_purge_sent_def beam_set_send_pool_def
      brigade_def red_bucket_def append_bucket_def append_space_def append_normalize_def
      APR_BUCKET_IS_METADATA_def APR_BUCKET_IS_FILE_def APR_BUCKET_IS_TRANSIENT_def
      APR_BUCKET_IS_HEAP_def calc_space_left_def calc_buffered_def r_wait_space_def
      report_production_def report_consumption_def plain_env_def
      h2_beam_receive_def recv_transfer.simps recv_pass_def beam_set_recv_pool_def
      recv_place_def recv_make_green_def h2_beam_bucket_create_def green_bucket_def
      recv_put_back_def recv_close_step_def word_sle_eq word_sless_alt size_max_facts
      APR_SIZE_MAX_def)


section \<open>Receive counts no bytes for file buckets\<close>

lemma send_frame_consumed:
  assumes f: "send_frame b b'"
  shows "received_bytes b' = received_bytes b \<and> consumed_fn b' = consumed_fn b
       \<and> consumed_total b' = consumed_total b"
proof -
  have "received_bytes (b\<lparr>send_list := x1, sent_bytes := x2, last_beamed := x3, closed := x4,
                purge_list := x5, send_pool := x6\<rparr>) = received_bytes b
     \<and> consumed_fn (b\<lparr>send_list := x1, sent_bytes := x2, last_beamed := x3, closed := x4,
                purge_list := x5, send_pool := x6\<rparr>) = consumed_fn b
     \<and> consumed_total (b\<lparr>send_list := x1, sent_bytes := x2, last_beamed := x3, closed := x4,
                purge_list := x5, send_pool := x6\<rparr>) = consumed_total b"
    for x1 x2 x3 x4 x5 x6
    by (simp add: consumed_total_def)
  then show ?thesis using f unfolding send_frame_def by metis
qed

text \<open>
  A call of send leaves \<open>received_bytes\<close> alone, and with the consumed callback
  installed it leaves \<open>consumed_total\<close> alone: what it reports it hands to the
  callback. So a wake by a sending producer keeps both.
\<close>

lemma send_keeps_received:
  assumes r: "h2_beam_send env fuel b red block sched = Ret (st, b', red')"
    and c: "received_bytes b = c"
    and k: "sched_keeps (\<lambda>b. received_bytes b = c) sched"
  shows "received_bytes b' = c"
proof -
  have s: "\<forall>b b'. send_frame b b' \<longrightarrow> received_bytes b = c \<longrightarrow> received_bytes b' = c"
    using send_frame_consumed by simp
  have rp: "\<forall>b f. received_bytes b = c \<longrightarrow> received_bytes (report_production b f) = c"
    by (simp add: report_production_eq)
  have rc: "\<forall>b. received_bytes b = c \<longrightarrow> received_bytes (report_consumption b False) = c"
    by (simp add: report_consumption_eq)
  from h2_beam_send_keeps [where P = "\<lambda>b. received_bytes b = c", OF s rp rc r c k]
  show ?thesis .
qed

lemma send_keeps_total:
  assumes r: "h2_beam_send env fuel b red block sched = Ret (st, b', red')"
    and c: "consumed_fn b \<and> consumed_total b = d"
    and k: "sched_keeps (\<lambda>b. consumed_fn b \<and> consumed_total b = d) sched"
  shows "consumed_fn b' \<and> consumed_total b' = d"
proof -
  have s: "\<forall>b b'. send_frame b b' \<longrightarrow> consumed_fn b \<and> consumed_total b = d \<longrightarrow>
      consumed_fn b' \<and> consumed_total b' = d"
    using send_frame_consumed by simp
  have rp: "\<forall>b f. consumed_fn b \<and> consumed_total b = d \<longrightarrow>
      consumed_fn (report_production b f) \<and> consumed_total (report_production b f) = d"
    by (simp add: report_production_eq consumed_total_def)
  have rc: "\<forall>b. consumed_fn b \<and> consumed_total b = d \<longrightarrow>
      consumed_fn (report_consumption b False) \<and> consumed_total (report_consumption b False) = d"
    by (simp add: report_consumption_eq consumed_total_def)
  from h2_beam_send_keeps [where P = "\<lambda>b. consumed_fn b \<and> consumed_total b = d", OF s rp rc r c k]
  show ?thesis .
qed

lemma send_wake_keeps_received:
  "sched_keeps (\<lambda>b. received_bytes b = c) [send_wake env fuel red]"
  using send_keeps_received [where sched = "[]" and c = c]
  by (auto simp: send_wake_def split: outcome.splits)

lemma send_wake_keeps_total:
  "sched_keeps (\<lambda>b. consumed_fn b \<and> consumed_total b = d) [send_wake env fuel red]"
proof -
  have "consumed_fn b' \<and> consumed_total b' = d"
    if "h2_beam_send env fuel b red APR_NONBLOCK_READ [] = Ret (st, b', red')"
      "consumed_fn b" "consumed_total b = d" for b st b' red'
    using send_keeps_total [OF that(1), of d] that(2,3) by simp
  then show ?thesis
    by (auto simp: send_wake_def split: outcome.splits)
qed

lemma recv_pass_total:
  assumes "recv_pass env beam bb block readbytes remain tr mutex = Ret (st, b', bb', r', t')"
  shows "consumed_total b' = consumed_total beam + counted_bytes (taken_from_send beam b')"
  using recv_pass_counts [OF assms] by (simp add: consumed_total_def)

lemma sum_counted_files:
  "\<forall>p \<in> set ps. \<forall>x \<in> set (taken_from_send (p_before p) (p_after p)). btype x = BT_FILE \<Longrightarrow>
   sum_list (map (\<lambda>p. counted_bytes (taken_from_send (p_before p) (p_after p))) ps) = 0"
  by (induction ps) (simp_all add: counted_bytes_files)

lemma h2_beam_receive_counts:
  assumes ret: "h2_beam_receive env beam bb block readbytes sched = Ret (st, beam', bb')"
  shows "(h2_beam_receive_passes env beam bb block readbytes sched \<noteq> [] \<longrightarrow>
            p_before (hd (h2_beam_receive_passes env beam bb block readbytes sched)) = beam
          \<and> p_after (last (h2_beam_receive_passes env beam bb block readbytes sched)) = beam'
          \<and> p_brigade (last (h2_beam_receive_passes env beam bb block readbytes sched)) = bb')
       \<and> ((\<forall>c. sched_keeps (\<lambda>b. received_bytes b = c) sched) \<longrightarrow>
            received_bytes beam' =
              received_bytes beam +
              sum_list (map (\<lambda>p. counted_bytes (taken_from_send (p_before p) (p_after p)))
                         (h2_beam_receive_passes env beam bb block readbytes sched)))
       \<and> (consumed_fn beam \<longrightarrow>
          (\<forall>d. sched_keeps (\<lambda>b. consumed_fn b \<and> consumed_total b = d) sched) \<longrightarrow>
            consumed_total beam' =
              consumed_total beam +
              sum_list (map (\<lambda>p. counted_bytes (taken_from_send (p_before p) (p_after p)))
                         (h2_beam_receive_passes env beam bb block readbytes sched)))"
proof (cases "fst (enter_yellow beam) = APR_SUCCESS")
  case False
  then have "beam' = beam" using ret
    by (cases "enter_yellow beam"; cases "fst (enter_yellow beam)")
       (auto simp: h2_beam_receive_def)
  moreover have "h2_beam_receive_passes env beam bb block readbytes sched = []" using False
    by (cases "enter_yellow beam"; cases "fst (enter_yellow beam)")
       (auto simp: h2_beam_receive_passes_def)
  ultimately show ?thesis by simp
next
  case True
  then obtain m where e: "enter_yellow beam = (APR_SUCCESS, m)"
    by (cases "enter_yellow beam") auto
  have t: "recv_transfer env beam bb block readbytes readbytes 0 m sched = Ret (st, beam', bb')"
    using ret e by (simp add: h2_beam_receive_def del: recv_transfer.simps)
  have l: "h2_beam_receive_passes env beam bb block readbytes sched =
      recv_passes env beam bb block readbytes readbytes 0 m sched"
    using e by (simp add: h2_beam_receive_passes_def)
  have a: "received_bytes beam' =
              received_bytes beam +
              sum_list (map (\<lambda>p. counted_bytes (taken_from_send (p_before p) (p_after p)))
                         (recv_passes env beam bb block readbytes readbytes 0 m sched))"
    if k: "\<forall>c. sched_keeps (\<lambda>b. received_bytes b = c) sched"
    using recv_transfer_counts [where I = "\<lambda>b. True" and g = received_bytes, OF t] k
      recv_pass_counts by simp
  have b: "consumed_total beam' =
              consumed_total beam +
              sum_list (map (\<lambda>p. counted_bytes (taken_from_send (p_before p) (p_after p)))
                         (recv_passes env beam bb block readbytes readbytes 0 m sched))"
    if f: "consumed_fn beam"
      and k: "\<forall>d. sched_keeps (\<lambda>b. consumed_fn b \<and> consumed_total b = d) sched"
  proof -
    have p: "consumed_fn b' \<and> consumed_total b' =
          consumed_total b + counted_bytes (taken_from_send b b')"
      if "consumed_fn b"
        "recv_pass env b bb block readbytes remain tr m = Ret (st, b', bb', r', t')"
      for b bb remain tr st b' bb' r' t'
      using recv_pass_total [OF that(2)] recv_pass_counts [OF that(2)] that(1) by simp
    from recv_transfer_counts [where I = consumed_fn and g = consumed_total, OF t p f] k
    show ?thesis by simp
  qed
  from recv_transfer_log_ends [OF t] a b show ?thesis unfolding l by simp
qed

lemma h2_beam_receive_passes_counts:
  assumes "p \<in> set (h2_beam_receive_passes env beam bb block readbytes sched)"
  shows "send_list (p_before p) =
           taken_from_send (p_before p) (p_after p) @ send_list (p_after p)
       \<and> received_bytes (p_after p) =
           received_bytes (p_before p) +
           counted_bytes (taken_from_send (p_before p) (p_after p))
       \<and> reported_consumed_bytes (p_after p) = reported_consumed_bytes (p_before p)
       \<and> consumed_calls (p_after p) = consumed_calls (p_before p)"
proof -
  obtain st m where e0: "enter_yellow beam = (st, m)" by (cases "enter_yellow beam") auto
  have "st = APR_SUCCESS" using assms e0
    by (cases st) (auto simp: h2_beam_receive_passes_def)
  then have "p \<in> set (recv_passes env beam bb block readbytes readbytes 0 m sched)"
    using assms e0 by (simp add: h2_beam_receive_passes_def)
  from recv_passes_are_passes [OF this] obtain bb0 remain0 tr0 r t where
    "recv_pass env (p_before p) bb0 block readbytes remain0 tr0 m =
       Ret (p_status p, p_after p, p_brigade p, r, t)" by blast
  from recv_pass_counts [OF this] show ?thesis by simp
qed

text \<open>
  C10. \<open>h2_beam_receive_passes\<close> lists the passes of a call of receive, each with the
  beam before and after it; \<open>taken_from_send\<close> is what a pass took from the head of
  the send list, and \<open>counted_bytes\<close> adds up the lengths of the buckets that are not
  file buckets.

  Every pass of every call advances \<open>received_bytes\<close> by the counted bytes of what it
  took from the send list, so not at all for a file bucket; it calls no consumed
  callback and leaves \<open>reported_consumed_bytes\<close> alone.

  For a call that returns: when nothing that happens during its waits changes
  \<open>received_bytes\<close> (only receive writes it; a wake by a sending producer is such a
  wake, \<open>send_wake_keeps_received\<close>), \<open>received_bytes\<close> has advanced by the counted
  bytes of what the passes took; if the passes took file buckets only it is
  unchanged, and if it was 0 was-received still says no. With the consumed callback
  installed, and wakes that keep it installed and report what they hand to it (again
  a sending producer, \<open>send_wake_keeps_total\<close>), what the callback has been handed
  plus what the next report will hand it has advanced by the same counted bytes:
  nothing for a file bucket.
\<close>

theorem receive_files_received_bytes:
  "(\<forall>p \<in> set (h2_beam_receive_passes env beam bb block readbytes sched).
       send_list (p_before p) =
         taken_from_send (p_before p) (p_after p) @ send_list (p_after p)
     \<and> received_bytes (p_after p) =
         received_bytes (p_before p) +
         counted_bytes (taken_from_send (p_before p) (p_after p))
     \<and> ((\<forall>x \<in> set (taken_from_send (p_before p) (p_after p)). btype x = BT_FILE) \<longrightarrow>
          received_bytes (p_after p) = received_bytes (p_before p))
     \<and> reported_consumed_bytes (p_after p) = reported_consumed_bytes (p_before p)
     \<and> consumed_calls (p_after p) = consumed_calls (p_before p))
   \<and> (h2_beam_receive env beam bb block readbytes sched = Ret (st, beam', bb') \<longrightarrow>
        (h2_beam_receive_passes env beam bb block readbytes sched \<noteq> [] \<longrightarrow>
           p_before (hd (h2_beam_receive_passes env beam bb block readbytes sched)) = beam
         \<and> p_after (last (h2_beam_receive_passes env beam bb block readbytes sched)) = beam')
      \<and> ((\<forall>c. sched_keeps (\<lambda>b. received_bytes b = c) sched) \<longrightarrow>
            received_bytes beam' =
              received_bytes beam +
              sum_list (map (\<lambda>p. counted_bytes (taken_from_send (p_before p) (p_after p)))
                         (h2_beam_receive_passes env beam bb block readbytes sched))
          \<and> ((\<forall>p \<in> set (h2_beam_receive_passes env beam bb block readbytes sched).
                 \<forall>x \<in> set (taken_from_send (p_before p) (p_after p)). btype x = BT_FILE) \<longrightarrow>
               received_bytes beam' = received_bytes beam
             \<and> (received_bytes beam = 0 \<longrightarrow> \<not> h2_beam_was_received beam')))
      \<and> (consumed_fn beam \<longrightarrow>
         (\<forall>d. sched_keeps (\<lambda>b. consumed_fn b \<and> consumed_total b = d) sched) \<longrightarrow>
            consumed_total beam' =
              consumed_total beam +
              sum_list (map (\<lambda>p. counted_bytes (taken_from_send (p_before p) (p_after p)))
                         (h2_beam_receive_passes env beam bb block readbytes sched))
          \<and> ((\<forall>p \<in> set (h2_beam_receive_passes env beam bb block readbytes sched).
                 \<forall>x \<in> set (taken_from_send (p_before p) (p_after p)). btype x = BT_FILE) \<longrightarrow>
               consumed_total beam' = consumed_total beam)))"
proof -
  let ?ps = "h2_beam_receive_passes env beam bb block readbytes sched"
  let ?sum = "sum_list (map (\<lambda>p. counted_bytes (taken_from_send (p_before p) (p_after p))) ?ps)"
  have 1: "send_list (p_before p) =
         taken_from_send (p_before p) (p_after p) @ send_list (p_after p)
     \<and> received_bytes (p_after p) =
         received_bytes (p_before p) +
         counted_bytes (taken_from_send (p_before p) (p_after p))
     \<and> ((\<forall>x \<in> set (taken_from_send (p_before p) (p_after p)). btype x = BT_FILE) \<longrightarrow>
          received_bytes (p_after p) = received_bytes (p_before p))
     \<and> reported_consumed_bytes (p_after p) = reported_consumed_bytes (p_before p)
     \<and> consumed_calls (p_after p) = consumed_calls (p_before p)"
    if "p \<in> set ?ps" for p
    using h2_beam_receive_passes_counts [OF that] by (simp add: counted_bytes_files)
  have z: "?sum = 0"
    if "\<forall>p \<in> set ?ps. \<forall>x \<in> set (taken_from_send (p_before p) (p_after p)). btype x = BT_FILE"
    using that by (rule sum_counted_files)
  have w: "\<not> h2_beam_was_received b" if "received_bytes b = 0" for b
    using that
    by (cases "enter_yellow b"; cases "fst (enter_yellow b)")
       (auto simp: h2_beam_was_received_def)
  have 2: "(?ps \<noteq> [] \<longrightarrow> p_before (hd ?ps) = beam \<and> p_after (last ?ps) = beam')
      \<and> ((\<forall>c. sched_keeps (\<lambda>b. received_bytes b = c) sched) \<longrightarrow>
            received_bytes beam' = received_bytes beam + ?sum
          \<and> ((\<forall>p \<in> set ?ps.
                 \<forall>x \<in> set (taken_from_send (p_before p) (p_after p)). btype x = BT_FILE) \<longrightarrow>
               received_bytes beam' = received_bytes beam
             \<and> (received_bytes beam = 0 \<longrightarrow> \<not> h2_beam_was_received beam')))
      \<and> (consumed_fn beam \<longrightarrow>
         (\<forall>d. sched_keeps (\<lambda>b. consumed_fn b \<and> consumed_total b = d) sched) \<longrightarrow>
            consumed_total beam' = consumed_total beam + ?sum
          \<and> ((\<forall>p \<in> set ?ps.
                 \<forall>x \<in> set (taken_from_send (p_before p) (p_after p)). btype x = BT_FILE) \<longrightarrow>
               consumed_total beam' = consumed_total beam))"
    if ret: "h2_beam_receive env beam bb block readbytes sched = Ret (st, beam', bb')"
  proof -
    note c = h2_beam_receive_counts [OF ret]
    have a: "?ps \<noteq> [] \<longrightarrow> p_before (hd ?ps) = beam \<and> p_after (last ?ps) = beam'"
      using c by blast
    have b: "received_bytes beam' = received_bytes beam + ?sum"
      if "\<forall>c. sched_keeps (\<lambda>b. received_bytes b = c) sched"
      using c that by blast
    have d: "consumed_total beam' = consumed_total beam + ?sum"
      if "consumed_fn beam" "\<forall>d. sched_keeps (\<lambda>b. consumed_fn b \<and> consumed_total b = d) sched"
      using c that by blast
    show ?thesis using a b d z w by simp
  qed
  from 1 2 show ?thesis by blast
qed

lemma files_of_log:
  assumes "map (\<lambda>p. map btype (taken_from_send (p_before p) (p_after p))) ps = ts"
    and "\<forall>t \<in> set ts. \<forall>y \<in> set t. y = BT_FILE"
  shows "\<forall>p \<in> set ps. \<forall>x \<in> set (taken_from_send (p_before p) (p_after p)). btype x = BT_FILE"
proof (intro ballI)
  fix p x
  assume p: "p \<in> set ps" and x: "x \<in> set (taken_from_send (p_before p) (p_after p))"
  have "map btype (taken_from_send (p_before p) (p_after p)) \<in> set ts"
    using assms(1) p by auto
  moreover have "btype x \<in> set (map btype (taken_from_send (p_before p) (p_after p)))"
    using x by simp
  ultimately show "btype x = BT_FILE" using assms(2) by blast
qed

text \<open>
  The statement at two runs. From \<open>file_beam\<close>, whose send list is a file bucket of
  100 bytes and an end-of-stream bucket, a receive of at most 50 bytes hands over the
  file bucket alone: \<open>received_bytes\<close> stays 0 and was-received says no. On
  \<open>unreported_beam\<close> a blocking receive finds nothing, waits, and is woken by the
  producer sending a file bucket; that send reports the 3 bytes received before, and
  the second pass of the receive hands over the file bucket: \<open>received_bytes\<close> is
  still 3, and the consumed callback has been handed those 3 bytes and nothing for
  the file.
\<close>

theorem receive_files_received_bytes_witness:
  "(\<exists>beam' bb'.
      h2_beam_receive plain_env file_beam (brigade 7 []) APR_NONBLOCK_READ 50 [] =
        Ret (APR_SUCCESS, beam', bb')
      \<and> map btype (brigade_list bb') = [BT_FILE]
      \<and> map btype (send_list beam') = [BT_EOS]
      \<and> received_bytes beam' = 0
      \<and> \<not> h2_beam_was_received beam')
   \<and> (\<exists>beam' bb'.
      h2_beam_receive plain_env unreported_beam (brigade 7 []) APR_BLOCK_READ 0
         [send_wake plain_env 1 (Some (brigade 1 [red_bucket 2 BT_FILE 100]))] =
        Ret (APR_SUCCESS, beam', bb')
      \<and> map btype (brigade_list bb') = [BT_FILE]
      \<and> received_bytes unreported_beam = 3
      \<and> received_bytes beam' = 3
      \<and> consumed_calls unreported_beam = []
      \<and> consumed_calls beam' = [3]
      \<and> consumed_total beam' = 3)"
proof -
  let ?w = "send_wake plain_env 1 (Some (brigade 1 [red_bucket 2 BT_FILE 100]))"
  have r1: "\<exists>beam' bb'.
      h2_beam_receive plain_env file_beam (brigade 7 []) APR_NONBLOCK_READ 50 [] =
        Ret (APR_SUCCESS, beam', bb')
      \<and> map btype (brigade_list bb') = [BT_FILE]
      \<and> map btype (send_list beam') = [BT_EOS]"
    by (simp add: h2_beam_receive_def file_beam_def recv_transfer.simps recv_pass_def
        h2_beam_create_def enter_yellow_def beam_set_recv_pool_def brigade_def red_bucket_def
        recv_file_def plain_env_def green_bucket_def recv_put_back_def recv_close_step_def
        green_split_def
        APR_BUCKET_IS_METADATA_def APR_BUCKET_IS_FILE_def Let_def word_sle_eq word_sless_alt)
  have l1: "map (\<lambda>p. map btype (taken_from_send (p_before p) (p_after p)))
      (h2_beam_receive_passes plain_env file_beam (brigade 7 []) APR_NONBLOCK_READ 50 []) =
      [[BT_FILE]]"
    by (simp add: h2_beam_receive_passes_def file_beam_def recv_passes.simps recv_pass_def
        taken_from_send_def
        h2_beam_create_def enter_yellow_def beam_set_recv_pool_def brigade_def red_bucket_def
        recv_file_def plain_env_def green_bucket_def recv_put_back_def recv_close_step_def
        green_split_def
        APR_BUCKET_IS_METADATA_def APR_BUCKET_IS_FILE_def Let_def word_sle_eq word_sless_alt)
  have f1: "\<forall>p \<in> set (h2_beam_receive_passes plain_env file_beam (brigade 7 [])
        APR_NONBLOCK_READ 50 []).
      \<forall>x \<in> set (taken_from_send (p_before p) (p_after p)). btype x = BT_FILE"
    by (rule files_of_log [OF l1]) simp
  have z1: "received_bytes file_beam = 0"
    by (simp add: file_beam_def h2_beam_create_def)
  have k1: "\<forall>c. sched_keeps (\<lambda>b. received_bytes b = c) []" by simp
  from r1 obtain b1 bb1 where
    ret1: "h2_beam_receive plain_env file_beam (brigade 7 []) APR_NONBLOCK_READ 50 [] =
        Ret (APR_SUCCESS, b1, bb1)"
    and more1: "map btype (brigade_list bb1) = [BT_FILE]" "map btype (send_list b1) = [BT_EOS]"
    by auto
  from receive_files_received_bytes [THEN conjunct2, THEN mp, OF ret1, THEN conjunct2,
      THEN conjunct1, THEN mp, OF k1, THEN conjunct2, THEN mp, OF f1]
  have "received_bytes b1 = 0" "\<not> h2_beam_was_received b1" using z1 by simp_all
  then have A: "\<exists>beam' bb'.
      h2_beam_receive plain_env file_beam (brigade 7 []) APR_NONBLOCK_READ 50 [] =
        Ret (APR_SUCCESS, beam', bb')
      \<and> map btype (brigade_list bb') = [BT_FILE]
      \<and> map btype (send_list beam') = [BT_EOS]
      \<and> received_bytes beam' = 0
      \<and> \<not> h2_beam_was_received beam'"
    using ret1 more1 by (intro exI [of _ b1] exI [of _ bb1]) simp
  note defs = unreported_beam_def locked_beam_eq send_wake_def
        h2_beam_create_def enter_yellow_def beam_set_recv_pool_def brigade_def red_bucket_def
        recv_file_def plain_env_def green_bucket_def recv_put_back_def recv_close_step_def
        green_split_def
        APR_BUCKET_IS_METADATA_def APR_BUCKET_IS_FILE_def Let_def word_sle_eq word_sless_alt
        h2_beam_send_def r_purge_sent_def beam_set_send_pool_def
        append_bucket_def append_normalize_def
        APR_BUCKET_IS_TRANSIENT_def APR_BUCKET_IS_HEAP_def APR_BUCKET_IS_POOL_def
        APR_BUCKET_IS_EOS_def report_production_def report_consumption_def
  have r2: "\<exists>beam' bb'.
      h2_beam_receive plain_env unreported_beam (brigade 7 []) APR_BLOCK_READ 0 [?w] =
        Ret (APR_SUCCESS, beam', bb')
      \<and> map btype (brigade_list bb') = [BT_FILE]
      \<and> consumed_calls beam' = [3]"
    by (simp add: h2_beam_receive_def recv_transfer.simps recv_pass_def defs)
  have l2: "map (\<lambda>p. map btype (taken_from_send (p_before p) (p_after p)))
      (h2_beam_receive_passes plain_env unreported_beam (brigade 7 []) APR_BLOCK_READ 0 [?w]) =
      [[], [BT_FILE]]"
    by (simp add: h2_beam_receive_passes_def recv_passes.simps recv_pass_def
        taken_from_send_def defs)
  have f2: "\<forall>p \<in> set (h2_beam_receive_passes plain_env unreported_beam (brigade 7 [])
        APR_BLOCK_READ 0 [?w]).
      \<forall>x \<in> set (taken_from_send (p_before p) (p_after p)). btype x = BT_FILE"
    by (rule files_of_log [OF l2]) simp
  have z2: "received_bytes unreported_beam = 3" "consumed_calls unreported_beam = []"
    "consumed_fn unreported_beam" "consumed_total unreported_beam = 3"
    by (simp_all add: unreported_beam_def locked_beam_eq h2_beam_create_def consumed_total_def)
  have k2: "\<forall>c. sched_keeps (\<lambda>b. received_bytes b = c) [?w]"
    using send_wake_keeps_received by blast
  have k3: "\<forall>d. sched_keeps (\<lambda>b. consumed_fn b \<and> consumed_total b = d) [?w]"
    using send_wake_keeps_total by blast
  from r2 obtain b2 bb2 where
    ret2: "h2_beam_receive plain_env unreported_beam (brigade 7 []) APR_BLOCK_READ 0 [?w] =
        Ret (APR_SUCCESS, b2, bb2)"
    and more2: "map btype (brigade_list bb2) = [BT_FILE]" "consumed_calls b2 = [3]"
    by auto
  from receive_files_received_bytes [THEN conjunct2, THEN mp, OF ret2, THEN conjunct2,
      THEN conjunct1, THEN mp, OF k2, THEN conjunct2, THEN mp, OF f2]
  have c1: "received_bytes b2 = 3" using z2 by simp
  from receive_files_received_bytes [THEN conjunct2, THEN mp, OF ret2, THEN conjunct2,
      THEN conjunct2, THEN mp, OF z2(3), THEN mp, OF k3, THEN conjunct2, THEN mp, OF f2]
  have c2: "consumed_total b2 = 3" using z2 by simp
  have B: "\<exists>beam' bb'.
      h2_beam_receive plain_env unreported_beam (brigade 7 []) APR_BLOCK_READ 0 [?w] =
        Ret (APR_SUCCESS, beam', bb')
      \<and> map btype (brigade_list bb') = [BT_FILE]
      \<and> received_bytes unreported_beam = 3
      \<and> received_bytes beam' = 3
      \<and> consumed_calls unreported_beam = []
      \<and> consumed_calls beam' = [3]
      \<and> consumed_total beam' = 3"
    using ret2 more2 c1 c2 z2 by (intro exI [of _ b2] exI [of _ bb2]) simp
  from A B show ?thesis by (rule conjI)
qed

section \<open>End-of-stream markers: forwarded one for one\<close>






end
